theory Spec2Isabelle
  imports Main
begin

section \<open>The JavaScript runtime functions the scripts call\<close>

text \<open>
  The two scripts (the MongoDB migration and the JSON export) call a handful of runtime
  functions on strings: \<^verbatim>\<open>String.prototype.trim\<close>, \<^verbatim>\<open>split(",")\<close>,
  \<^verbatim>\<open>Array.prototype.join\<close>, \<^verbatim>\<open>String(v)\<close> and \<^verbatim>\<open>JSON.parse\<close>.

  A JavaScript string is a sequence of UTF-16 code units; a code unit is a number below
  65536. \<open>js\<close> turns a literal of this text into such a string.

  A JavaScript number is a value of the type parameter \<open>'n\<close>. The scripts never
  compute with numbers; they read a number from a JSON literal and print it in a template
  string. Those two conversions are the fields of \<open>js_runtime\<close>.
\<close>

type_synonym js_string = "nat list"

definition js :: "string \<Rightarrow> js_string" where
  "js s = map of_char s"

definition ch :: "char \<Rightarrow> nat" where
  "ch c = of_char c"

record 'n js_runtime =
  number_of_literal :: "js_string \<Rightarrow> 'n"
  Number_toString :: "'n \<Rightarrow> js_string"

text \<open>White space as \<^verbatim>\<open>trim\<close> understands it: the white space and the line
  terminators of the language (TAB, LF, VT, FF, CR, SP, NBSP, the Unicode space
  separators, LS, PS and the byte order mark).\<close>

definition js_whitespace :: "nat \<Rightarrow> bool" where
  "js_whitespace c \<longleftrightarrow>
     c \<in> set [0x09, 0x0A, 0x0B, 0x0C, 0x0D, 0x20, 0xA0, 0x1680, 0x2028, 0x2029, 0x202F,
              0x205F, 0x3000, 0xFEFF]
     \<or> (0x2000 \<le> c \<and> c \<le> 0x200A)"

definition trim :: "js_string \<Rightarrow> js_string" where
  "trim s = rev (dropWhile js_whitespace (rev (dropWhile js_whitespace s)))"

text \<open>\<^verbatim>\<open>s.split(c)\<close> for a one-character separator: always at least one piece.\<close>

fun split_on :: "nat \<Rightarrow> js_string \<Rightarrow> js_string list" where
  "split_on c [] = [[]]"
| "split_on c (x # xs) =
     (if x = c then [] # split_on c xs
      else (case split_on c xs of
              [] \<Rightarrow> [[x]]
            | w # ws \<Rightarrow> (x # w) # ws))"

fun join_strings :: "js_string \<Rightarrow> js_string list \<Rightarrow> js_string" where
  "join_strings sep [] = []"
| "join_strings sep [x] = x"
| "join_strings sep (x # y # ys) = x @ sep @ join_strings sep (y # ys)"

subsection \<open>JSON values and \<^verbatim>\<open>JSON.parse\<close>\<close>

datatype 'n json =
    JNull
  | JBool bool
  | JNum 'n
  | JStr js_string
  | JArr "'n json list"
  | JObj "(js_string \<times> 'n json) list"

datatype token =
    TLBracket | TRBracket | TLBrace | TRBrace | TComma | TColon
  | TWord js_string | TStr js_string | TNum js_string

definition is_digit :: "nat \<Rightarrow> bool" where
  "is_digit c \<longleftrightarrow> c \<in> set (js ''0123456789'')"

definition hex_val :: "nat \<Rightarrow> nat option" where
  "hex_val c = map_of
     [(ch CHR ''0'', 0), (ch CHR ''1'', 1), (ch CHR ''2'', 2), (ch CHR ''3'', 3),
      (ch CHR ''4'', 4), (ch CHR ''5'', 5), (ch CHR ''6'', 6), (ch CHR ''7'', 7),
      (ch CHR ''8'', 8), (ch CHR ''9'', 9), (ch CHR ''a'', 10), (ch CHR ''b'', 11),
      (ch CHR ''c'', 12), (ch CHR ''d'', 13), (ch CHR ''e'', 14), (ch CHR ''f'', 15),
      (ch CHR ''A'', 10), (ch CHR ''B'', 11), (ch CHR ''C'', 12), (ch CHR ''D'', 13),
      (ch CHR ''E'', 14), (ch CHR ''F'', 15)] c"

text \<open>The JSON number grammar:
  \<^verbatim>\<open>-? (0 | [1-9][0-9]*) (. [0-9]+)? ([eE] [+-]? [0-9]+)?\<close>.\<close>

definition num_exp :: "js_string \<Rightarrow> bool" where
  "num_exp s =
     (let d = (case s of
                 [] \<Rightarrow> []
               | c # r \<Rightarrow> if c = ch CHR ''+'' \<or> c = ch CHR ''-'' then r else s)
      in d \<noteq> [] \<and> list_all is_digit d)"

definition exp_tail :: "js_string \<Rightarrow> bool" where
  "exp_tail s =
     (case s of
        [] \<Rightarrow> True
      | c # r \<Rightarrow> (c = ch CHR ''e'' \<or> c = ch CHR ''E'') \<and> num_exp r)"

definition num_tail :: "js_string \<Rightarrow> bool" where
  "num_tail s =
     (case s of
        [] \<Rightarrow> True
      | c # r \<Rightarrow>
          if c = ch CHR ''.''
          then takeWhile is_digit r \<noteq> [] \<and> exp_tail (dropWhile is_digit r)
          else exp_tail s)"

definition num_int :: "js_string \<Rightarrow> bool" where
  "num_int s =
     (case s of
        [] \<Rightarrow> False
      | c # r \<Rightarrow>
          if c = ch CHR ''0'' then num_tail r
          else if is_digit c then num_tail (dropWhile is_digit r)
          else False)"

definition valid_number :: "js_string \<Rightarrow> bool" where
  "valid_number s =
     (case s of
        [] \<Rightarrow> False
      | c # r \<Rightarrow> if c = ch CHR ''-'' then num_int r else num_int s)"

text \<open>
  The lexer reads one code unit at a time. Its mode says what it is in the middle of:
  between tokens, inside a string (with the code units read so far), after a backslash,
  inside a \<^verbatim>\<open>\uXXXX\<close> escape (with the hex digits read so far), inside a number or
  inside one of the words \<^verbatim>\<open>null\<close>, \<^verbatim>\<open>true\<close>, \<^verbatim>\<open>false\<close>.
  A \<^verbatim>\<open>\uXXXX\<close> escape stands for the code unit with that number.
\<close>

datatype lex_mode =
    Between
  | InString js_string
  | InEscape js_string
  | InUnicode js_string "nat list"
  | InNumber js_string
  | InWord js_string

definition json_space :: "nat \<Rightarrow> bool" where
  "json_space c \<longleftrightarrow> c \<in> set [0x09, 0x0A, 0x0D, 0x20]"

definition number_char :: "nat \<Rightarrow> bool" where
  "number_char c \<longleftrightarrow> c \<in> set (js ''0123456789+-.eE'')"

definition word_char :: "nat \<Rightarrow> bool" where
  "word_char c \<longleftrightarrow> c \<in> set (js ''abcdefghijklmnopqrstuvwxyz'')"

definition escape_char :: "nat \<Rightarrow> nat option" where
  "escape_char c = map_of
     [(0x22, 0x22), (0x5C, 0x5C), (ch CHR ''/'', ch CHR ''/''),
      (ch CHR ''b'', 0x08), (ch CHR ''f'', 0x0C), (ch CHR ''n'', 0x0A),
      (ch CHR ''r'', 0x0D), (ch CHR ''t'', 0x09)] c"

definition punctuation :: "nat \<Rightarrow> token option" where
  "punctuation c = map_of
     [(ch CHR ''['', TLBracket), (ch CHR '']'', TRBracket), (ch CHR ''{'', TLBrace),
      (ch CHR ''}'', TRBrace), (ch CHR '','', TComma), (ch CHR '':'', TColon)] c"

definition emit :: "token \<Rightarrow> token list option \<Rightarrow> token list option" where
  "emit t r = map_option (\<lambda>ts. t # ts) r"

definition mode_rank :: "lex_mode \<Rightarrow> nat" where
  "mode_rank m = (case m of Between \<Rightarrow> 0 | _ \<Rightarrow> 1)"

definition is_word :: "js_string \<Rightarrow> bool" where
  "is_word s \<longleftrightarrow> s \<in> set [js ''null'', js ''true'', js ''false'']"

function lex :: "lex_mode \<Rightarrow> js_string \<Rightarrow> token list option" where
  "lex Between [] = Some []"
| "lex Between (c # cs) =
     (if json_space c then lex Between cs
      else if c = 0x22 then lex (InString []) cs
      else if c = ch CHR ''-'' \<or> is_digit c then lex (InNumber [c]) cs
      else if word_char c then lex (InWord [c]) cs
      else (case punctuation c of
              Some t \<Rightarrow> emit t (lex Between cs)
            | None \<Rightarrow> None))"
| "lex (InString acc) [] = None"
| "lex (InString acc) (c # cs) =
     (if c = 0x22 then emit (TStr acc) (lex Between cs)
      else if c = 0x5C then lex (InEscape acc) cs
      else if c < 0x20 then None
      else lex (InString (acc @ [c])) cs)"
| "lex (InEscape acc) [] = None"
| "lex (InEscape acc) (c # cs) =
     (if c = ch CHR ''u'' then lex (InUnicode acc []) cs
      else (case escape_char c of
              Some d \<Rightarrow> lex (InString (acc @ [d])) cs
            | None \<Rightarrow> None))"
| "lex (InUnicode acc ds) [] = None"
| "lex (InUnicode acc ds) (c # cs) =
     (case hex_val c of
        None \<Rightarrow> None
      | Some d \<Rightarrow>
          if length ds < 3 then lex (InUnicode acc (ds @ [d])) cs
          else lex (InString (acc @ [foldl (\<lambda>a b. 16 * a + b) 0 (ds @ [d])])) cs)"
| "lex (InNumber acc) [] = (if valid_number acc then Some [TNum acc] else None)"
| "lex (InNumber acc) (c # cs) =
     (if number_char c then lex (InNumber (acc @ [c])) cs
      else if valid_number acc then emit (TNum acc) (lex Between (c # cs))
      else None)"
| "lex (InWord acc) [] = (if is_word acc then Some [TWord acc] else None)"
| "lex (InWord acc) (c # cs) =
     (if word_char c then lex (InWord (acc @ [c])) cs
      else if is_word acc then emit (TWord acc) (lex Between (c # cs))
      else None)"
  by pat_completeness auto
termination
  by (relation "measures [\<lambda>(m, s). length s, \<lambda>(m, s). mode_rank m]")
     (auto simp: mode_rank_def)

text \<open>
  The parser is a stack machine over the tokens. A frame is an array or an object under
  construction (an object frame also holds the key whose value is awaited); the phase says
  which tokens may come next. A key that comes again in an object keeps its place and
  takes the new value.
\<close>

datatype 'n frame =
    ArrF "'n json list"
  | ObjF "(js_string \<times> 'n json) list" js_string

datatype phase = PValue | PValueOrClose | PKeyOrClose | PKey | PColon | PAfter

datatype 'n pstate =
    PS "'n frame list" phase
  | Finished "'n json"

fun set_member ::
  "js_string \<Rightarrow> 'n json \<Rightarrow> (js_string \<times> 'n json) list \<Rightarrow> (js_string \<times> 'n json) list" where
  "set_member k v [] = [(k, v)]"
| "set_member k v ((k', v') # ms) =
     (if k' = k then (k, v) # ms else (k', v') # set_member k v ms)"

fun deliver :: "'n json \<Rightarrow> 'n frame list \<Rightarrow> 'n pstate" where
  "deliver v [] = Finished v"
| "deliver v (ArrF xs # st) = PS (ArrF (xs @ [v]) # st) PAfter"
| "deliver v (ObjF ms k # st) = PS (ObjF (set_member k v ms) k # st) PAfter"

definition wants_value :: "phase \<Rightarrow> bool" where
  "wants_value ph \<longleftrightarrow> ph = PValue \<or> ph = PValueOrClose"

definition wants_key :: "phase \<Rightarrow> bool" where
  "wants_key ph \<longleftrightarrow> ph = PKey \<or> ph = PKeyOrClose"

fun parse_step :: "(js_string \<Rightarrow> 'n) \<Rightarrow> 'n pstate \<Rightarrow> token \<Rightarrow> 'n pstate option" where
  "parse_step nl (Finished v) t = None"
| "parse_step nl (PS st ph) (TWord w) =
     (if wants_value ph
      then Some (deliver (if w = js ''null'' then JNull else JBool (w = js ''true'')) st)
      else None)"
| "parse_step nl (PS st ph) (TNum l) =
     (if wants_value ph then Some (deliver (JNum (nl l)) st) else None)"
| "parse_step nl (PS st ph) (TStr s) =
     (if wants_value ph then Some (deliver (JStr s) st)
      else if wants_key ph
      then (case st of
              ObjF ms k # r \<Rightarrow> Some (PS (ObjF ms s # r) PColon)
            | _ \<Rightarrow> None)
      else None)"
| "parse_step nl (PS st ph) TLBracket =
     (if wants_value ph then Some (PS (ArrF [] # st) PValueOrClose) else None)"
| "parse_step nl (PS st ph) TLBrace =
     (if wants_value ph then Some (PS (ObjF [] [] # st) PKeyOrClose) else None)"
| "parse_step nl (PS st ph) TRBracket =
     (if ph = PValueOrClose \<or> ph = PAfter
      then (case st of
              ArrF xs # r \<Rightarrow> Some (deliver (JArr xs) r)
            | _ \<Rightarrow> None)
      else None)"
| "parse_step nl (PS st ph) TRBrace =
     (if ph = PKeyOrClose \<or> ph = PAfter
      then (case st of
              ObjF ms k # r \<Rightarrow> Some (deliver (JObj ms) r)
            | _ \<Rightarrow> None)
      else None)"
| "parse_step nl (PS st ph) TComma =
     (if ph = PAfter
      then (case st of
              ArrF xs # r \<Rightarrow> Some (PS st PValue)
            | ObjF ms k # r \<Rightarrow> Some (PS st PKey)
            | [] \<Rightarrow> None)
      else None)"
| "parse_step nl (PS st ph) TColon =
     (if ph = PColon then Some (PS st PValue) else None)"

fun parse_tokens :: "(js_string \<Rightarrow> 'n) \<Rightarrow> 'n pstate \<Rightarrow> token list \<Rightarrow> 'n json option" where
  "parse_tokens nl (Finished v) [] = Some v"
| "parse_tokens nl (PS st ph) [] = None"
| "parse_tokens nl s (t # ts) =
     (case parse_step nl s t of
        None \<Rightarrow> None
      | Some s' \<Rightarrow> parse_tokens nl s' ts)"

text \<open>\<^verbatim>\<open>JSON.parse(text)\<close>: \<open>None\<close> stands for the \<^verbatim>\<open>SyntaxError\<close> it throws.
  An object is kept as the list of its members in the order of the text; the scripts
  never look into an object, they only convert it to a string.\<close>

definition JSON_parse :: "(js_string \<Rightarrow> 'n) \<Rightarrow> js_string \<Rightarrow> 'n json option" where
  "JSON_parse nl s =
     (case lex Between s of
        None \<Rightarrow> None
      | Some ts \<Rightarrow> parse_tokens nl (PS [] PValue) ts)"

text \<open>
  \<^verbatim>\<open>String(v)\<close> for a value that came out of \<^verbatim>\<open>JSON.parse\<close>; \<open>None\<close> stands
  for the \<^verbatim>\<open>TypeError\<close> it throws. An array is printed by its \<^verbatim>\<open>join\<close> with a
  comma. An object is printed by the \<^verbatim>\<open>toString\<close> it inherits, as
  \<^verbatim>\<open>[object Object]\<close>, unless it has a member named \<^verbatim>\<open>toString\<close> of its own: that
  member is a JSON value, which cannot be called, and the \<^verbatim>\<open>valueOf\<close> tried next
  gives no primitive value, so the conversion throws.
  \<^verbatim>\<open>xs.join(sep)\<close> converts each element in turn, \<^verbatim>\<open>null\<close> to the empty string,
  and throws when one conversion throws.
\<close>

fun js_String :: "'n js_runtime \<Rightarrow> 'n json \<Rightarrow> js_string option" where
  "js_String rt JNull = Some (js ''null'')"
| "js_String rt (JBool b) = Some (if b then js ''true'' else js ''false'')"
| "js_String rt (JNum n) = Some (Number_toString rt n)"
| "js_String rt (JStr s) = Some s"
| "js_String rt (JArr xs) =
     map_option (join_strings (js '',''))
       (those (map (\<lambda>x. if x = JNull then Some [] else js_String rt x) xs))"
| "js_String rt (JObj ms) =
     (if js ''toString'' \<in> set (map fst ms) then None else Some (js ''[object Object]''))"

definition element_text :: "'n js_runtime \<Rightarrow> 'n json \<Rightarrow> js_string option" where
  "element_text rt x = (if x = JNull then Some [] else js_String rt x)"

definition js_join :: "'n js_runtime \<Rightarrow> js_string \<Rightarrow> 'n json list \<Rightarrow> js_string option" where
  "js_join rt sep xs = map_option (join_strings sep) (those (map (element_text rt) xs))"

section \<open>Data model\<close>

text \<open>
  \<^verbatim>\<open>SQLiteProduct\<close> is one row of the \<^verbatim>\<open>products\<close> table. The scripts guard
  \<^verbatim>\<open>description\<close>, \<^verbatim>\<open>tags\<close> and \<^verbatim>\<open>search_content\<close> against a missing value
  (\<^verbatim>\<open>x || ""\<close>, \<^verbatim>\<open>if (x)\<close>), so these three columns are optional here:
  \<open>None\<close> is the SQL \<^verbatim>\<open>NULL\<close>.
\<close>

record 'n SQLiteProduct =
  sku :: js_string
  handle :: js_string
  title :: js_string
  description :: "js_string option"
  vendor :: js_string
  price :: 'n
  currency :: js_string
  image_url :: js_string
  product_url :: js_string
  tags :: "js_string option"
  search_content :: "js_string option"

text \<open>
  \<^verbatim>\<open>MongoProduct\<close> is the document written to the destination. \<^verbatim>\<open>tags\<close> is
  declared \<^verbatim>\<open>string[]\<close>, but it holds whatever \<^verbatim>\<open>JSON.parse\<close> returned, so its
  elements are JSON values. \<^verbatim>\<open>embedding\<close> is the optional field.
\<close>

record 'n MongoProduct =
  sku :: js_string
  handle :: js_string
  title :: js_string
  description :: js_string
  vendor :: js_string
  price :: 'n
  currency :: js_string
  image_url :: js_string
  product_url :: js_string
  tags :: "'n json list"
  search_content :: js_string
  embedding_text :: js_string
  embedding :: "'n list option"

text \<open>A thrown value, with the fields the scripts read from it:
  \<^verbatim>\<open>error.status\<close>, \<^verbatim>\<open>error.code\<close> and \<^verbatim>\<open>error.message\<close>.\<close>

record js_error =
  status :: "int option"
  code :: "int option"
  message :: js_string

definition Error :: "string \<Rightarrow> js_error" where
  "Error msg = \<lparr>status = None, code = None, message = js msg\<rparr>"

text \<open>The error of a conversion to string that finds no primitive value.\<close>

definition TypeError :: js_error where
  "TypeError = Error ''Cannot convert object to primitive value''"

section \<open>Transformer\<close>

text \<open>\<^verbatim>\<open>x || ""\<close> on an optional string.\<close>

definition or_empty :: "js_string option \<Rightarrow> js_string" where
  "or_empty x = (case x of None \<Rightarrow> [] | Some s \<Rightarrow> s)"

text \<open>
  \<^verbatim>\<open>generateEmbeddingText\<close>, the same function in both scripts. The only step that
  can throw is \<^verbatim>\<open>tags.join(", ")\<close>, which is evaluated when there is at least one tag.
\<close>

definition generateEmbeddingText ::
  "'n js_runtime \<Rightarrow> 'n SQLiteProduct \<Rightarrow> 'n json list \<Rightarrow> js_error + js_string" where
  "generateEmbeddingText rt product tgs =
     (let basicInfo = SQLiteProduct.title product @ js '' '' @
                      or_empty (SQLiteProduct.description product) @ js '' from '' @
                      SQLiteProduct.vendor product;
          pricing = js ''Price: '' @ Number_toString rt (SQLiteProduct.price product) @ js '' '' @
                    SQLiteProduct.currency product;
          searchContent = or_empty (SQLiteProduct.search_content product)
      in (case (if length tgs > 0
                then map_option (\<lambda>joined. js ''Tags: '' @ joined) (js_join rt (js '', '') tgs)
                else Some [])
          of None \<Rightarrow> Inl TypeError
           | Some tagText \<Rightarrow>
               Inr (trim (basicInfo @ js ''. '' @ pricing @ js ''. '' @ tagText @ js ''. '' @
                          searchContent))))"

text \<open>
  The tag parsing shared by \<^verbatim>\<open>transformProduct\<close> and
  \<^verbatim>\<open>transformProductToMongoSchema\<close>: the value of the local variable \<^verbatim>\<open>tags\<close>
  when the \<^verbatim>\<open>if\<close> statement is left. \<open>split_tags\<close> is the \<^verbatim>\<open>catch\<close> block. It
  is entered when \<^verbatim>\<open>JSON.parse\<close> throws and also when \<^verbatim>\<open>String(tags)\<close> throws,
  both being inside the \<^verbatim>\<open>try\<close>.
\<close>

definition split_tags :: "js_string \<Rightarrow> 'n json list" where
  "split_tags s =
     map JStr (filter (\<lambda>t. length t > 0) (map trim (split_on (ch CHR '','') s)))"

definition parse_tags :: "'n js_runtime \<Rightarrow> js_string option \<Rightarrow> 'n json list" where
  "parse_tags rt field =
     (case field of
        None \<Rightarrow> []
      | Some s \<Rightarrow>
          if s = [] then []
          else (case JSON_parse (number_of_literal rt) s of
                  Some v \<Rightarrow>
                    (case v of
                       JArr xs \<Rightarrow> xs
                     | _ \<Rightarrow>
                         (case js_String rt v of
                            Some text \<Rightarrow> [JStr text]
                          | None \<Rightarrow> split_tags s))
                | None \<Rightarrow> split_tags s))"

text \<open>\<^verbatim>\<open>transformProduct\<close> of the export script. The call of
  \<^verbatim>\<open>generateEmbeddingText\<close> is outside the \<^verbatim>\<open>try\<close>: what it throws, the
  transformer throws.\<close>

definition transformProduct ::
  "'n js_runtime \<Rightarrow> 'n SQLiteProduct \<Rightarrow> js_error + 'n MongoProduct" where
  "transformProduct rt sqliteProduct =
     (let tgs = parse_tags rt (SQLiteProduct.tags sqliteProduct)
      in (case generateEmbeddingText rt sqliteProduct tgs of
            Inl e \<Rightarrow> Inl e
          | Inr generated \<Rightarrow>
              Inr \<lparr>sku = SQLiteProduct.sku sqliteProduct,
                   handle = SQLiteProduct.handle sqliteProduct,
                   title = SQLiteProduct.title sqliteProduct,
                   description = or_empty (SQLiteProduct.description sqliteProduct),
                   vendor = SQLiteProduct.vendor sqliteProduct,
                   price = SQLiteProduct.price sqliteProduct,
                   currency = SQLiteProduct.currency sqliteProduct,
                   image_url = SQLiteProduct.image_url sqliteProduct,
                   product_url = SQLiteProduct.product_url sqliteProduct,
                   tags = tgs,
                   search_content = or_empty (SQLiteProduct.search_content sqliteProduct),
                   embedding_text = generated,
                   embedding = None\<rparr>))"

text \<open>The migration script has the same function under another name.\<close>

definition transformProductToMongoSchema ::
  "'n js_runtime \<Rightarrow> 'n SQLiteProduct \<Rightarrow> js_error + 'n MongoProduct" where
  "transformProductToMongoSchema rt sqliteProduct =
     (let tgs = parse_tags rt (SQLiteProduct.tags sqliteProduct)
      in (case generateEmbeddingText rt sqliteProduct tgs of
            Inl e \<Rightarrow> Inl e
          | Inr generated \<Rightarrow>
              Inr \<lparr>sku = SQLiteProduct.sku sqliteProduct,
                   handle = SQLiteProduct.handle sqliteProduct,
                   title = SQLiteProduct.title sqliteProduct,
                   description = or_empty (SQLiteProduct.description sqliteProduct),
                   vendor = SQLiteProduct.vendor sqliteProduct,
                   price = SQLiteProduct.price sqliteProduct,
                   currency = SQLiteProduct.currency sqliteProduct,
                   image_url = SQLiteProduct.image_url sqliteProduct,
                   product_url = SQLiteProduct.product_url sqliteProduct,
                   tags = tgs,
                   search_content = or_empty (SQLiteProduct.search_content sqliteProduct),
                   embedding_text = generated,
                   embedding = None\<rparr>))"

text \<open>\<^verbatim>\<open>rows.map(f)\<close> for an \<open>f\<close> that may throw: the first throw ends the map.\<close>

fun map_throwing :: "('a \<Rightarrow> 'e + 'b) \<Rightarrow> 'a list \<Rightarrow> 'e + 'b list" where
  "map_throwing f [] = Inr []"
| "map_throwing f (x # xs) =
     (case f x of
        Inl e \<Rightarrow> Inl e
      | Inr y \<Rightarrow> (case map_throwing f xs of Inl e \<Rightarrow> Inl e | Inr ys \<Rightarrow> Inr (y # ys)))"

section \<open>Embedding client: retry with backoff\<close>

text \<open>
  The wrapped function \<^verbatim>\<open>fn\<close> is a call to a remote service: each call may end
  differently. It is modelled as a function of the number of calls made so far, so that
  any sequence of outcomes is some \<open>fn\<close>. \<open>retry_loop\<close> is the \<^verbatim>\<open>for\<close> loop of
  \<^verbatim>\<open>retryWithBackoff\<close>; it returns the outcome, the number of calls made so far and the
  delays waited, in milliseconds. The error thrown after the loop is kept apart from the
  errors thrown by \<^verbatim>\<open>fn\<close>. \<^verbatim>\<open>maxRetries\<close> is a natural number; both scripts
  leave it at its default, 3.
\<close>

datatype retry_error = Thrown js_error | MaxRetriesExceeded

definition error_message :: "retry_error \<Rightarrow> js_string" where
  "error_message e =
     (case e of Thrown x \<Rightarrow> message x | MaxRetriesExceeded \<Rightarrow> js ''Max retries exceeded'')"

function retry_loop ::
  "(nat \<Rightarrow> js_error + 'a) \<Rightarrow> nat \<Rightarrow> nat \<Rightarrow> nat \<Rightarrow> nat list \<Rightarrow> (retry_error + 'a) \<times> nat \<times> nat list" where
  "retry_loop fn maxRetries attempt n waited =
     (if attempt \<le> maxRetries
      then (case fn n of
              Inr v \<Rightarrow> (Inr v, Suc n, waited)
            | Inl error \<Rightarrow>
                if status error = Some 429 \<and> attempt < maxRetries
                then retry_loop fn maxRetries (attempt + 1) (Suc n)
                       (waited @ [min (1000 * 2 ^ attempt) 30000])
                else (Inl (Thrown error), Suc n, waited))
      else (Inl MaxRetriesExceeded, n, waited))"
  by pat_completeness auto
termination
  by (relation "measure (\<lambda>(fn, maxRetries, attempt, n, waited). Suc maxRetries - attempt)") auto

definition retryWithBackoff ::
  "(nat \<Rightarrow> js_error + 'a) \<Rightarrow> nat \<Rightarrow> nat \<Rightarrow> (retry_error + 'a) \<times> nat \<times> nat list" where
  "retryWithBackoff fn maxRetries n = retry_loop fn maxRetries 1 n []"

declare retry_loop.simps [simp del]

section \<open>The world outside the scripts\<close>

text \<open>
  \<open>environment\<close> is what a run finds and cannot control: the process environment
  variables, what reading the SQLite table yields, what the embedding provider answers to
  its \<open>k\<close>-th call on a text, and which calls fail. An \<open>insertOne\<close> is
  refused or accepted by the store, which sees the number of earlier inserts, the
  documents it holds and the new document. The other faults are, in the order of the
  fields: the constructor of the embeddings model; \<^verbatim>\<open>JSON.stringify\<close> and
  \<^verbatim>\<open>writeFileSync\<close>; \<^verbatim>\<open>statSync\<close>; the constructor of the client; \<^verbatim>\<open>connect\<close> and
  the ping; the two calls of \<^verbatim>\<open>ensureVectorSearchIndex\<close>; \<^verbatim>\<open>deleteMany\<close>; the reads
  of \<^verbatim>\<open>verifyMigration\<close>; \<^verbatim>\<open>close\<close>.
\<close>

record 'n environment =
  GOOGLE_API_KEY :: "js_string option"
  MONGODB_ATLAS_URI :: "js_string option"
  sqlite_rows :: "js_error + 'n SQLiteProduct list"
  embedQuery :: "nat \<Rightarrow> js_string \<Rightarrow> js_error + 'n list"
  model_fault :: "js_error option"
  write_fault :: "js_error option"
  stat_fault :: "js_error option"
  client_fault :: "js_error option"
  connect_fault :: "js_error option"
  list_indexes_fault :: "js_error option"
  create_index_fault :: "js_error option"
  delete_fault :: "js_error option"
  insert_fault :: "nat \<Rightarrow> 'n MongoProduct list \<Rightarrow> 'n MongoProduct \<Rightarrow> js_error option"
  verify_fault :: "js_error option"
  close_fault :: "js_error option"

text \<open>The console lines that carry information about the run; banners and step
  headings are left out.\<close>

datatype log_line =
    NoProductsFound
  | Transformed nat
  | EmbeddingGenerated js_string
  | EmbeddingFailed js_string js_string
  | Processed nat nat
  | WaitingBeforeNextBatch
  | Exported
  | ExportSummary nat nat
  | ExportFailed
  | IndexExists
  | IndexCreated
  | IndexError
  | Deleted nat
  | Inserted js_string
  | DuplicateSkipped js_string
  | InsertFailed js_string js_string
  | Verification nat nat
  | MigrationSummary nat nat
  | MigrationFailed
  | ConnectionClosed

text \<open>
  \<open>world\<close> is everything a run changes outside its own variables: the number of
  calls made to the embedding provider, the delays awaited, the console, the contents
  written to the output file, the documents and search indexes of the collection
  \<^verbatim>\<open>inventory_database.items\<close>, and the number of \<open>insertOne\<close> calls.
\<close>

record 'n world =
  embed_calls :: nat
  timers :: "nat list"
  console :: "log_line list"
  file_writes :: "'n MongoProduct list list"
  items :: "'n MongoProduct list"
  search_indexes :: "js_string list"
  insert_calls :: nat

definition initial_world :: "'n MongoProduct list \<Rightarrow> js_string list \<Rightarrow> 'n world" where
  "initial_world prior_items prior_indexes =
     \<lparr>embed_calls = 0, timers = [], console = [], file_writes = [],
      items = prior_items, search_indexes = prior_indexes, insert_calls = 0\<rparr>"

definition log :: "log_line \<Rightarrow> 'n world \<Rightarrow> 'n world" where
  "log l w = w\<lparr>console := console w @ [l]\<rparr>"

definition setTimeout :: "nat \<Rightarrow> 'n world \<Rightarrow> 'n world" where
  "setTimeout ms w = w\<lparr>timers := timers w @ [ms]\<rparr>"

text \<open>\<^verbatim>\<open>process.env.X\<close> is falsy when the variable is unset or empty.\<close>

definition env_set :: "js_string option \<Rightarrow> bool" where
  "env_set v \<longleftrightarrow> (case v of None \<Rightarrow> False | Some s \<Rightarrow> s \<noteq> [])"

text \<open>One embedding call through \<^verbatim>\<open>retryWithBackoff\<close> with the default of three
  attempts, as both scripts make it.\<close>

definition embed_with_retry ::
  "'n environment \<Rightarrow> js_string \<Rightarrow> 'n world \<Rightarrow> (retry_error + 'n list) \<times> 'n world" where
  "embed_with_retry env text w =
     (case retryWithBackoff (\<lambda>k. embedQuery env k text) 3 (embed_calls w) of
        (r, n, waited) \<Rightarrow> (r, w\<lparr>embed_calls := n, timers := timers w @ waited\<rparr>))"

section \<open>The export script\<close>

record 'n export_vars =
  productsWithEmbeddings :: "'n MongoProduct list"
  successCount :: nat
  failCount :: nat

definition export_BATCH_SIZE :: nat where
  "export_BATCH_SIZE = 25"

definition export_BATCH_DELAY :: nat where
  "export_BATCH_DELAY = 1500"

text \<open>The body of \<^verbatim>\<open>for (const product of batch)\<close>; \<open>n_products\<close> is
  \<^verbatim>\<open>mongoProducts.length\<close>.\<close>

definition export_product ::
  "'n environment \<Rightarrow> nat \<Rightarrow> 'n export_vars \<times> 'n world \<Rightarrow> 'n MongoProduct \<Rightarrow> 'n export_vars \<times> 'n world" where
  "export_product env n_products st product =
     (case st of (vars, w) \<Rightarrow>
        (case embed_with_retry env (embedding_text product) w of
           (Inr emb, w1) \<Rightarrow>
             (vars\<lparr>productsWithEmbeddings :=
                      productsWithEmbeddings vars @ [product\<lparr>embedding := Some emb\<rparr>],
                    successCount := successCount vars + 1\<rparr>,
              if (successCount vars + 1) mod 10 = 0
              then log (Processed (successCount vars + 1) n_products) w1
              else w1)
         | (Inl error, w1) \<Rightarrow>
             (vars\<lparr>failCount := failCount vars + 1,
                    productsWithEmbeddings := productsWithEmbeddings vars @ [product]\<rparr>,
              log (EmbeddingFailed (sku product) (error_message error)) w1)))"

text \<open>The delay between batches: the \<^verbatim>\<open>if\<close> statement that ends the body of the
  batch loop.\<close>

definition export_pause :: "nat \<Rightarrow> nat \<Rightarrow> 'n world \<Rightarrow> 'n world" where
  "export_pause i n_products w =
     (if i + export_BATCH_SIZE < n_products
      then setTimeout export_BATCH_DELAY (log WaitingBeforeNextBatch w)
      else w)"

text \<open>The body of the batch loop of \<^verbatim>\<open>exportToJson\<close>: embed each product of the
  batch, then pause.\<close>

definition export_batch ::
  "'n environment \<Rightarrow> 'n MongoProduct list \<Rightarrow> nat \<Rightarrow> 'n export_vars \<times> 'n world \<Rightarrow> 'n export_vars \<times> 'n world" where
  "export_batch env mongoProducts i st =
     (let batch = take export_BATCH_SIZE (drop i mongoProducts);
          st1 = foldl (export_product env (length mongoProducts)) st batch
      in (fst st1, export_pause i (length mongoProducts) (snd st1)))"

function export_batches ::
  "'n environment \<Rightarrow> 'n MongoProduct list \<Rightarrow> nat \<Rightarrow> 'n export_vars \<times> 'n world \<Rightarrow> 'n export_vars \<times> 'n world" where
  "export_batches env mongoProducts i st =
     (if i < length mongoProducts
      then export_batches env mongoProducts (i + export_BATCH_SIZE)
             (export_batch env mongoProducts i st)
      else st)"
  by pat_completeness auto
termination
  by (relation "measure (\<lambda>(env, mongoProducts, i, st). length mongoProducts - i)")
     (auto simp: export_BATCH_SIZE_def)

declare export_batches.simps [simp del]

text \<open>
  \<^verbatim>\<open>exportToJson\<close>. The result is \<open>Inr ()\<close> when the promise resolves and \<open>Inl e\<close>
  when it rejects with \<open>e\<close>. The key check comes before the \<^verbatim>\<open>try\<close>; everything
  after it is inside, so a failure there (of the extraction, of a transformation, of the
  write) is logged before it is thrown again.
\<close>

definition exportToJson :: "'n js_runtime \<Rightarrow> 'n environment \<Rightarrow> 'n world \<Rightarrow> (js_error + unit) \<times> 'n world" where
  "exportToJson rt env w =
     (if \<not> env_set (GOOGLE_API_KEY env)
      then (Inl (Error ''GOOGLE_API_KEY environment variable is required''), w)
      else (case sqlite_rows env of
              Inl e \<Rightarrow> (Inl e, log ExportFailed w)
            | Inr sqliteProducts \<Rightarrow>
                if length sqliteProducts = 0 then (Inr (), log NoProductsFound w)
                else (case map_throwing (transformProduct rt) sqliteProducts of
                        Inl e \<Rightarrow> (Inl e, log ExportFailed w)
                      | Inr mongoProducts \<Rightarrow>
                          (let w1 = log (Transformed (length mongoProducts)) w
                           in (case model_fault env of
                                 Some e \<Rightarrow> (Inl e, log ExportFailed w1)
                               | None \<Rightarrow>
                                   (let st = export_batches env mongoProducts 0
                                               (\<lparr>productsWithEmbeddings = [], successCount = 0,
                                                 failCount = 0\<rparr>, w1);
                                        vars = fst st;
                                        w2 = snd st
                                    in (case write_fault env of
                                          Some e \<Rightarrow> (Inl e, log ExportFailed w2)
                                        | None \<Rightarrow>
                                            (let w3 = log Exported
                                                        (w2\<lparr>file_writes := file_writes w2 @
                                                               [productsWithEmbeddings vars]\<rparr>)
                                             in (case stat_fault env of
                                                   Some e \<Rightarrow> (Inl e, log ExportFailed w3)
                                                 | None \<Rightarrow>
                                                     (Inr (),
                                                      log (ExportSummary (successCount vars)
                                                             (failCount vars)) w3))))))))))"

section \<open>The migration script\<close>

text \<open>\<^verbatim>\<open>generateEmbeddingsForBatch\<close>: the loop body, then the loop over the batch,
  starting from an empty \<^verbatim>\<open>productsWithEmbeddings\<close> (here \<open>collected\<close>).\<close>

definition embed_step ::
  "'n environment \<Rightarrow> 'n MongoProduct list \<times> 'n world \<Rightarrow> 'n MongoProduct \<Rightarrow> 'n MongoProduct list \<times> 'n world" where
  "embed_step env st product =
     (case st of (collected, w) \<Rightarrow>
        (case embed_with_retry env (embedding_text product) w of
           (Inr emb, w1) \<Rightarrow>
             (collected @ [product\<lparr>embedding := Some emb\<rparr>],
              log (EmbeddingGenerated (sku product)) w1)
         | (Inl error, w1) \<Rightarrow>
             (collected, log (EmbeddingFailed (sku product) (error_message error)) w1)))"

definition generateEmbeddingsForBatch ::
  "'n environment \<Rightarrow> 'n MongoProduct list \<Rightarrow> 'n world \<Rightarrow> 'n MongoProduct list \<times> 'n world" where
  "generateEmbeddingsForBatch env products w = foldl (embed_step env) ([], w) products"

text \<open>\<^verbatim>\<open>ensureVectorSearchIndex\<close>: every failure inside is caught and logged.\<close>

definition ensureVectorSearchIndex :: "'n environment \<Rightarrow> 'n world \<Rightarrow> 'n world" where
  "ensureVectorSearchIndex env w =
     (case list_indexes_fault env of
        Some e \<Rightarrow> log IndexError w
      | None \<Rightarrow>
          if js ''vector_index'' \<in> set (search_indexes w) then log IndexExists w
          else (case create_index_fault env of
                  Some e \<Rightarrow> log IndexError w
                | None \<Rightarrow>
                    log IndexCreated
                      (w\<lparr>search_indexes := search_indexes w @ [js ''vector_index'']\<rparr>)))"

text \<open>\<^verbatim>\<open>insertProductsToMongo\<close>: the loop body, then the loop, starting from
  \<^verbatim>\<open>success = 0\<close> and \<^verbatim>\<open>failed = 0\<close>.\<close>

record insert_result =
  success :: nat
  failed :: nat

definition insert_step ::
  "'n environment \<Rightarrow> insert_result \<times> 'n world \<Rightarrow> 'n MongoProduct \<Rightarrow> insert_result \<times> 'n world" where
  "insert_step env st product =
     (case st of (res, w) \<Rightarrow>
        (case insert_fault env (insert_calls w) (items w) product of
           None \<Rightarrow>
             (res\<lparr>success := success res + 1\<rparr>,
              log (Inserted (sku product))
                (w\<lparr>items := items w @ [product], insert_calls := insert_calls w + 1\<rparr>))
         | Some error \<Rightarrow>
             (res\<lparr>failed := failed res + 1\<rparr>,
              (if code error = Some 11000
               then log (DuplicateSkipped (sku product))
               else log (InsertFailed (sku product) (message error)))
                (w\<lparr>insert_calls := insert_calls w + 1\<rparr>))))"

definition insertProductsToMongo ::
  "'n environment \<Rightarrow> 'n MongoProduct list \<Rightarrow> 'n world \<Rightarrow> insert_result \<times> 'n world" where
  "insertProductsToMongo env products w =
     foldl (insert_step env) (\<lparr>success = 0, failed = 0\<rparr>, w) products"

text \<open>\<^verbatim>\<open>verifyMigration\<close> reads the collection and reports; the sample document it
  prints is left out.\<close>

definition verifyMigration :: "'n environment \<Rightarrow> 'n world \<Rightarrow> (js_error + unit) \<times> 'n world" where
  "verifyMigration env w =
     (case verify_fault env of
        Some e \<Rightarrow> (Inl e, w)
      | None \<Rightarrow>
          (let totalCount = length (items w);
               withEmbeddings = length (filter (\<lambda>d. embedding d \<noteq> None) (items w))
           in (Inr (), log (Verification totalCount withEmbeddings) w)))"

record migrate_vars =
  totalSuccess :: nat
  totalFailed :: nat

definition migrate_BATCH_SIZE :: nat where
  "migrate_BATCH_SIZE = 50"

definition migrate_BATCH_DELAY :: nat where
  "migrate_BATCH_DELAY = 2000"

definition migrate_pause :: "nat \<Rightarrow> nat \<Rightarrow> 'n world \<Rightarrow> 'n world" where
  "migrate_pause i n_products w =
     (if i + migrate_BATCH_SIZE < n_products
      then setTimeout migrate_BATCH_DELAY (log WaitingBeforeNextBatch w)
      else w)"

text \<open>The body of the batch loop of \<^verbatim>\<open>migrate\<close>: embed the batch, insert what came
  back, add the counts, pause.\<close>

definition migrate_batch ::
  "'n environment \<Rightarrow> 'n MongoProduct list \<Rightarrow> nat \<Rightarrow> migrate_vars \<times> 'n world \<Rightarrow> migrate_vars \<times> 'n world" where
  "migrate_batch env mongoProducts i st =
     (case st of (vars, w) \<Rightarrow>
        (let batch = take migrate_BATCH_SIZE (drop i mongoProducts);
             embedded = generateEmbeddingsForBatch env batch w;
             inserted = insertProductsToMongo env (fst embedded) (snd embedded);
             result = fst inserted
         in (vars\<lparr>totalSuccess := totalSuccess vars + success result,
                  totalFailed := totalFailed vars + failed result\<rparr>,
             migrate_pause i (length mongoProducts) (snd inserted))))"

function migrate_batches ::
  "'n environment \<Rightarrow> 'n MongoProduct list \<Rightarrow> nat \<Rightarrow> migrate_vars \<times> 'n world \<Rightarrow> migrate_vars \<times> 'n world" where
  "migrate_batches env mongoProducts i st =
     (if i < length mongoProducts
      then migrate_batches env mongoProducts (i + migrate_BATCH_SIZE)
             (migrate_batch env mongoProducts i st)
      else st)"
  by pat_completeness auto
termination
  by (relation "measure (\<lambda>(env, mongoProducts, i, st). length mongoProducts - i)")
     (auto simp: migrate_BATCH_SIZE_def)

declare migrate_batches.simps [simp del]

text \<open>
  \<^verbatim>\<open>migrate\<close>. The two checks of the environment variables come before the
  \<^verbatim>\<open>try\<close>. Inside it, every failure is logged and thrown again, and the
  \<^verbatim>\<open>finally\<close> block closes the connection once the client exists, which is after
  the extraction and the transformation; \<open>closing\<close> is that block, and a failing
  \<^verbatim>\<open>close\<close> replaces the outcome of the run.
\<close>

definition closing ::
  "'n environment \<Rightarrow> js_error + unit \<Rightarrow> 'n world \<Rightarrow> (js_error + unit) \<times> 'n world" where
  "closing env result w =
     (case close_fault env of
        Some e \<Rightarrow> (Inl e, w)
      | None \<Rightarrow> (result, log ConnectionClosed w))"

definition migrate :: "'n js_runtime \<Rightarrow> 'n environment \<Rightarrow> 'n world \<Rightarrow> (js_error + unit) \<times> 'n world" where
  "migrate rt env w =
     (if \<not> env_set (MONGODB_ATLAS_URI env)
      then (Inl (Error ''MONGODB_ATLAS_URI environment variable is required''), w)
      else if \<not> env_set (GOOGLE_API_KEY env)
      then (Inl (Error ''GOOGLE_API_KEY environment variable is required''), w)
      else (case sqlite_rows env of
         Inl e \<Rightarrow> (Inl e, log MigrationFailed w)
       | Inr sqliteProducts \<Rightarrow>
           if length sqliteProducts = 0 then (Inr (), log NoProductsFound w)
           else (case map_throwing (transformProductToMongoSchema rt) sqliteProducts of
              Inl e \<Rightarrow> (Inl e, log MigrationFailed w)
            | Inr mongoProducts \<Rightarrow>
                (let w1 = log (Transformed (length mongoProducts)) w
                 in (case client_fault env of
                    Some e \<Rightarrow> (Inl e, log MigrationFailed w1)
                  | None \<Rightarrow>
                      (case connect_fault env of
                         Some e \<Rightarrow> closing env (Inl e) (log MigrationFailed w1)
                       | None \<Rightarrow>
                           (let w2 = ensureVectorSearchIndex env w1
                            in (case delete_fault env of
                               Some e \<Rightarrow> closing env (Inl e) (log MigrationFailed w2)
                             | None \<Rightarrow>
                                 (let w3 = log (Deleted (length (items w2))) (w2\<lparr>items := []\<rparr>)
                                  in (case model_fault env of
                                     Some e \<Rightarrow> closing env (Inl e) (log MigrationFailed w3)
                                   | None \<Rightarrow>
                                       (let st = migrate_batches env mongoProducts 0
                                                   (\<lparr>totalSuccess = 0, totalFailed = 0\<rparr>, w3)
                                        in (case verifyMigration env (snd st) of
                                           (Inl e, w4) \<Rightarrow>
                                             closing env (Inl e) (log MigrationFailed w4)
                                         | (Inr u, w4) \<Rightarrow>
                                             closing env (Inr ())
                                               (log (MigrationSummary (totalSuccess (fst st))
                                                       (totalFailed (fst st))) w4)))))))))))))"

section \<open>Concrete inputs\<close>

text \<open>Errors and wrapped functions used to run the definitions on examples.\<close>

definition rate_limited :: js_error where
  "rate_limited = \<lparr>status = Some 429, code = None, message = js ''Too Many Requests''\<rparr>"

definition bad_request :: js_error where
  "bad_request = \<lparr>status = Some 400, code = None, message = js ''Bad Request''\<rparr>"

definition fails_twice :: "nat \<Rightarrow> js_error + nat" where
  "fails_twice k = (if k < 2 then Inl rate_limited else Inr 7)"

definition always_rejected :: "nat \<Rightarrow> js_error + nat" where
  "always_rejected k = Inl bad_request"

definition always_limited :: "nat \<Rightarrow> js_error + nat" where
  "always_limited k = Inl rate_limited"

definition limited_then_rejected :: "nat \<Rightarrow> js_error + nat" where
  "limited_then_rejected k = (if k = 0 then Inl rate_limited else Inl bad_request)"

text \<open>A runtime whose numbers are kept as the text of their literal, and product rows:
  one with a JSON array of tags, one with comma-separated tags, one whose title begins
  with a space and that has no search content.\<close>

definition literal_runtime :: "js_string js_runtime" where
  "literal_runtime = \<lparr>number_of_literal = (\<lambda>s. s), Number_toString = (\<lambda>n. n)\<rparr>"

definition mug :: "js_string SQLiteProduct" where
  \<open>mug = \<lparr>SQLiteProduct.sku = js ''SKU-1'', handle = js ''blue-mug'', title = js ''Blue Mug'',
           description = Some (js ''Ceramic mug''), vendor = js ''Acme'', price = js ''20'',
           currency = js ''USD'', image_url = js ''https://shop.test/mug.png'',
           product_url = js ''https://shop.test/mug'', tags = Some (js ''["a", "b"]''),
           search_content = Some (js ''hand made'')\<rparr>\<close>

definition comma_mug :: "js_string SQLiteProduct" where
  "comma_mug = mug\<lparr>SQLiteProduct.tags := Some (js ''a, b ,'')\<rparr>"

definition padded_mug :: "js_string SQLiteProduct" where
  "padded_mug = mug\<lparr>SQLiteProduct.title := js '' Blue Mug'', SQLiteProduct.search_content := None\<rparr>"

text \<open>Tags fields: an array with an untrimmed and an empty string; an object with a
  member named \<^verbatim>\<open>toString\<close>; an array holding such an object; an array holding a
  string written with the escape \<^verbatim>\<open>\u0100\<close>.\<close>

definition untrimmed_tags :: js_string where
  \<open>untrimmed_tags = js ''[" a ", ""]''\<close>

definition toString_object :: js_string where
  \<open>toString_object = js ''{"toString": 1}''\<close>

definition toString_in_array :: js_string where
  \<open>toString_in_array = js ''[{"toString": 1}]''\<close>

definition escaped_tags :: js_string where
  \<open>escaped_tags = js ''["'' @ [0x5C] @ js ''u0100"]''\<close>

text \<open>
  Three rows and a provider that rejects the text of the second one, with status 400,
  and answers every other text; nothing else fails.
\<close>

definition row :: "string \<Rightarrow> string \<Rightarrow> js_string SQLiteProduct" where
  "row k t = \<lparr>SQLiteProduct.sku = js k, handle = js k, title = js t, description = None,
              vendor = js ''Acme'', price = js ''20'', currency = js ''USD'', image_url = [],
              product_url = [], tags = None, search_content = None\<rparr>"

definition three_rows :: "js_string SQLiteProduct list" where
  "three_rows = [row ''A'' ''Mug'', row ''B'' ''Cup'', row ''C'' ''Jar'']"

definition unit_vector :: "js_string list" where
  "unit_vector = replicate 768 (js ''0'')"

definition scenario_env :: "js_string environment" where
  "scenario_env =
     \<lparr>GOOGLE_API_KEY = Some (js ''key''),
      MONGODB_ATLAS_URI = Some (js ''mongodb+srv://cluster.test''),
      sqlite_rows = Inr three_rows,
      embedQuery = (\<lambda>k text. if text = js ''Cup  from Acme. Price: 20 USD. .''
                               then Inl bad_request else Inr unit_vector),
      model_fault = None, write_fault = None, stat_fault = None, client_fault = None,
      connect_fault = None, list_indexes_fault = None,
      create_index_fault = None, delete_fault = None,
      insert_fault = (\<lambda>k held d. None), verify_fault = None, close_fault = None\<rparr>"

definition doc :: "string \<Rightarrow> string \<Rightarrow> js_string MongoProduct" where
  "doc k t = \<lparr>sku = js k, handle = js k, title = js t, description = [], vendor = js ''Acme'',
              price = js ''20'', currency = js ''USD'', image_url = [], product_url = [],
              tags = [], search_content = [],
              embedding_text = js t @ js ''  from Acme. Price: 20 USD. .'', embedding = None\<rparr>"

definition empty_env :: "js_string environment" where
  "empty_env = scenario_env\<lparr>sqlite_rows := Inr []\<rparr>"

text \<open>The same surroundings with one row, whose tags field is the array holding an
  object with a member named \<^verbatim>\<open>toString\<close>.\<close>

definition unprintable_row :: "js_string SQLiteProduct" where
  "unprintable_row = (row ''A'' ''Mug'')\<lparr>SQLiteProduct.tags := Some toString_in_array\<rparr>"

definition unprintable_env :: "js_string environment" where
  "unprintable_env = scenario_env\<lparr>sqlite_rows := Inr [unprintable_row]\<rparr>"

text \<open>
  A document left by an earlier run; a store with a unique index on \<^verbatim>\<open>sku\<close>, which
  refuses a second document with the same sku with error code 11000; a store whose second
  insert fails for another reason; three documents of which two have the same sku.
\<close>

definition stale :: "js_string MongoProduct" where
  "stale = (doc ''OLD'' ''Lamp'')\<lparr>embedding := Some unit_vector\<rparr>"

definition duplicate_key :: js_error where
  "duplicate_key =
     \<lparr>status = None, code = Some 11000, message = js ''E11000 duplicate key error''\<rparr>"

definition connection_reset :: js_error where
  "connection_reset = \<lparr>status = None, code = None, message = js ''connection reset''\<rparr>"

definition unique_sku_env :: "js_string environment" where
  "unique_sku_env = scenario_env
     \<lparr>insert_fault := (\<lambda>k held d. if sku d \<in> set (map sku held) then Some duplicate_key else None)\<rparr>"

definition flaky_store_env :: "js_string environment" where
  "flaky_store_env = scenario_env
     \<lparr>insert_fault := (\<lambda>k held d. if k = 1 then Some connection_reset else None)\<rparr>"

definition two_mugs_and_a_jar :: "js_string MongoProduct list" where
  "two_mugs_and_a_jar = [doc ''A'' ''Mug'', doc ''A'' ''Big Mug'', doc ''C'' ''Jar'']"

definition untrimmed_mug :: "js_string SQLiteProduct" where
  "untrimmed_mug = mug\<lparr>SQLiteProduct.tags := Some untrimmed_tags\<rparr>"

definition toString_mug :: "js_string SQLiteProduct" where
  "toString_mug = mug\<lparr>SQLiteProduct.tags := Some toString_object\<rparr>"

definition escaped_mug :: "js_string SQLiteProduct" where
  "escaped_mug = mug\<lparr>SQLiteProduct.tags := Some escaped_tags\<rparr>"

section \<open>Notions used to state the properties\<close>

text \<open>A normalized tag is a string that is not empty and has no white space at either
  end.\<close>

definition normalized_tag :: "'n json \<Rightarrow> bool" where
  "normalized_tag v =
     (case v of
        JStr s \<Rightarrow> s \<noteq> [] \<and> \<not> js_whitespace (hd s) \<and> \<not> js_whitespace (last s)
      | _ \<Rightarrow> False)"

text \<open>
  The embedding text as the specification words it. \<open>t\<close> is \<open>s\<close> trimmed when
  \<open>s\<close> is \<open>t\<close> between two runs of white space and \<open>t\<close> neither begins nor ends
  with white space. \<open>joined_with sep xs\<close> is the strings \<open>xs\<close> with \<open>sep\<close> between
  each two. \<open>untrimmed_text\<close> is the four parts joined with \<^verbatim>\<open>". "\<close>: the title, the
  description, the word \<^verbatim>\<open>from\<close> and the vendor, separated by single spaces; the price
  and the currency; the tags, joined with a comma and a space, when there are any; the
  search content. Its last argument is the texts of the tags.
\<close>

text \<open>
  A JSON value is unprintable when it is an object with a member named \<^verbatim>\<open>toString\<close>
  or an array that holds an unprintable value. \<open>printed_tags\<close> is the text of each
  tag as \<^verbatim>\<open>join\<close> prints it, when all can be printed.
\<close>

fun unprintable :: "'n json \<Rightarrow> bool" where
  "unprintable (JObj ms) \<longleftrightarrow> js ''toString'' \<in> set (map fst ms)"
| "unprintable (JArr xs) \<longleftrightarrow> (\<exists>x \<in> set xs. unprintable x)"
| "unprintable v \<longleftrightarrow> False"

definition printed_tags :: "'n js_runtime \<Rightarrow> 'n json list \<Rightarrow> js_string list option" where
  "printed_tags rt tgs = those (map (element_text rt) tgs)"

definition trimmed_of :: "js_string \<Rightarrow> js_string \<Rightarrow> bool" where
  "trimmed_of s t \<longleftrightarrow>
     (\<exists>before after. s = before @ t @ after
        \<and> list_all js_whitespace before \<and> list_all js_whitespace after)
     \<and> (t \<noteq> [] \<longrightarrow> \<not> js_whitespace (hd t) \<and> \<not> js_whitespace (last t))"

definition joined_with :: "js_string \<Rightarrow> js_string list \<Rightarrow> js_string" where
  "joined_with sep xs = drop (length sep) (concat (map (\<lambda>x. sep @ x) xs))"

definition untrimmed_text :: "'n js_runtime \<Rightarrow> 'n SQLiteProduct \<Rightarrow> js_string list \<Rightarrow> js_string" where
  "untrimmed_text rt p tag_texts =
     joined_with (js ''. '')
       [joined_with (js '' '')
          [SQLiteProduct.title p, or_empty (SQLiteProduct.description p), js ''from'',
           SQLiteProduct.vendor p],
        js ''Price: '' @ Number_toString rt (SQLiteProduct.price p) @ js '' '' @
          SQLiteProduct.currency p,
        (if tag_texts = [] then [] else js ''Tags: '' @ joined_with (js '', '') tag_texts),
        or_empty (SQLiteProduct.search_content p)]"

text \<open>
  The outcomes of the embedding calls of a run: \<open>embed_all env texts n\<close> is the list
  of what \<^verbatim>\<open>retryWithBackoff\<close> gives for each text in turn, when \<open>n\<close> calls have been
  made to the provider before the first; \<open>calls_after\<close> is the number of calls made
  once all texts are done. \<open>attach\<close> adds the embedding to a product when there is one.
\<close>

fun embed_all :: "'n environment \<Rightarrow> js_string list \<Rightarrow> nat \<Rightarrow> (retry_error + 'n list) list" where
  "embed_all env [] n = []"
| "embed_all env (t # ts) n =
     (case retryWithBackoff (\<lambda>k. embedQuery env k t) 3 n of
        (r, n', waited) \<Rightarrow> r # embed_all env ts n')"

fun calls_after :: "'n environment \<Rightarrow> js_string list \<Rightarrow> nat \<Rightarrow> nat" where
  "calls_after env [] n = n"
| "calls_after env (t # ts) n =
     (case retryWithBackoff (\<lambda>k. embedQuery env k t) 3 n of
        (r, n', waited) \<Rightarrow> calls_after env ts n')"

definition succeeded :: "retry_error + 'a \<Rightarrow> bool" where
  "succeeded r = (case r of Inr v \<Rightarrow> True | Inl e \<Rightarrow> False)"

definition attach :: "'n MongoProduct \<Rightarrow> retry_error + 'n list \<Rightarrow> 'n MongoProduct" where
  "attach p r = (case r of Inr emb \<Rightarrow> p\<lparr>embedding := Some emb\<rparr> | Inl e \<Rightarrow> p)"

text \<open>
  The outcomes of the inserts of a list of documents: \<open>insert_faults env ps k held\<close>
  is, for each document in turn, the error of its \<^verbatim>\<open>insertOne\<close> or \<open>None\<close> when the
  store accepted it, when \<open>k\<close> inserts were made before and the collection holds
  \<open>held\<close>. A duplicate is an error with code 11000, a hard failure any other error.
  \<open>insert_line\<close> is the console line of an insert, and \<open>accepted\<close> keeps the
  documents the store accepted.
\<close>

fun insert_faults ::
  "'n environment \<Rightarrow> 'n MongoProduct list \<Rightarrow> nat \<Rightarrow> 'n MongoProduct list \<Rightarrow> js_error option list" where
  "insert_faults env [] k held = []"
| "insert_faults env (p # ps) k held =
     (case insert_fault env k held p of
        None \<Rightarrow> None # insert_faults env ps (Suc k) (held @ [p])
      | Some e \<Rightarrow> Some e # insert_faults env ps (Suc k) held)"

definition is_duplicate :: "js_error option \<Rightarrow> bool" where
  "is_duplicate f = (case f of None \<Rightarrow> False | Some e \<Rightarrow> code e = Some 11000)"

definition is_hard_failure :: "js_error option \<Rightarrow> bool" where
  "is_hard_failure f = (case f of None \<Rightarrow> False | Some e \<Rightarrow> code e \<noteq> Some 11000)"

definition insert_line :: "'n MongoProduct \<Rightarrow> js_error option \<Rightarrow> log_line" where
  "insert_line p f =
     (case f of
        None \<Rightarrow> Inserted (sku p)
      | Some e \<Rightarrow> if code e = Some 11000 then DuplicateSkipped (sku p)
                  else InsertFailed (sku p) (message e))"

definition accepted :: "'n MongoProduct list \<Rightarrow> js_error option list \<Rightarrow> 'n MongoProduct list" where
  "accepted ps fs = map fst (filter (\<lambda>(p, f). f = None) (zip ps fs))"

text \<open>
  \<open>embedded ps rs\<close> keeps the products whose embedding call succeeded, with their
  embedding. A document is from a run over the products \<open>ps\<close> when it is one of them
  with an embedding added. Two worlds agree when they have seen the same numbers of calls
  and hold the same documents. \<open>purged\<close> is the world of \<^verbatim>\<open>migrate\<close> after the index
  check and the \<^verbatim>\<open>deleteMany\<close>.
\<close>

definition embedded :: "'n MongoProduct list \<Rightarrow> (retry_error + 'n list) list \<Rightarrow> 'n MongoProduct list" where
  "embedded ps rs =
     concat (map2 (\<lambda>p r. case r of Inr emb \<Rightarrow> [p\<lparr>embedding := Some emb\<rparr>] | Inl e \<Rightarrow> []) ps rs)"

definition from_run :: "'n MongoProduct list \<Rightarrow> 'n MongoProduct \<Rightarrow> bool" where
  "from_run ps d \<longleftrightarrow> (\<exists>p \<in> set ps. \<exists>emb. d = p\<lparr>embedding := Some emb\<rparr>)"

definition agree :: "'n world \<Rightarrow> 'n world \<Rightarrow> bool" where
  "agree w w' \<longleftrightarrow>
     embed_calls w = embed_calls w' \<and> insert_calls w = insert_calls w' \<and> items w = items w'"

definition purged :: "'n environment \<Rightarrow> nat \<Rightarrow> 'n world \<Rightarrow> 'n world" where
  "purged env n w =
     (let w2 = ensureVectorSearchIndex env (log (Transformed n) w)
      in log (Deleted (length (items w2))) (w2\<lparr>items := []\<rparr>))"

section \<open>Properties of the retry loop\<close>

lemma retry_loop_past:
  "\<not> a \<le> m \<Longrightarrow> retry_loop fn m a n ws = (Inl MaxRetriesExceeded, n, ws)"
  by (simp add: retry_loop.simps)

lemma retry_loop_calls:
  "retry_loop fn m a n ws = (r, n', ws') \<Longrightarrow> a \<le> m \<Longrightarrow> n < n' \<and> n' - n \<le> Suc m - a"
proof (induction fn m a n ws arbitrary: r n' ws' rule: retry_loop.induct)
  case (1 fn m a n ws)
  show ?case
  proof (cases "fn n")
    case (Inr v)
    with "1.prems" show ?thesis by (auto simp add: retry_loop.simps [of fn m a])
  next
    case (Inl e)
    show ?thesis
    proof (cases "status e = Some 429 \<and> a < m")
      case True
      with Inl "1.prems" have rec: "retry_loop fn m (a + 1) (Suc n) (ws @ [min (1000 * 2 ^ a) 30000]) = (r, n', ws')"
        by (simp add: retry_loop.simps [of fn m a])
      from True have "a + 1 \<le> m" by simp
      from "1.IH" [OF "1.prems"(2) Inl True rec this] True show ?thesis by arith
    next
      case False
      with Inl "1.prems" show ?thesis by (auto simp add: retry_loop.simps [of fn m a])
    qed
  qed
qed

lemma retry_loop_last:
  "retry_loop fn m a n ws = (r, n', ws') \<Longrightarrow> a \<le> m \<Longrightarrow>
     r = (case fn (n' - 1) of Inr v \<Rightarrow> Inr v | Inl e \<Rightarrow> Inl (Thrown e))"
proof (induction fn m a n ws arbitrary: r n' ws' rule: retry_loop.induct)
  case (1 fn m a n ws)
  show ?case
  proof (cases "fn n")
    case (Inr v)
    with "1.prems" show ?thesis by (auto simp add: retry_loop.simps [of fn m a])
  next
    case (Inl e)
    show ?thesis
    proof (cases "status e = Some 429 \<and> a < m")
      case True
      with Inl "1.prems" have rec: "retry_loop fn m (a + 1) (Suc n) (ws @ [min (1000 * 2 ^ a) 30000]) = (r, n', ws')"
        by (simp add: retry_loop.simps [of fn m a])
      from "1.IH" [OF "1.prems"(2) Inl True rec] True show ?thesis by simp
    next
      case False
      with Inl "1.prems" show ?thesis by (auto simp add: retry_loop.simps [of fn m a])
    qed
  qed
qed

lemma retry_loop_retried:
  "retry_loop fn m a n ws = (r, n', ws') \<Longrightarrow> n \<le> k \<Longrightarrow> Suc k < n' \<Longrightarrow>
     (\<exists>e. fn k = Inl e \<and> status e = Some 429)"
proof (induction fn m a n ws arbitrary: r n' ws' rule: retry_loop.induct)
  case (1 fn m a n ws)
  show ?case
  proof (cases "a \<le> m")
    case False
    with "1.prems" show ?thesis by (simp add: retry_loop.simps [of fn m a])
  next
    case am: True
    show ?thesis
    proof (cases "fn n")
      case (Inr v)
      with am "1.prems" show ?thesis by (auto simp add: retry_loop.simps [of fn m a])
    next
      case (Inl e)
      show ?thesis
      proof (cases "status e = Some 429 \<and> a < m")
        case True
        with am Inl "1.prems" have rec: "retry_loop fn m (a + 1) (Suc n) (ws @ [min (1000 * 2 ^ a) 30000]) = (r, n', ws')"
          by (simp add: retry_loop.simps [of fn m a])
        show ?thesis
        proof (cases "k = n")
          case True
          with Inl \<open>status e = Some 429 \<and> a < m\<close> show ?thesis by simp
        next
          case False
          with "1.prems" have "Suc n \<le> k" by simp
          from "1.IH" [OF am Inl True rec this "1.prems"(3)] show ?thesis .
        qed
      next
        case False
        with am Inl "1.prems" show ?thesis by (auto simp add: retry_loop.simps [of fn m a])
      qed
    qed
  qed
qed

lemma retry_loop_delays:
  "retry_loop fn m a n ws = (r, n', ws') \<Longrightarrow>
     ws' = ws @ map (\<lambda>k. min (1000 * 2 ^ k) 30000) [a ..< a + (n' - n) - 1]"
proof (induction fn m a n ws arbitrary: r n' ws' rule: retry_loop.induct)
  case (1 fn m a n ws)
  show ?case
  proof (cases "a \<le> m")
    case False
    with "1.prems" show ?thesis by (simp add: retry_loop.simps [of fn m a])
  next
    case am: True
    show ?thesis
    proof (cases "fn n")
      case (Inr v)
      with am "1.prems" show ?thesis by (auto simp add: retry_loop.simps [of fn m a])
    next
      case (Inl e)
      show ?thesis
      proof (cases "status e = Some 429 \<and> a < m")
        case True
        with am Inl "1.prems" have rec: "retry_loop fn m (a + 1) (Suc n) (ws @ [min (1000 * 2 ^ a) 30000]) = (r, n', ws')"
          by (simp add: retry_loop.simps [of fn m a])
        from True have a1: "a + 1 \<le> m" by simp
        from retry_loop_calls [OF rec a1] have lt: "Suc n < n'" by simp
        have "[a ..< a + (n' - n) - 1] = a # [a + 1 ..< a + 1 + (n' - Suc n) - 1]"
          using lt by (simp add: upt_conv_Cons)
        with "1.IH" [OF am Inl True rec] show ?thesis by simp
      next
        case False
        with am Inl "1.prems" show ?thesis by (auto simp add: retry_loop.simps [of fn m a])
      qed
    qed
  qed
qed

lemma retry_loop_exhausted:
  "retry_loop fn m a n ws = (Inl (Thrown e), n', ws') \<Longrightarrow> status e = Some 429 \<Longrightarrow> a \<le> m \<Longrightarrow>
     n' - n = Suc m - a"
proof (induction fn m a n ws arbitrary: n' ws' rule: retry_loop.induct)
  case (1 fn m a n ws)
  show ?case
  proof (cases "fn n")
    case (Inr v)
    with "1.prems" show ?thesis by (auto simp add: retry_loop.simps [of fn m a])
  next
    case (Inl x)
    show ?thesis
    proof (cases "status x = Some 429 \<and> a < m")
      case True
      with Inl "1.prems" have rec: "retry_loop fn m (a + 1) (Suc n) (ws @ [min (1000 * 2 ^ a) 30000]) = (Inl (Thrown e), n', ws')"
        by (simp add: retry_loop.simps [of fn m a])
      from True have a1: "a + 1 \<le> m" by simp
      from retry_loop_calls [OF rec a1] have "Suc n < n'" by simp
      with "1.IH" [OF "1.prems"(3) Inl True rec "1.prems"(2) a1] True show ?thesis by arith
    next
      case False
      with Inl "1.prems" show ?thesis by (auto simp add: retry_loop.simps [of fn m a])
    qed
  qed
qed

lemma fails_twice_run: "retryWithBackoff fails_twice 3 0 = (Inr 7, 3, [2000, 4000])"
  by (simp add: retryWithBackoff_def retry_loop.simps fails_twice_def rate_limited_def)

lemma always_rejected_run:
  "retryWithBackoff always_rejected 3 0 = (Inl (Thrown bad_request), 1, [])"
  by (simp add: retryWithBackoff_def retry_loop.simps always_rejected_def bad_request_def)

lemma always_limited_run:
  "retryWithBackoff always_limited 3 0 = (Inl (Thrown rate_limited), 3, [2000, 4000])"
  by (simp add: retryWithBackoff_def retry_loop.simps always_limited_def rate_limited_def)

text \<open>
  Claim C9. With \<open>maxRetries \<ge> 1\<close>, \<^verbatim>\<open>retryWithBackoff\<close> calls \<^verbatim>\<open>fn\<close> at least
  once, and what it returns or throws is what the last call of \<^verbatim>\<open>fn\<close> returned or
  threw; the error \<^verbatim>\<open>Max retries exceeded\<close> after the loop is never reached.
\<close>

theorem retryWithBackoff_result_from_fn:
  assumes "1 \<le> maxRetries" and "retryWithBackoff fn maxRetries n = (r, n', waited)"
  shows "n < n' \<and> r = (case fn (n' - 1) of Inr v \<Rightarrow> Inr v | Inl e \<Rightarrow> Inl (Thrown e))
         \<and> r \<noteq> Inl MaxRetriesExceeded"
proof -
  from assms(2) have run: "retry_loop fn maxRetries 1 n [] = (r, n', waited)"
    by (simp add: retryWithBackoff_def)
  from retry_loop_calls [OF run assms(1)] have lt: "n < n'" by simp
  from retry_loop_last [OF run assms(1)]
  have last: "r = (case fn (n' - 1) of Inr v \<Rightarrow> Inr v | Inl e \<Rightarrow> Inl (Thrown e))" .
  then have "r \<noteq> Inl MaxRetriesExceeded" by (simp split: sum.splits)
  with lt last show ?thesis by simp
qed

theorem retryWithBackoff_result_from_fn_witness:
  "(1::nat) \<le> 3 \<and> retryWithBackoff fails_twice 3 0 = (Inr 7, 3, [2000, 4000])
   \<and> (0::nat) < 3
   \<and> Inr 7 = (case fails_twice (3 - 1) of Inr v \<Rightarrow> Inr v | Inl e \<Rightarrow> Inl (Thrown e))
   \<and> (Inr 7 :: retry_error + nat) \<noteq> Inl MaxRetriesExceeded"
  using retryWithBackoff_result_from_fn [of 3 fails_twice 0 "Inr 7" 3 "[2000, 4000]"]
    fails_twice_run
  by (simp add: fails_twice_def)

lemma limited_then_rejected_run:
  "retryWithBackoff limited_then_rejected 3 0 = (Inl (Thrown bad_request), 2, [2000])"
  by (simp add: retryWithBackoff_def retry_loop.simps limited_then_rejected_def
        rate_limited_def bad_request_def)

text \<open>
  Claim C4. Let a call of \<^verbatim>\<open>retryWithBackoff\<close> start when \<open>n\<close> calls of \<^verbatim>\<open>fn\<close>
  have been made and end when \<open>n'\<close> have been made, having waited the delays
  \<open>waited\<close>. Then: the delay after the \<open>k\<close>-th attempt (counted from 1) is
  \<open>min (1000 * 2 ^ k) 30000\<close> milliseconds, and there is one delay per retry and none
  after the last attempt; every attempt that was followed by a retry failed with status
  429; at most \<open>maxRetries\<close> attempts are made; when at least one attempt is allowed,
  the outcome is the outcome of the last attempt made: its value, or its error thrown
  again; a rate-limit error is thrown only when all attempts are used; with no attempt
  allowed, \<^verbatim>\<open>fn\<close> is not called; an error with another status on the first attempt
  is thrown at once, after one call and no delay; and a function that fails with status
  429 twice and then succeeds gives its value after two retries, with delays of 2 s and
  4 s, which is at least 1 s + 2 s (this needs three attempts, the default).
  Together these fix the outcome, the number of attempts and the delays of every call.
\<close>

theorem retryWithBackoff_policy:
  assumes "retryWithBackoff fn maxRetries n = (r, n', waited)"
  shows "waited = map (\<lambda>k. min (1000 * 2 ^ k) 30000) [1 ..< n' - n]
       \<and> (\<forall>k. n \<le> k \<and> Suc k < n' \<longrightarrow> (\<exists>e. fn k = Inl e \<and> status e = Some 429))
       \<and> n' - n \<le> maxRetries
       \<and> (1 \<le> maxRetries \<longrightarrow>
            n < n' \<and> r = (case fn (n' - 1) of Inr v \<Rightarrow> Inr v | Inl e \<Rightarrow> Inl (Thrown e)))
       \<and> (maxRetries = 0 \<longrightarrow> n' = n \<and> waited = [] \<and> r = Inl MaxRetriesExceeded)
       \<and> (\<forall>e. r = Inl (Thrown e) \<and> status e = Some 429 \<longrightarrow> n' - n = maxRetries)
       \<and> (\<forall>e. 1 \<le> maxRetries \<and> fn n = Inl e \<and> status e \<noteq> Some 429 \<longrightarrow>
            r = Inl (Thrown e) \<and> n' = Suc n \<and> waited = [])
       \<and> (\<forall>e1 e2 v. 3 \<le> maxRetries \<and> fn n = Inl e1 \<and> status e1 = Some 429
            \<and> fn (Suc n) = Inl e2 \<and> status e2 = Some 429 \<and> fn (Suc (Suc n)) = Inr v \<longrightarrow>
            r = Inr v \<and> n' = n + 3 \<and> waited = [2000, 4000]
            \<and> 1000 + 2 * 1000 \<le> sum_list waited)"
proof -
  from assms have run: "retry_loop fn maxRetries 1 n [] = (r, n', waited)"
    by (simp add: retryWithBackoff_def)
  have none: "maxRetries = 0 \<Longrightarrow> n' = n \<and> waited = [] \<and> r = Inl MaxRetriesExceeded"
    using run by (auto simp add: retry_loop.simps [of fn 0])
  have delays: "waited = map (\<lambda>k. min (1000 * 2 ^ k) 30000) [1 ..< n' - n]"
    using retry_loop_delays [OF run] by simp
  have retried: "\<forall>k. n \<le> k \<and> Suc k < n' \<longrightarrow> (\<exists>e. fn k = Inl e \<and> status e = Some 429)"
    using retry_loop_retried [OF run] by blast
  have bound: "n' - n \<le> maxRetries"
  proof (cases "maxRetries = 0")
    case True
    with none show ?thesis by simp
  next
    case False
    then have "1 \<le> maxRetries" by simp
    from retry_loop_calls [OF run this] show ?thesis by simp
  qed
  have exhausted: "\<forall>e. r = Inl (Thrown e) \<and> status e = Some 429 \<longrightarrow> n' - n = maxRetries"
  proof (intro allI impI)
    fix e assume a: "r = Inl (Thrown e) \<and> status e = Some 429"
    with none have "1 \<le> maxRetries" by (cases "maxRetries = 0") auto
    with a retry_loop_exhausted [of fn maxRetries 1 n "[]" e n' waited] run
    show "n' - n = maxRetries" by simp
  qed
  have other: "\<forall>e. 1 \<le> maxRetries \<and> fn n = Inl e \<and> status e \<noteq> Some 429 \<longrightarrow>
            r = Inl (Thrown e) \<and> n' = Suc n \<and> waited = []"
  proof (intro allI impI)
    fix e assume a: "1 \<le> maxRetries \<and> fn n = Inl e \<and> status e \<noteq> Some 429"
    then have "retry_loop fn maxRetries 1 n [] = (Inl (Thrown e), Suc n, [])"
      by (subst retry_loop.simps) simp
    with run show "r = Inl (Thrown e) \<and> n' = Suc n \<and> waited = []" by simp
  qed
  have twice: "\<forall>e1 e2 v. 3 \<le> maxRetries \<and> fn n = Inl e1 \<and> status e1 = Some 429
            \<and> fn (Suc n) = Inl e2 \<and> status e2 = Some 429 \<and> fn (Suc (Suc n)) = Inr v \<longrightarrow>
            r = Inr v \<and> n' = n + 3 \<and> waited = [2000, 4000]
            \<and> 1000 + 2 * 1000 \<le> sum_list waited"
  proof (intro allI impI)
    fix e1 e2 v
    assume a: "3 \<le> maxRetries \<and> fn n = Inl e1 \<and> status e1 = Some 429
            \<and> fn (Suc n) = Inl e2 \<and> status e2 = Some 429 \<and> fn (Suc (Suc n)) = Inr v"
    have s1: "retry_loop fn maxRetries 1 n [] = retry_loop fn maxRetries 2 (Suc n) [2000]"
      using a by (subst retry_loop.simps) (simp add: numeral_2_eq_2)
    have s2: "retry_loop fn maxRetries 2 (Suc n) [2000] =
              retry_loop fn maxRetries 3 (Suc (Suc n)) [2000, 4000]"
      using a by (subst retry_loop.simps) simp
    have s3: "retry_loop fn maxRetries 3 (Suc (Suc n)) [2000, 4000] =
              (Inr v, Suc (Suc (Suc n)), [2000, 4000])"
      using a by (subst retry_loop.simps) simp
    from run s1 s2 s3 have "(r, n', waited) = (Inr v, Suc (Suc (Suc n)), [2000, 4000])"
      by simp
    then show "r = Inr v \<and> n' = n + 3 \<and> waited = [2000, 4000]
            \<and> 1000 + 2 * 1000 \<le> sum_list waited" by simp
  qed
  have last: "1 \<le> maxRetries \<longrightarrow>
            n < n' \<and> r = (case fn (n' - 1) of Inr v \<Rightarrow> Inr v | Inl e \<Rightarrow> Inl (Thrown e))"
  proof
    assume m: "1 \<le> maxRetries"
    from retry_loop_calls [OF run m] have "n < n'" by simp
    with retry_loop_last [OF run m]
    show "n < n' \<and> r = (case fn (n' - 1) of Inr v \<Rightarrow> Inr v | Inl e \<Rightarrow> Inl (Thrown e))"
      by simp
  qed
  from none have zero: "maxRetries = 0 \<longrightarrow> n' = n \<and> waited = [] \<and> r = Inl MaxRetriesExceeded"
    by simp
  from delays retried bound last zero exhausted other twice show ?thesis by blast
qed

theorem retryWithBackoff_policy_witness:
  "retryWithBackoff fails_twice 3 0 = (Inr 7, 3, [2000, 4000])
   \<and> (3::nat) \<le> 3 \<and> fails_twice 0 = Inl rate_limited \<and> status rate_limited = Some 429
   \<and> fails_twice (Suc 0) = Inl rate_limited \<and> fails_twice (Suc (Suc 0)) = Inr 7
   \<and> (1000::nat) + 2 * 1000 \<le> sum_list [2000, 4000]
   \<and> retryWithBackoff always_rejected 3 0 = (Inl (Thrown bad_request), 1, [])
   \<and> always_rejected 0 = Inl bad_request \<and> status bad_request \<noteq> Some 429
   \<and> retryWithBackoff always_limited 3 0 = (Inl (Thrown rate_limited), 3, [2000, 4000])
   \<and> (3::nat) - 0 = 3
   \<and> retryWithBackoff limited_then_rejected 3 0 = (Inl (Thrown bad_request), 2, [2000])
   \<and> Inl (Thrown bad_request)
       = (case limited_then_rejected (2 - 1) of Inr v \<Rightarrow> Inr v | Inl e \<Rightarrow> Inl (Thrown e))"
proof -
  note a = retryWithBackoff_policy [OF fails_twice_run]
  note d = retryWithBackoff_policy [OF limited_then_rejected_run]
  note d4 = d [THEN conjunct2, THEN conjunct2, THEN conjunct2, THEN conjunct1]
  have 1: "fails_twice 0 = Inl rate_limited \<and> fails_twice (Suc 0) = Inl rate_limited \<and> fails_twice (Suc (Suc 0)) = Inr 7"
    by (simp add: fails_twice_def)
  have 2: "status rate_limited = Some 429 \<and> status bad_request \<noteq> Some 429"
    by (simp add: rate_limited_def bad_request_def)
  have 3: "always_rejected 0 = Inl bad_request" by (simp add: always_rejected_def)
  from a 1 2 have 4: "(1000::nat) + 2 * 1000 \<le> sum_list [2000, 4000]" by blast
  from d4 have 5: "Inl (Thrown bad_request)
       = (case limited_then_rejected (2 - 1) of Inr v \<Rightarrow> Inr v | Inl e \<Rightarrow> Inl (Thrown e))"
    by simp
  from 4 5 1 2 3 fails_twice_run always_rejected_run always_limited_run
    limited_then_rejected_run
  show ?thesis by simp
qed

section \<open>Properties of the transformer\<close>

lemma dropWhile_rev_rev_prefix:
  "\<exists>zs. xs = rev (dropWhile P (rev xs)) @ zs"
proof -
  have "rev (takeWhile P (rev xs) @ dropWhile P (rev xs)) =
        rev (dropWhile P (rev xs)) @ rev (takeWhile P (rev xs))"
    by (rule rev_append)
  moreover have "rev (takeWhile P (rev xs) @ dropWhile P (rev xs)) = xs"
    by simp
  ultimately have "xs = rev (dropWhile P (rev xs)) @ rev (takeWhile P (rev xs))"
    by metis
  then show ?thesis by (rule exI)
qed

lemma trim_no_leading: "dropWhile js_whitespace (trim s) = trim s"
proof (cases "trim s")
  case Nil
  then show ?thesis by simp
next
  case (Cons c cs)
  let ?u = "dropWhile js_whitespace s"
  obtain zs where u: "?u = trim s @ zs"
    using dropWhile_rev_rev_prefix [of ?u js_whitespace] by (auto simp: trim_def)
  with Cons have "?u = c # cs @ zs" by simp
  then have "\<not> js_whitespace c" by (metis dropWhile_eq_Cons_conv)
  with Cons show ?thesis by simp
qed

lemma trim_no_trailing: "dropWhile js_whitespace (rev (trim s)) = rev (trim s)"
  by (simp add: trim_def dropWhile_idem)

lemma trim_idem: "trim (trim s) = trim s"
proof -
  have "trim (trim s) = rev (dropWhile js_whitespace (rev (dropWhile js_whitespace (trim s))))"
    by (simp add: trim_def)
  also have "\<dots> = rev (dropWhile js_whitespace (rev (trim s)))" by (simp add: trim_no_leading)
  also have "\<dots> = trim s" by (simp add: trim_no_trailing)
  finally show ?thesis .
qed

lemma rev_split: "xs = rev (dropWhile P (rev xs)) @ rev (takeWhile P (rev xs))"
proof -
  have "rev (takeWhile P (rev xs) @ dropWhile P (rev xs)) =
        rev (dropWhile P (rev xs)) @ rev (takeWhile P (rev xs))"
    by (rule rev_append)
  moreover have "rev (takeWhile P (rev xs) @ dropWhile P (rev xs)) = xs"
    by simp
  ultimately show ?thesis by metis
qed

lemma trim_prefix_suffix:
  "\<exists>before after. s = before @ trim s @ after
     \<and> list_all js_whitespace before \<and> list_all js_whitespace after"
proof -
  let ?u = "dropWhile js_whitespace s"
  have 1: "s = takeWhile js_whitespace s @ ?u" by simp
  have 2: "?u = trim s @ rev (takeWhile js_whitespace (rev ?u))"
    unfolding trim_def by (rule rev_split)
  have 3: "list_all js_whitespace (takeWhile js_whitespace s)"
    by (simp add: list_all_iff) (meson set_takeWhileD)
  have 4: "list_all js_whitespace (rev (takeWhile js_whitespace (rev ?u)))"
    by (simp add: list_all_iff) (meson set_takeWhileD)
  from 1 2 have "s = takeWhile js_whitespace s @ trim s @ rev (takeWhile js_whitespace (rev ?u))"
    by metis
  with 3 4 show ?thesis by blast
qed

lemma trim_ends:
  assumes "trim s \<noteq> []"
  shows "\<not> js_whitespace (hd (trim s)) \<and> \<not> js_whitespace (last (trim s))"
proof -
  from assms obtain c cs where c: "trim s = c # cs" by (cases "trim s") auto
  have "dropWhile js_whitespace (trim s) = trim s" by (rule trim_no_leading)
  with c have h: "\<not> js_whitespace c" by (metis dropWhile_eq_Cons_conv)
  from assms have r: "rev (trim s) \<noteq> []" by simp
  then obtain d ds where d: "rev (trim s) = d # ds" by (cases "rev (trim s)") auto
  have "dropWhile js_whitespace (rev (trim s)) = rev (trim s)" by (rule trim_no_trailing)
  with d have "\<not> js_whitespace d" by (metis dropWhile_eq_Cons_conv)
  moreover from d assms have "last (trim s) = d" by (metis hd_rev list.sel(1))
  ultimately show ?thesis using h c by simp
qed

lemma trimmed_of_trim: "trimmed_of s (trim s)"
  using trim_prefix_suffix [of s] trim_ends [of s] by (simp add: trimmed_of_def)

lemma strip_front:
  assumes "list_all js_whitespace before" and "t \<noteq> []" and "\<not> js_whitespace (hd t)"
  shows "dropWhile js_whitespace (before @ t @ after) = t @ after"
proof -
  from assms(2) obtain c cs where c: "t = c # cs" by (cases t) auto
  from assms(1) have "\<forall>x \<in> set before. js_whitespace x" by (simp add: list_all_iff)
  then have "dropWhile js_whitespace (before @ t @ after) = dropWhile js_whitespace (t @ after)"
    by (simp add: dropWhile_append2)
  with c assms(3) show ?thesis by simp
qed

lemma trimmed_of_is_trim:
  assumes "trimmed_of s t"
  shows "t = trim s"
proof -
  from assms obtain before after where s: "s = before @ t @ after"
    and b: "list_all js_whitespace before" and a: "list_all js_whitespace after"
    and e: "t \<noteq> [] \<longrightarrow> \<not> js_whitespace (hd t) \<and> \<not> js_whitespace (last t)"
    by (auto simp: trimmed_of_def)
  show ?thesis
  proof (cases "t = []")
    case True
    with s a b have "list_all js_whitespace s" by simp
    then have d0: "dropWhile js_whitespace s = []"
      by (simp add: dropWhile_eq_Nil_conv list_all_iff)
    show ?thesis unfolding trim_def d0 using True by simp
  next
    case False
    with e have h: "\<not> js_whitespace (hd t)" and l: "\<not> js_whitespace (last t)" by simp_all
    from strip_front [OF b False h] s have 1: "dropWhile js_whitespace s = t @ after" by simp
    have ra: "list_all js_whitespace (rev after)" using a by (simp add: list_all_iff)
    from False have rt: "rev t \<noteq> []" by simp
    from l False have hr: "\<not> js_whitespace (hd (rev t))" by (simp add: hd_rev)
    from strip_front [OF ra rt hr, of "[]"]
    have "dropWhile js_whitespace (rev (t @ after)) = rev t" by simp
    with 1 show ?thesis by (simp add: trim_def)
  qed
qed

lemma concat_sep_Cons: "concat (map (\<lambda>x. sep @ x) (y # ys)) = sep @ y @ concat (map (\<lambda>x. sep @ x) ys)"
  by simp

lemma join_strings_joined_with: "join_strings sep xs = joined_with sep xs"
proof (induction sep xs rule: join_strings.induct)
  case (1 sep)
  show ?case by (simp add: joined_with_def)
next
  case (2 sep x)
  show ?case by (simp add: joined_with_def)
next
  case (3 sep x y ys)
  have "joined_with sep (y # ys) = y @ concat (map (\<lambda>x. sep @ x) ys)"
    by (simp add: joined_with_def)
  with 3 show ?case by (simp add: joined_with_def)
qed

lemmas json_eval = JSON_parse_def json_space_def is_digit_def word_char_def punctuation_def
  emit_def wants_value_def wants_key_def number_char_def valid_number_def num_int_def
  num_tail_def exp_tail_def num_exp_def escape_char_def hex_val_def is_word_def js_def ch_def

lemma parse_ab:
  \<open>JSON_parse nl (js ''["a", "b"]'') = Some (JArr [JStr (js ''a''), JStr (js ''b'')])\<close>
  by (simp add: json_eval)

lemma parse_comma: \<open>JSON_parse nl (js ''a, b ,'') = None\<close>
  by (simp add: json_eval)

lemma parse_untrimmed:
  \<open>JSON_parse nl untrimmed_tags = Some (JArr [JStr (js '' a ''), JStr []])\<close>
  by (simp add: json_eval untrimmed_tags_def)

lemma parse_toString_object:
  \<open>JSON_parse nl toString_object = Some (JObj [(js ''toString'', JNum (nl (js ''1'')))])\<close>
  by (simp add: json_eval toString_object_def)

lemma parse_toString_in_array:
  \<open>JSON_parse nl toString_in_array = Some (JArr [JObj [(js ''toString'', JNum (nl (js ''1'')))]])\<close>
  by (simp add: json_eval toString_in_array_def)

lemma parse_escaped: \<open>JSON_parse nl escaped_tags = Some (JArr [JStr [0x100]])\<close>
  by (simp add: json_eval escaped_tags_def)

lemma split_tags_comma: \<open>split_tags (js ''a, b ,'') = [JStr (js ''a''), JStr (js ''b'')]\<close>
  by (simp add: split_tags_def trim_def js_whitespace_def js_def ch_def)

lemma split_tags_toString_object: \<open>split_tags toString_object = [JStr toString_object]\<close>
  by (simp add: split_tags_def trim_def js_whitespace_def js_def ch_def toString_object_def)

lemma parse_tags_ab:
  \<open>parse_tags rt (Some (js ''["a", "b"]'')) = [JStr (js ''a''), JStr (js ''b'')]\<close>
  by (simp add: parse_tags_def parse_ab) (simp add: js_def)

lemma parse_tags_comma:
  \<open>parse_tags rt (Some (js ''a, b ,'')) = [JStr (js ''a''), JStr (js ''b'')]\<close>
  by (simp add: parse_tags_def parse_comma split_tags_comma) (simp add: js_def)

lemma split_on_not_Nil: "split_on c s \<noteq> []"
  by (induction s) (auto split: list.splits)

lemma join_strings_head: "join_strings sep ((x # w) # ws) = x # join_strings sep (w # ws)"
  by (cases ws) simp_all

lemma split_on_joined: "join_strings [c] (split_on c s) = s"
proof (induction s)
  case Nil
  show ?case by simp
next
  case (Cons x xs)
  obtain w ws where w: "split_on c xs = w # ws"
    using split_on_not_Nil [of c xs] by (cases "split_on c xs") auto
  show ?case
  proof (cases "x = c")
    case True
    with Cons w show ?thesis by simp
  next
    case False
    then have "split_on c (x # xs) = (x # w) # ws" by (simp add: w)
    with Cons w show ?thesis by (simp only: join_strings_head)
  qed
qed

lemma split_on_no_sep: "\<forall>x \<in> set (split_on c s). c \<notin> set x"
proof (induction s)
  case Nil
  show ?case by simp
next
  case (Cons x xs)
  obtain w ws where w: "split_on c xs = w # ws"
    using split_on_not_Nil [of c xs] by (cases "split_on c xs") auto
  with Cons show ?case by auto
qed

lemma trimmed_pieces: "list_all2 trimmed_of xs (map trim xs)"
  by (induction xs) (simp_all add: trimmed_of_trim)

lemma split_tags_pieces:
  "\<exists>pieces us. joined_with [ch CHR '',''] pieces = s
      \<and> (\<forall>x \<in> set pieces. ch CHR '','' \<notin> set x)
      \<and> list_all2 trimmed_of pieces us
      \<and> split_tags s = map JStr (filter (\<lambda>t. t \<noteq> []) us)"
proof -
  let ?pieces = "split_on (ch CHR '','') s"
  have "joined_with [ch CHR '',''] ?pieces = s"
    by (simp only: join_strings_joined_with [symmetric] split_on_joined)
  moreover have "\<forall>x \<in> set ?pieces. ch CHR '','' \<notin> set x" by (rule split_on_no_sep)
  moreover have "list_all2 trimmed_of ?pieces (map trim ?pieces)" by (rule trimmed_pieces)
  moreover have "split_tags s = map JStr (filter (\<lambda>t. t \<noteq> []) (map trim ?pieces))"
    by (simp add: split_tags_def)
  ultimately show ?thesis by blast
qed

lemma split_tags_normalized: "list_all normalized_tag (split_tags s)"
  using trim_ends by (auto simp: split_tags_def list_all_iff normalized_tag_def)

lemma those_None: "those xs = None \<longleftrightarrow> None \<in> set xs"
  by (induction xs) (auto split: option.splits)

lemma those_map_Some: "those (map Some xs) = Some xs"
  by (induction xs) auto

lemma None_in_map: "None \<in> set (map f xs) \<longleftrightarrow> (\<exists>x \<in> set xs. f x = None)"
  by (induction xs) auto

lemma unprintable_not_null: "unprintable x \<Longrightarrow> x \<noteq> JNull"
  by auto

lemma js_String_None: "js_String rt v = None \<longleftrightarrow> unprintable v"
proof (induction v)
  case (JArr xs)
  have "js_String rt (JArr xs) = None
      \<longleftrightarrow> None \<in> set (map (\<lambda>x. if x = JNull then Some [] else js_String rt x) xs)"
    by (simp add: those_None)
  also have "\<dots> \<longleftrightarrow> (\<exists>x \<in> set xs. x \<noteq> JNull \<and> js_String rt x = None)"
    unfolding None_in_map by (auto split: if_splits)
  also have "\<dots> \<longleftrightarrow> (\<exists>x \<in> set xs. unprintable x)"
    using JArr unprintable_not_null by blast
  finally show ?case by simp
qed simp_all

lemma printed_tags_None:
  "printed_tags rt tgs = None \<longleftrightarrow> (\<exists>x \<in> set tgs. unprintable x)"
proof -
  have "printed_tags rt tgs = None \<longleftrightarrow> None \<in> set (map (element_text rt) tgs)"
    by (simp add: printed_tags_def those_None)
  also have "\<dots> \<longleftrightarrow> (\<exists>x \<in> set tgs. x \<noteq> JNull \<and> js_String rt x = None)"
    unfolding None_in_map by (auto simp: element_text_def split: if_splits)
  also have "\<dots> \<longleftrightarrow> (\<exists>x \<in> set tgs. unprintable x)"
    using unprintable_not_null by (auto simp: js_String_None)
  finally show ?thesis .
qed

lemma printed_tags_strings: "printed_tags rt (map JStr ss) = Some ss"
proof -
  have "map (element_text rt) (map JStr ss) = map Some ss"
    by (induction ss) (simp_all add: element_text_def)
  then show ?thesis unfolding printed_tags_def by (simp only: those_map_Some)
qed

lemma js_join_printed:
  "js_join rt sep tgs = map_option (joined_with sep) (printed_tags rt tgs)"
  by (simp add: js_join_def printed_tags_def join_strings_joined_with [abs_def])

lemma joined_with_simps:
  "joined_with sep [a, b, c, d] = a @ sep @ b @ sep @ c @ sep @ d"
  by (simp add: joined_with_def)

lemma generateEmbeddingText_throws:
  "printed_tags rt tgs = None \<Longrightarrow> generateEmbeddingText rt p tgs = Inl TypeError"
  by (cases tgs) (simp_all add: generateEmbeddingText_def js_join_printed printed_tags_def)

lemma generateEmbeddingText_returns:
  assumes "printed_tags rt tgs = Some texts"
  shows "generateEmbeddingText rt p tgs = Inr (trim (untrimmed_text rt p texts))"
proof (cases "tgs = []")
  case True
  with assms have "texts = []" by (simp add: printed_tags_def)
  with True show ?thesis
    by (simp add: generateEmbeddingText_def untrimmed_text_def joined_with_simps js_def)
next
  case False
  with assms have "texts \<noteq> []" by (cases tgs) (auto simp: printed_tags_def split: option.splits)
  with False assms show ?thesis
    by (simp add: generateEmbeddingText_def untrimmed_text_def joined_with_simps js_join_printed
        js_def)
qed

lemma transform_same: "transformProductToMongoSchema rt p = transformProduct rt p"
  by (simp add: transformProductToMongoSchema_def transformProduct_def)

lemma transformProduct_throws:
  "printed_tags rt (parse_tags rt (SQLiteProduct.tags p)) = None \<Longrightarrow>
   transformProduct rt p = Inl TypeError"
  by (simp add: transformProduct_def Let_def generateEmbeddingText_throws)

lemma transformProduct_returns:
  assumes "printed_tags rt (parse_tags rt (SQLiteProduct.tags p)) = Some texts"
  shows "\<exists>d. transformProduct rt p = Inr d \<and> tags d = parse_tags rt (SQLiteProduct.tags p)
           \<and> embedding d = None \<and> embedding_text d = trim (untrimmed_text rt p texts)"
  by (simp add: transformProduct_def Let_def generateEmbeddingText_returns [OF assms])

lemma tags_of_transform:
  "transformProduct rt p = Inr d \<Longrightarrow> tags d = parse_tags rt (SQLiteProduct.tags p)"
  by (auto simp: transformProduct_def Let_def split: sum.splits)

lemma trimmed_of_unique: "trimmed_of s t \<Longrightarrow> trimmed_of s t' \<Longrightarrow> t = t'"
  by (metis trimmed_of_is_trim)

lemma parse_tags_none: "parse_tags rt None = []" "parse_tags rt (Some []) = []"
  by (simp_all add: parse_tags_def)

lemma parse_tags_unparsed:
  "s \<noteq> [] \<Longrightarrow> JSON_parse (number_of_literal rt) s = None \<Longrightarrow>
   parse_tags rt (Some s) = split_tags s"
  by (simp add: parse_tags_def)

lemma parse_tags_array:
  "s \<noteq> [] \<Longrightarrow> JSON_parse (number_of_literal rt) s = Some (JArr xs) \<Longrightarrow>
   parse_tags rt (Some s) = xs"
  by (simp add: parse_tags_def)

lemma parse_tags_printed:
  "s \<noteq> [] \<Longrightarrow> JSON_parse (number_of_literal rt) s = Some v \<Longrightarrow> \<forall>xs. v \<noteq> JArr xs \<Longrightarrow>
   js_String rt v = Some text \<Longrightarrow> parse_tags rt (Some s) = [JStr text]"
  by (cases v) (simp_all add: parse_tags_def)

lemma parse_tags_unprinted:
  "s \<noteq> [] \<Longrightarrow> JSON_parse (number_of_literal rt) s = Some v \<Longrightarrow> \<forall>xs. v \<noteq> JArr xs \<Longrightarrow>
   js_String rt v = None \<Longrightarrow> parse_tags rt (Some s) = split_tags s"
  by (cases v) (simp_all add: parse_tags_def)

lemma tags_of_transform_sum:
  "map_sum (\<lambda>e. e) tags (transformProduct rt p) = Inr ts \<Longrightarrow>
   ts = parse_tags rt (SQLiteProduct.tags p)"
  by (cases "transformProduct rt p") (auto dest: tags_of_transform)

lemma parse_tags_untrimmed:
  "parse_tags rt (Some untrimmed_tags) = [JStr (js '' a ''), JStr []]"
  by (simp add: parse_tags_def parse_untrimmed) (simp add: untrimmed_tags_def js_def)

lemma parse_tags_toString_object:
  "parse_tags rt (Some toString_object) = [JStr toString_object]"
  by (simp add: parse_tags_def parse_toString_object split_tags_toString_object)
     (simp add: toString_object_def js_def)

lemma parse_tags_escaped: "parse_tags rt (Some escaped_tags) = [JStr [0x100]]"
  by (simp add: parse_tags_def parse_escaped) (simp add: escaped_tags_def js_def)

lemma transform_tags_strings:
  assumes "parse_tags rt (SQLiteProduct.tags p) = map JStr ss"
  shows "map_sum (\<lambda>e. e) tags (transformProduct rt p) = Inr (map JStr ss)"
proof -
  have "printed_tags rt (parse_tags rt (SQLiteProduct.tags p)) = Some ss"
    by (simp only: assms printed_tags_strings)
  from transformProduct_returns [OF this] assms show ?thesis by auto
qed

lemma not_normalized: "\<not> normalized_tag (JStr [])" "\<not> normalized_tag (JStr (js '' a ''))"
  by (simp_all add: normalized_tag_def js_whitespace_def js_def)

text \<open>
  Claim C5, as stated, fails: both transformers keep a parsed JSON array as it is. The
  tags field \<^verbatim>\<open>[" a ", ""]\<close> gives a tag with white space at both ends and an empty
  tag.
\<close>

theorem json_array_tags_not_normalized:
  "map_sum (\<lambda>e. e) tags (transformProduct literal_runtime untrimmed_mug)
     = Inr [JStr (js '' a ''), JStr []]
   \<and> map_sum (\<lambda>e. e) tags (transformProductToMongoSchema literal_runtime untrimmed_mug)
     = Inr [JStr (js '' a ''), JStr []]
   \<and> \<not> normalized_tag (JStr (js '' a '') :: js_string json)
   \<and> \<not> normalized_tag (JStr [] :: js_string json)"
proof -
  have "parse_tags literal_runtime (SQLiteProduct.tags untrimmed_mug)
      = map JStr [js '' a '', []]"
    by (simp add: untrimmed_mug_def parse_tags_untrimmed)
  from transform_tags_strings [OF this] show ?thesis
    by (simp add: transform_same not_normalized)
qed

text \<open>
  Claim C5, amended. The tags of a transformed record are what \<open>parse_tags\<close> gives for
  the tags field. A missing or empty field gives no tags. A field that is not valid JSON
  gives its comma-separated pieces, trimmed, without the empty ones; so does a field
  that is valid JSON but neither an array nor a value that can be converted to a string
  (an object with a member named \<^verbatim>\<open>toString\<close>). The pieces are the strings
  without a comma that give the field back when joined with commas. Every tag from the
  comma split is a non-empty string without white space at either end. A field that is a JSON array
  gives the elements of the array as parsed, and any other JSON value that can be
  converted to a string gives that string as the only tag. The fields
  \<^verbatim>\<open>["a", "b"]\<close> and \<^verbatim>\<open>a, b ,\<close> both give the tags a and b.
\<close>

theorem tag_normalization:
  fixes rt :: "'n js_runtime"
  shows \<open>(SQLiteProduct.tags p = None \<or> SQLiteProduct.tags p = Some [] \<longrightarrow>
            parse_tags rt (SQLiteProduct.tags p) = [])
       \<and> (\<forall>s. SQLiteProduct.tags p = Some s \<and> s \<noteq> []
                \<and> JSON_parse (number_of_literal rt) s = None \<longrightarrow>
              parse_tags rt (SQLiteProduct.tags p) = split_tags s)
       \<and> (\<forall>s xs. SQLiteProduct.tags p = Some s \<and> s \<noteq> []
                \<and> JSON_parse (number_of_literal rt) s = Some (JArr xs) \<longrightarrow>
              parse_tags rt (SQLiteProduct.tags p) = xs)
       \<and> (\<forall>s v printed. SQLiteProduct.tags p = Some s \<and> s \<noteq> []
                \<and> JSON_parse (number_of_literal rt) s = Some v \<and> (\<forall>xs. v \<noteq> JArr xs)
                \<and> js_String rt v = Some printed \<longrightarrow>
              parse_tags rt (SQLiteProduct.tags p) = [JStr printed])
       \<and> (\<forall>s v. SQLiteProduct.tags p = Some s \<and> s \<noteq> []
                \<and> JSON_parse (number_of_literal rt) s = Some v \<and> (\<forall>xs. v \<noteq> JArr xs)
                \<and> js_String rt v = None \<longrightarrow>
              parse_tags rt (SQLiteProduct.tags p) = split_tags s)
       \<and> (\<forall>s. (\<exists>pieces us. joined_with [ch CHR '',''] pieces = s
                    \<and> (\<forall>x \<in> set pieces. ch CHR '','' \<notin> set x)
                    \<and> list_all2 trimmed_of pieces us
                    \<and> (split_tags s :: 'n json list) = map JStr (filter (\<lambda>t. t \<noteq> []) us))
              \<and> list_all normalized_tag (split_tags s :: 'n json list))
       \<and> (SQLiteProduct.tags p = Some (js ''["a", "b"]'') \<longrightarrow>
            map_sum (\<lambda>e. e) tags (transformProduct rt p) = Inr [JStr (js ''a''), JStr (js ''b'')])
       \<and> (SQLiteProduct.tags p = Some (js ''a, b ,'') \<longrightarrow>
            map_sum (\<lambda>e. e) tags (transformProduct rt p) = Inr [JStr (js ''a''), JStr (js ''b'')])
       \<and> (\<forall>ts. map_sum (\<lambda>e. e) tags (transformProduct rt p) = Inr ts \<longrightarrow>
              ts = parse_tags rt (SQLiteProduct.tags p))
       \<and> (\<forall>ts. map_sum (\<lambda>e. e) tags (transformProductToMongoSchema rt p) = Inr ts \<longrightarrow>
              ts = parse_tags rt (SQLiteProduct.tags p))\<close>
proof -
  have ab: "map_sum (\<lambda>e. e) tags (transformProduct rt p) = Inr [JStr (js ''a''), JStr (js ''b'')]"
    if \<open>SQLiteProduct.tags p = Some (js ''["a", "b"]'')\<close>
    using transform_tags_strings [of rt p "[js ''a'', js ''b'']"] that
    by (simp add: parse_tags_ab)
  have comma: "map_sum (\<lambda>e. e) tags (transformProduct rt p) = Inr [JStr (js ''a''), JStr (js ''b'')]"
    if "SQLiteProduct.tags p = Some (js ''a, b ,'')"
    using transform_tags_strings [of rt p "[js ''a'', js ''b'']"] that
    by (simp add: parse_tags_comma)
  show ?thesis
    apply (intro conjI allI impI)
    subgoal by (auto simp: parse_tags_none)
    subgoal by (simp add: parse_tags_unparsed)
    subgoal by (simp add: parse_tags_array)
    subgoal for s v t using parse_tags_printed [of s rt v t] by simp
    subgoal for s v using parse_tags_unprinted [of s rt v] by simp
    subgoal by (rule split_tags_pieces)
    subgoal by (rule split_tags_normalized)
    subgoal by (rule ab)
    subgoal by (rule comma)
    subgoal by (rule tags_of_transform_sum)
    subgoal by (rule tags_of_transform_sum) (simp add: transform_same)
    done
qed

theorem tag_normalization_witness:
  "map_sum (\<lambda>e. e) tags (transformProduct literal_runtime mug) = Inr [JStr (js ''a''), JStr (js ''b'')]
   \<and> map_sum (\<lambda>e. e) tags (transformProduct literal_runtime comma_mug)
       = Inr [JStr (js ''a''), JStr (js ''b'')]
   \<and> parse_tags literal_runtime (SQLiteProduct.tags toString_mug) = [JStr toString_object]
   \<and> parse_tags literal_runtime (SQLiteProduct.tags escaped_mug) = [JStr [0x100]]
   \<and> parse_tags literal_runtime (SQLiteProduct.tags (mug\<lparr>SQLiteProduct.tags := None\<rparr>)) = []
   \<and> list_all normalized_tag (split_tags (js ''a, b ,'') :: js_string json list)"
proof -
  note m = tag_normalization [of mug literal_runtime]
  note c = tag_normalization [of comma_mug literal_runtime]
  note t = tag_normalization [of toString_mug literal_runtime]
  note e = tag_normalization [of escaped_mug literal_runtime]
  note n = tag_normalization [of "mug\<lparr>SQLiteProduct.tags := None\<rparr>" literal_runtime]
  have 1: "map_sum (\<lambda>e. e) tags (transformProduct literal_runtime mug)
         = Inr [JStr (js ''a''), JStr (js ''b'')]"
    using m [THEN conjunct2, THEN conjunct2, THEN conjunct2, THEN conjunct2, THEN conjunct2,
             THEN conjunct2, THEN conjunct1]
    by (simp add: mug_def)
  have 2: "map_sum (\<lambda>e. e) tags (transformProduct literal_runtime comma_mug)
         = Inr [JStr (js ''a''), JStr (js ''b'')]"
    using c [THEN conjunct2, THEN conjunct2, THEN conjunct2, THEN conjunct2, THEN conjunct2,
             THEN conjunct2, THEN conjunct2, THEN conjunct1]
    by (simp add: comma_mug_def mug_def)
  have "toString_object \<noteq> []" by (simp add: toString_object_def js_def)
  with t [THEN conjunct2, THEN conjunct2, THEN conjunct2, THEN conjunct2, THEN conjunct1,
          rule_format, of toString_object "JObj [(js ''toString'', JNum (js ''1''))]"]
  have 3: "parse_tags literal_runtime (SQLiteProduct.tags toString_mug) = [JStr toString_object]"
    by (simp add: toString_mug_def literal_runtime_def parse_toString_object
        split_tags_toString_object)
  have "escaped_tags \<noteq> []" by (simp add: escaped_tags_def js_def)
  with e [THEN conjunct2, THEN conjunct2, THEN conjunct1, rule_format,
          of escaped_tags "[JStr [0x100]]"]
  have 4: "parse_tags literal_runtime (SQLiteProduct.tags escaped_mug) = [JStr [0x100]]"
    by (simp add: escaped_mug_def parse_escaped)
  have 5: "parse_tags literal_runtime (SQLiteProduct.tags (mug\<lparr>SQLiteProduct.tags := None\<rparr>)) = []"
    using n [THEN conjunct1] by simp
  have 6: "list_all normalized_tag (split_tags (js ''a, b ,'') :: js_string json list)"
    using m [THEN conjunct2, THEN conjunct2, THEN conjunct2, THEN conjunct2, THEN conjunct2,
             THEN conjunct1, rule_format, of "js ''a, b ,''"] by blast
  from 1 2 3 4 5 6 show ?thesis by blast
qed

lemma unprintable_row_tags:
  "parse_tags literal_runtime (SQLiteProduct.tags unprintable_row)
     = [JObj [(js ''toString'', JNum (js ''1''))]]"
  by (simp add: unprintable_row_def parse_tags_def parse_toString_in_array literal_runtime_def)
     (simp add: toString_in_array_def js_def)

lemma unprintable_row_throws: "transformProduct literal_runtime unprintable_row = Inl TypeError"
  by (rule transformProduct_throws) (simp add: unprintable_row_tags printed_tags_None)

lemma those_nth:
  "those xs = Some ys \<Longrightarrow> length ys = length xs \<and> (\<forall>i < length xs. xs ! i = Some (ys ! i))"
proof (induction xs arbitrary: ys)
  case Nil
  then show ?case by simp
next
  case (Cons x xs)
  from Cons.prems obtain y zs where x: "x = Some y" and zs: "those xs = Some zs" and ys: "ys = y # zs"
    by (auto split: option.splits)
  from Cons.IH [OF zs] x ys show ?case by (auto simp: nth_Cons split: nat.splits)
qed

lemma printed_tags_nth:
  assumes "printed_tags rt tgs = Some texts" and "i < length tgs"
  shows "length texts = length tgs
       \<and> (case tgs ! i of
            JNull \<Rightarrow> texts ! i = []
          | JBool b \<Rightarrow> texts ! i = (if b then js ''true'' else js ''false'')
          | JNum n \<Rightarrow> texts ! i = Number_toString rt n
          | JStr s \<Rightarrow> texts ! i = s
          | JArr xs \<Rightarrow> Some (texts ! i) = js_String rt (JArr xs)
          | JObj ms \<Rightarrow> texts ! i = js ''[object Object]'')"
proof -
  from those_nth [OF assms(1) [unfolded printed_tags_def]] assms(2)
  have l: "length texts = length tgs" and e: "element_text rt (tgs ! i) = Some (texts ! i)"
    by simp_all
  from e have "case tgs ! i of
            JNull \<Rightarrow> texts ! i = []
          | JBool b \<Rightarrow> texts ! i = (if b then js ''true'' else js ''false'')
          | JNum n \<Rightarrow> texts ! i = Number_toString rt n
          | JStr s \<Rightarrow> texts ! i = s
          | JArr xs \<Rightarrow> Some (texts ! i) = js_String rt (JArr xs)
          | JObj ms \<Rightarrow> texts ! i = js ''[object Object]''"
    by (cases "tgs ! i") (auto simp: element_text_def split: if_splits)
  with l show ?thesis by simp
qed

text \<open>
  Claim C6, as stated, fails: not every record has an embedding text. For a record whose
  tags field is \<^verbatim>\<open>[{"toString": 1}]\<close> the join of the tags throws a
  \<^verbatim>\<open>TypeError\<close>, outside the \<^verbatim>\<open>try\<close> of the transformer, and no record is
  produced.
\<close>

theorem transformer_throws_on_unprintable_tag:
  "transformProduct literal_runtime unprintable_row = Inl TypeError
   \<and> transformProductToMongoSchema literal_runtime unprintable_row = Inl TypeError"
  by (simp add: transform_same unprintable_row_throws)

text \<open>
  Claim C6, amended. When a tag of the record is unprintable, the transformer throws a
  \<^verbatim>\<open>TypeError\<close>. Otherwise it returns a record without embedding, with the parsed
  tags, whose embedding text is the trimmed form of four parts joined with a full stop
  and a space: title, description, the word from and the vendor, joined with spaces;
  the price line; the tags line (nothing when there are no tags, else the printed tags
  joined with a comma and a space); the search content. A tag is printed as itself when
  it is a string, as nothing when it is \<^verbatim>\<open>null\<close>, and as JavaScript's string
  conversion gives otherwise; tags that are all strings never throw. Both scripts have
  the same transformer, and its embedding text depends only on the title, description,
  vendor, price, currency, tags and search content of the record.
\<close>

theorem embedding_text_synthesis:
  fixes rt :: "'n js_runtime" and p :: "'n SQLiteProduct"
  shows "((\<exists>x \<in> set (parse_tags rt (SQLiteProduct.tags p)). unprintable x) \<longrightarrow>
            transformProduct rt p = Inl TypeError)
       \<and> (\<not> (\<exists>x \<in> set (parse_tags rt (SQLiteProduct.tags p)). unprintable x) \<longrightarrow>
            (\<exists>texts d. printed_tags rt (parse_tags rt (SQLiteProduct.tags p)) = Some texts
                \<and> transformProduct rt p = Inr d
                \<and> tags d = parse_tags rt (SQLiteProduct.tags p)
                \<and> embedding d = None
                \<and> trimmed_of (untrimmed_text rt p texts) (embedding_text d)))
       \<and> (\<forall>texts i. printed_tags rt (parse_tags rt (SQLiteProduct.tags p)) = Some texts
              \<and> i < length (parse_tags rt (SQLiteProduct.tags p)) \<longrightarrow>
              length texts = length (parse_tags rt (SQLiteProduct.tags p))
              \<and> (case parse_tags rt (SQLiteProduct.tags p) ! i of
                   JNull \<Rightarrow> texts ! i = []
                 | JBool b \<Rightarrow> texts ! i = (if b then js ''true'' else js ''false'')
                 | JNum n \<Rightarrow> texts ! i = Number_toString rt n
                 | JStr s \<Rightarrow> texts ! i = s
                 | JArr xs \<Rightarrow> Some (texts ! i) = js_String rt (JArr xs)
                 | JObj ms \<Rightarrow> texts ! i = js ''[object Object]''))
       \<and> (\<forall>ss. parse_tags rt (SQLiteProduct.tags p) = map JStr ss \<longrightarrow>
              printed_tags rt (parse_tags rt (SQLiteProduct.tags p)) = Some ss)
       \<and> transformProductToMongoSchema rt p = transformProduct rt p
       \<and> (\<forall>q. SQLiteProduct.title q = SQLiteProduct.title p
              \<and> SQLiteProduct.description q = SQLiteProduct.description p
              \<and> SQLiteProduct.vendor q = SQLiteProduct.vendor p
              \<and> SQLiteProduct.price q = SQLiteProduct.price p
              \<and> SQLiteProduct.currency q = SQLiteProduct.currency p
              \<and> SQLiteProduct.tags q = SQLiteProduct.tags p
              \<and> SQLiteProduct.search_content q = SQLiteProduct.search_content p \<longrightarrow>
              map_sum (\<lambda>e. e) embedding_text (transformProduct rt q)
                = map_sum (\<lambda>e. e) embedding_text (transformProduct rt p))"
proof -
  let ?tgs = "parse_tags rt (SQLiteProduct.tags p)"
  have 1: "(\<exists>x \<in> set ?tgs. unprintable x) \<longrightarrow> transformProduct rt p = Inl TypeError"
    using transformProduct_throws [of rt p] by (simp add: printed_tags_None)
  have 2: "\<not> (\<exists>x \<in> set ?tgs. unprintable x) \<longrightarrow>
            (\<exists>texts d. printed_tags rt ?tgs = Some texts \<and> transformProduct rt p = Inr d
                \<and> tags d = ?tgs \<and> embedding d = None
                \<and> trimmed_of (untrimmed_text rt p texts) (embedding_text d))"
  proof
    assume "\<not> (\<exists>x \<in> set ?tgs. unprintable x)"
    then have "printed_tags rt ?tgs \<noteq> None" by (simp only: printed_tags_None not_False_eq_True)
    then obtain texts where t: "printed_tags rt ?tgs = Some texts" by blast
    from transformProduct_returns [OF t] obtain d
      where "transformProduct rt p = Inr d" "tags d = ?tgs" "embedding d = None"
        "embedding_text d = trim (untrimmed_text rt p texts)" by blast
    with t trimmed_of_trim [of "untrimmed_text rt p texts"] show
      "\<exists>texts d. printed_tags rt ?tgs = Some texts \<and> transformProduct rt p = Inr d
                \<and> tags d = ?tgs \<and> embedding d = None
                \<and> trimmed_of (untrimmed_text rt p texts) (embedding_text d)" by auto
  qed
  have 6: "\<forall>texts i. printed_tags rt ?tgs = Some texts \<and> i < length ?tgs \<longrightarrow>
              length texts = length ?tgs
              \<and> (case ?tgs ! i of
                   JNull \<Rightarrow> texts ! i = []
                 | JBool b \<Rightarrow> texts ! i = (if b then js ''true'' else js ''false'')
                 | JNum n \<Rightarrow> texts ! i = Number_toString rt n
                 | JStr s \<Rightarrow> texts ! i = s
                 | JArr xs \<Rightarrow> Some (texts ! i) = js_String rt (JArr xs)
                 | JObj ms \<Rightarrow> texts ! i = js ''[object Object]'')"
    using printed_tags_nth [of rt ?tgs] by blast
  have 3: "\<forall>ss. ?tgs = map JStr ss \<longrightarrow> printed_tags rt ?tgs = Some ss"
    by (simp add: printed_tags_strings)
  have 4: "transformProductToMongoSchema rt p = transformProduct rt p"
    by (rule transform_same)
  have 5: "\<forall>q. SQLiteProduct.title q = SQLiteProduct.title p
              \<and> SQLiteProduct.description q = SQLiteProduct.description p
              \<and> SQLiteProduct.vendor q = SQLiteProduct.vendor p
              \<and> SQLiteProduct.price q = SQLiteProduct.price p
              \<and> SQLiteProduct.currency q = SQLiteProduct.currency p
              \<and> SQLiteProduct.tags q = SQLiteProduct.tags p
              \<and> SQLiteProduct.search_content q = SQLiteProduct.search_content p \<longrightarrow>
              map_sum (\<lambda>e. e) embedding_text (transformProduct rt q)
                = map_sum (\<lambda>e. e) embedding_text (transformProduct rt p)"
    by (auto simp: transformProduct_def generateEmbeddingText_def Let_def split: sum.splits option.splits)
  from 1 2 6 3 4 5 show ?thesis by blast
qed

lemma padded_mug_tags:
  "parse_tags literal_runtime (SQLiteProduct.tags padded_mug) = map JStr [js ''a'', js ''b'']"
  by (simp add: padded_mug_def mug_def parse_tags_ab)

lemma padded_mug_untrimmed:
  "untrimmed_text literal_runtime padded_mug [js ''a'', js ''b'']
     = js '' Blue Mug Ceramic mug from Acme. Price: 20 USD. Tags: a, b. ''"
  by (simp add: untrimmed_text_def joined_with_def padded_mug_def mug_def literal_runtime_def
        or_empty_def js_def)

lemma padded_mug_trimmed:
  "trimmed_of (js '' Blue Mug Ceramic mug from Acme. Price: 20 USD. Tags: a, b. '')
     (js ''Blue Mug Ceramic mug from Acme. Price: 20 USD. Tags: a, b.'')"
proof -
  have "js '' Blue Mug Ceramic mug from Acme. Price: 20 USD. Tags: a, b. ''
      = [0x20] @ js ''Blue Mug Ceramic mug from Acme. Price: 20 USD. Tags: a, b.'' @ [0x20]"
    by (simp add: js_def)
  moreover have "list_all js_whitespace [0x20]" by (simp add: js_whitespace_def)
  moreover have "\<not> js_whitespace (hd (js ''Blue Mug Ceramic mug from Acme. Price: 20 USD. Tags: a, b.''))"
    "\<not> js_whitespace (last (js ''Blue Mug Ceramic mug from Acme. Price: 20 USD. Tags: a, b.''))"
    by (simp_all add: js_def js_whitespace_def)
  ultimately show ?thesis unfolding trimmed_of_def by blast
qed

lemma padded_mug_printable:
  "\<not> (\<exists>x \<in> set (parse_tags literal_runtime (SQLiteProduct.tags padded_mug)). unprintable x)"
  by (simp add: padded_mug_tags)

theorem embedding_text_synthesis_witness:
  "\<not> (\<exists>x \<in> set (parse_tags literal_runtime (SQLiteProduct.tags padded_mug)). unprintable x)
   \<and> map_sum (\<lambda>e. e) embedding_text (transformProduct literal_runtime padded_mug)
       = Inr (js ''Blue Mug Ceramic mug from Acme. Price: 20 USD. Tags: a, b.'')
   \<and> map_sum (\<lambda>e. e) embedding_text (transformProductToMongoSchema literal_runtime padded_mug)
       = Inr (js ''Blue Mug Ceramic mug from Acme. Price: 20 USD. Tags: a, b.'')
   \<and> (\<exists>x \<in> set (parse_tags literal_runtime (SQLiteProduct.tags unprintable_row)). unprintable x)
   \<and> transformProduct literal_runtime unprintable_row = Inl TypeError"
proof -
  note t = embedding_text_synthesis [of literal_runtime padded_mug]
  note u = embedding_text_synthesis [of literal_runtime unprintable_row]
  from t [THEN conjunct2, THEN conjunct1] padded_mug_printable
  obtain texts d where d: "printed_tags literal_runtime
        (parse_tags literal_runtime (SQLiteProduct.tags padded_mug)) = Some texts"
      "transformProduct literal_runtime padded_mug = Inr d"
      "trimmed_of (untrimmed_text literal_runtime padded_mug texts) (embedding_text d)"
    by blast
  from d(1) have "texts = [js ''a'', js ''b'']"
    by (simp only: padded_mug_tags printed_tags_strings option.inject)
  with d(3) have "trimmed_of (js '' Blue Mug Ceramic mug from Acme. Price: 20 USD. Tags: a, b. '')
      (embedding_text d)"
    by (simp only: padded_mug_untrimmed)
  from trimmed_of_unique [OF this padded_mug_trimmed]
  have e: "embedding_text d = js ''Blue Mug Ceramic mug from Acme. Price: 20 USD. Tags: a, b.''" .
  have 1: "map_sum (\<lambda>e. e) embedding_text (transformProduct literal_runtime padded_mug)
       = Inr (js ''Blue Mug Ceramic mug from Acme. Price: 20 USD. Tags: a, b.'')"
    by (simp only: d(2) e map_sum.simps)
  have 2: "map_sum (\<lambda>e. e) embedding_text (transformProductToMongoSchema literal_runtime padded_mug)
       = Inr (js ''Blue Mug Ceramic mug from Acme. Price: 20 USD. Tags: a, b.'')"
    using 1 t [THEN conjunct2, THEN conjunct2, THEN conjunct2, THEN conjunct2, THEN conjunct1]
    by simp
  have 3: "\<exists>x \<in> set (parse_tags literal_runtime (SQLiteProduct.tags unprintable_row)). unprintable x"
    by (simp add: unprintable_row_tags)
  from u [THEN conjunct1] 3
  have 4: "transformProduct literal_runtime unprintable_row = Inl TypeError" by blast
  from padded_mug_printable 1 2 3 4 show ?thesis by blast
qed

section \<open>Properties of the export script\<close>

lemma embed_all_append:
  "embed_all env (xs @ ys) n = embed_all env xs n @ embed_all env ys (calls_after env xs n)"
  by (induction xs arbitrary: n) (auto split: prod.splits)

lemma calls_after_append:
  "calls_after env (xs @ ys) n = calls_after env ys (calls_after env xs n)"
  by (induction xs arbitrary: n) (auto split: prod.splits)

lemma length_embed_all: "length (embed_all env ts n) = length ts"
  by (induction ts arbitrary: n) (auto split: prod.splits)

lemma export_product_calls:
  "embed_calls (snd (export_product env N (vars, w) p))
     = calls_after env [embedding_text p] (embed_calls w)"
  by (auto simp: export_product_def embed_with_retry_def log_def split: prod.splits sum.splits)

lemma export_product_writes:
  "file_writes (snd (export_product env N (vars, w) p)) = file_writes w"
  by (auto simp: export_product_def embed_with_retry_def log_def split: prod.splits sum.splits)

lemma export_product_products:
  "productsWithEmbeddings (fst (export_product env N (vars, w) p))
     = productsWithEmbeddings vars @ map2 attach [p] (embed_all env [embedding_text p] (embed_calls w))"
  by (auto simp: export_product_def embed_with_retry_def log_def attach_def split: prod.splits sum.splits)

lemma export_product_success:
  "successCount (fst (export_product env N (vars, w) p))
     = successCount vars + length (filter succeeded (embed_all env [embedding_text p] (embed_calls w)))"
  by (auto simp: export_product_def embed_with_retry_def log_def succeeded_def split: prod.splits sum.splits)

lemma export_product_fail:
  "failCount (fst (export_product env N (vars, w) p))
     = failCount vars + length (filter (\<lambda>r. \<not> succeeded r) (embed_all env [embedding_text p] (embed_calls w)))"
  by (auto simp: export_product_def embed_with_retry_def log_def succeeded_def split: prod.splits sum.splits)

lemma fold_export_calls:
  "embed_calls (snd (foldl (export_product env N) st ps))
     = calls_after env (map embedding_text ps) (embed_calls (snd st))"
proof (induction ps arbitrary: st)
  case Nil
  show ?case by simp
next
  case (Cons p ps)
  obtain vars w where st: "st = (vars, w)" by (cases st)
  have "calls_after env (map embedding_text (p # ps)) (embed_calls w)
      = calls_after env (map embedding_text ps) (calls_after env [embedding_text p] (embed_calls w))"
    using calls_after_append [of env "[embedding_text p]" "map embedding_text ps"] by simp
  with Cons.IH [of "export_product env N (vars, w) p"] st show ?case
    by (simp add: export_product_calls)
qed

lemma fold_export_writes:
  "file_writes (snd (foldl (export_product env N) st ps)) = file_writes (snd st)"
proof (induction ps arbitrary: st)
  case Nil
  show ?case by simp
next
  case (Cons p ps)
  obtain vars w where st: "st = (vars, w)" by (cases st)
  with Cons.IH [of "export_product env N (vars, w) p"] show ?case
    by (simp add: export_product_writes)
qed

lemma zip_attach_append:
  "length xs = length rs \<Longrightarrow>
   map2 attach (xs @ ys) (rs @ ss) = map2 attach xs rs @ map2 attach ys ss"
  by simp

lemma fold_export_products:
  "productsWithEmbeddings (fst (foldl (export_product env N) st ps))
     = productsWithEmbeddings (fst st)
       @ map2 attach ps (embed_all env (map embedding_text ps) (embed_calls (snd st)))"
proof (induction ps arbitrary: st)
  case Nil
  show ?case by simp
next
  case (Cons p ps)
  obtain vars w where st: "st = (vars, w)" by (cases st)
  let ?st1 = "export_product env N (vars, w) p"
  have e: "embed_all env (map embedding_text (p # ps)) (embed_calls w)
      = embed_all env [embedding_text p] (embed_calls w)
        @ embed_all env (map embedding_text ps) (calls_after env [embedding_text p] (embed_calls w))"
    using embed_all_append [of env "[embedding_text p]" "map embedding_text ps"] by simp
  have l: "length [p] = length (embed_all env [embedding_text p] (embed_calls w))"
    by (simp del: embed_all.simps add: length_embed_all)
  have "map2 attach (p # ps) (embed_all env (map embedding_text (p # ps)) (embed_calls w))
      = map2 attach [p] (embed_all env [embedding_text p] (embed_calls w))
        @ map2 attach ps (embed_all env (map embedding_text ps)
                            (calls_after env [embedding_text p] (embed_calls w)))"
    using zip_attach_append [OF l, of ps] e by simp
  with Cons.IH [of ?st1] st show ?case
    by (simp add: export_product_products export_product_calls)
qed

lemma embed_all_Cons:
  "embed_all env (t # ts) n
     = embed_all env [t] n @ embed_all env ts (calls_after env [t] n)"
  using embed_all_append [of env "[t]" ts n] by simp

lemma fold_export_success:
  "successCount (fst (foldl (export_product env N) st ps))
     = successCount (fst st)
       + length (filter succeeded (embed_all env (map embedding_text ps) (embed_calls (snd st))))"
proof (induction ps arbitrary: st)
  case Nil
  show ?case by simp
next
  case (Cons p ps)
  obtain vars w where st: "st = (vars, w)" by (cases st)
  let ?st1 = "export_product env N (vars, w) p"
  have "length (filter succeeded (embed_all env (map embedding_text (p # ps)) (embed_calls w)))
      = length (filter succeeded (embed_all env [embedding_text p] (embed_calls w)))
        + length (filter succeeded (embed_all env (map embedding_text ps)
                    (calls_after env [embedding_text p] (embed_calls w))))"
    by (simp only: list.map embed_all_Cons [of env "embedding_text p" "map embedding_text ps"]
          filter_append length_append)
  with Cons.IH [of ?st1] st show ?case
    by (simp add: export_product_success export_product_calls del: embed_all.simps calls_after.simps)
qed

lemma fold_export_fail:
  "failCount (fst (foldl (export_product env N) st ps))
     = failCount (fst st)
       + length (filter (\<lambda>r. \<not> succeeded r)
                   (embed_all env (map embedding_text ps) (embed_calls (snd st))))"
proof (induction ps arbitrary: st)
  case Nil
  show ?case by simp
next
  case (Cons p ps)
  obtain vars w where st: "st = (vars, w)" by (cases st)
  let ?st1 = "export_product env N (vars, w) p"
  have "length (filter (\<lambda>r. \<not> succeeded r) (embed_all env (map embedding_text (p # ps)) (embed_calls w)))
      = length (filter (\<lambda>r. \<not> succeeded r) (embed_all env [embedding_text p] (embed_calls w)))
        + length (filter (\<lambda>r. \<not> succeeded r) (embed_all env (map embedding_text ps)
                    (calls_after env [embedding_text p] (embed_calls w))))"
    by (simp only: list.map embed_all_Cons [of env "embedding_text p" "map embedding_text ps"]
          filter_append length_append)
  with Cons.IH [of ?st1] st show ?case
    by (simp add: export_product_fail export_product_calls del: embed_all.simps calls_after.simps)
qed

lemma drop_batch: "drop i ps = take b (drop i ps) @ drop (i + b) ps"
proof -
  have "take b (drop i ps) @ drop b (drop i ps) = drop i ps" by (rule append_take_drop_id)
  moreover have "drop b (drop i ps) = drop (i + b) ps" by (simp add: add.commute)
  ultimately show ?thesis by metis
qed

lemma export_pause_keeps:
  "embed_calls (export_pause i n w) = embed_calls w"
  "file_writes (export_pause i n w) = file_writes w"
  by (simp_all add: export_pause_def setTimeout_def log_def)

lemma export_batch_calls:
  "embed_calls (snd (export_batch env ps i st))
     = calls_after env (map embedding_text (take export_BATCH_SIZE (drop i ps))) (embed_calls (snd st))"
  by (simp add: export_batch_def Let_def export_pause_keeps fold_export_calls)

lemma export_batch_writes:
  "file_writes (snd (export_batch env ps i st)) = file_writes (snd st)"
  by (simp add: export_batch_def Let_def export_pause_keeps fold_export_writes)

lemma export_batch_products:
  "productsWithEmbeddings (fst (export_batch env ps i st))
     = productsWithEmbeddings (fst st)
       @ map2 attach (take export_BATCH_SIZE (drop i ps))
           (embed_all env (map embedding_text (take export_BATCH_SIZE (drop i ps))) (embed_calls (snd st)))"
  by (simp add: export_batch_def Let_def fold_export_products)

lemma export_batch_success:
  "successCount (fst (export_batch env ps i st))
     = successCount (fst st)
       + length (filter succeeded
           (embed_all env (map embedding_text (take export_BATCH_SIZE (drop i ps))) (embed_calls (snd st))))"
  by (simp add: export_batch_def Let_def fold_export_success)

lemma export_batch_fail:
  "failCount (fst (export_batch env ps i st))
     = failCount (fst st)
       + length (filter (\<lambda>r. \<not> succeeded r)
           (embed_all env (map embedding_text (take export_BATCH_SIZE (drop i ps))) (embed_calls (snd st))))"
  by (simp add: export_batch_def Let_def fold_export_fail)

lemma export_batches_more:
  "i < length ps \<Longrightarrow>
   export_batches env ps i st = export_batches env ps (i + export_BATCH_SIZE) (export_batch env ps i st)"
  by (subst export_batches.simps) simp

lemma export_batches_done: "\<not> i < length ps \<Longrightarrow> export_batches env ps i st = st"
  by (subst export_batches.simps) simp

lemma texts_split:
  "map embedding_text (drop i ps)
     = map embedding_text (take b (drop i ps)) @ map embedding_text (drop (i + b) ps)"
  using drop_batch [of i ps b] by (metis map_append)

lemma export_batches_calls:
  "embed_calls (snd (export_batches env ps i st))
     = calls_after env (map embedding_text (drop i ps)) (embed_calls (snd st))"
proof (induction env ps i st rule: export_batches.induct)
  case (1 env ps i st)
  show ?case
  proof (cases "i < length ps")
    case False
    then show ?thesis by (simp add: export_batches_done)
  next
    case True
    have "calls_after env (map embedding_text (drop i ps)) (embed_calls (snd st))
        = calls_after env (map embedding_text (drop (i + export_BATCH_SIZE) ps))
            (embed_calls (snd (export_batch env ps i st)))"
      by (simp only: texts_split [of i ps export_BATCH_SIZE] calls_after_append export_batch_calls)
    with "1.IH" [OF True] True show ?thesis by (simp add: export_batches_more)
  qed
qed

lemma export_batches_writes:
  "file_writes (snd (export_batches env ps i st)) = file_writes (snd st)"
proof (induction env ps i st rule: export_batches.induct)
  case (1 env ps i st)
  show ?case
  proof (cases "i < length ps")
    case False
    then show ?thesis by (simp add: export_batches_done)
  next
    case True
    with "1.IH" [OF True] show ?thesis by (simp add: export_batches_more export_batch_writes)
  qed
qed

lemma attach_split:
  "map2 attach (xs @ ys) (embed_all env (map embedding_text (xs @ ys)) n)
     = map2 attach xs (embed_all env (map embedding_text xs) n)
       @ map2 attach ys (embed_all env (map embedding_text ys)
                           (calls_after env (map embedding_text xs) n))"
  by (simp add: embed_all_append length_embed_all)

lemma count_split:
  "length (filter P (embed_all env (map embedding_text (xs @ ys)) n))
     = length (filter P (embed_all env (map embedding_text xs) n))
       + length (filter P (embed_all env (map embedding_text ys)
                           (calls_after env (map embedding_text xs) n)))"
  by (simp add: embed_all_append)

lemma export_batches_products:
  "productsWithEmbeddings (fst (export_batches env ps i st))
     = productsWithEmbeddings (fst st)
       @ map2 attach (drop i ps) (embed_all env (map embedding_text (drop i ps)) (embed_calls (snd st)))"
proof (induction env ps i st rule: export_batches.induct)
  case (1 env ps i st)
  show ?case
  proof (cases "i < length ps")
    case False
    then show ?thesis by (simp add: export_batches_done)
  next
    case True
    let ?b = "take export_BATCH_SIZE (drop i ps)"
    let ?r = "drop (i + export_BATCH_SIZE) ps"
    have d: "drop i ps = ?b @ ?r" by (rule drop_batch)
    have "map2 attach (drop i ps) (embed_all env (map embedding_text (drop i ps)) (embed_calls (snd st)))
        = map2 attach ?b (embed_all env (map embedding_text ?b) (embed_calls (snd st)))
          @ map2 attach ?r (embed_all env (map embedding_text ?r)
                              (embed_calls (snd (export_batch env ps i st))))"
      using attach_split [of ?b ?r env "embed_calls (snd st)"] d
      by (simp only: export_batch_calls)
    with "1.IH" [OF True] True show ?thesis
      by (simp add: export_batches_more export_batch_products)
  qed
qed

lemma export_batches_success:
  "successCount (fst (export_batches env ps i st))
     = successCount (fst st)
       + length (filter succeeded (embed_all env (map embedding_text (drop i ps)) (embed_calls (snd st))))"
proof (induction env ps i st rule: export_batches.induct)
  case (1 env ps i st)
  show ?case
  proof (cases "i < length ps")
    case False
    then show ?thesis by (simp add: export_batches_done)
  next
    case True
    let ?b = "take export_BATCH_SIZE (drop i ps)"
    let ?r = "drop (i + export_BATCH_SIZE) ps"
    have d: "drop i ps = ?b @ ?r" by (rule drop_batch)
    have "length (filter succeeded (embed_all env (map embedding_text (drop i ps)) (embed_calls (snd st))))
        = length (filter succeeded (embed_all env (map embedding_text ?b) (embed_calls (snd st))))
          + length (filter succeeded (embed_all env (map embedding_text ?r)
                              (embed_calls (snd (export_batch env ps i st)))))"
      using count_split [of succeeded env ?b ?r "embed_calls (snd st)"] d
      by (simp only: export_batch_calls)
    with "1.IH" [OF True] True show ?thesis
      by (simp add: export_batches_more export_batch_success)
  qed
qed

lemma export_batches_fail:
  "failCount (fst (export_batches env ps i st))
     = failCount (fst st)
       + length (filter (\<lambda>r. \<not> succeeded r)
           (embed_all env (map embedding_text (drop i ps)) (embed_calls (snd st))))"
proof (induction env ps i st rule: export_batches.induct)
  case (1 env ps i st)
  show ?case
  proof (cases "i < length ps")
    case False
    then show ?thesis by (simp add: export_batches_done)
  next
    case True
    let ?b = "take export_BATCH_SIZE (drop i ps)"
    let ?r = "drop (i + export_BATCH_SIZE) ps"
    have d: "drop i ps = ?b @ ?r" by (rule drop_batch)
    have "length (filter (\<lambda>r. \<not> succeeded r) (embed_all env (map embedding_text (drop i ps)) (embed_calls (snd st))))
        = length (filter (\<lambda>r. \<not> succeeded r) (embed_all env (map embedding_text ?b) (embed_calls (snd st))))
          + length (filter (\<lambda>r. \<not> succeeded r) (embed_all env (map embedding_text ?r)
                              (embed_calls (snd (export_batch env ps i st)))))"
      using count_split [of "\<lambda>r. \<not> succeeded r" env ?b ?r "embed_calls (snd st)"] d
      by (simp only: export_batch_calls)
    with "1.IH" [OF True] True show ?thesis
      by (simp add: export_batches_more export_batch_fail)
  qed
qed

lemma log_keeps:
  "embed_calls (log l w) = embed_calls w"
  "file_writes (log l w) = file_writes w"
  "items (log l w) = items w"
  "timers (log l w) = timers w"
  "console (log l w) = console w @ [l]"
  by (simp_all add: log_def)

lemma exportToJson_run:
  assumes "env_set (GOOGLE_API_KEY env)" and "sqlite_rows env = Inr rows" and "rows \<noteq> []"
    and "map_throwing (transformProduct rt) rows = Inr ps"
    and "model_fault env = None" and "write_fault env = None" and "stat_fault env = None"
  shows "exportToJson rt env w =
    (let st = export_batches env ps 0
                (\<lparr>productsWithEmbeddings = [], successCount = 0, failCount = 0\<rparr>,
                 log (Transformed (length ps)) w)
     in (Inr (),
         log (ExportSummary (successCount (fst st)) (failCount (fst st)))
           (log Exported
              ((snd st)\<lparr>file_writes := file_writes (snd st) @ [productsWithEmbeddings (fst st)]\<rparr>))))"
  using assms by (simp add: exportToJson_def Let_def)

lemma exportToJson_throws:
  assumes "env_set (GOOGLE_API_KEY env)" and "sqlite_rows env = Inr rows" and "rows \<noteq> []"
    and "map_throwing (transformProduct rt) rows = Inl e"
  shows "exportToJson rt env w = (Inl e, log ExportFailed w)"
  using assms by (simp add: exportToJson_def Let_def)

lemma map_throwing_Inr:
  "map_throwing f xs = Inr ys \<Longrightarrow>
   length ys = length xs \<and> (\<forall>i < length xs. f (xs ! i) = Inr (ys ! i))"
proof (induction xs arbitrary: ys)
  case Nil
  then show ?case by simp
next
  case (Cons x xs)
  from Cons.prems obtain y zs where x: "f x = Inr y" and zs: "map_throwing f xs = Inr zs"
      and ys: "ys = y # zs"
    by (auto split: sum.splits)
  from Cons.IH [OF zs] x ys show ?case by (auto simp: nth_Cons split: nat.splits)
qed

lemma map_throwing_Inl:
  "(\<exists>e. map_throwing f xs = Inl e) \<longleftrightarrow> (\<exists>x \<in> set xs. \<exists>e. f x = Inl e)"
  by (induction xs) (auto split: sum.splits)

lemma map_throwing_Inl_from:
  "map_throwing f xs = Inl e \<Longrightarrow> \<exists>x \<in> set xs. f x = Inl e"
  by (induction xs) (auto split: sum.splits)

lemma transformProduct_Inl:
  "(\<exists>e. transformProduct rt p = Inl e)
     \<longleftrightarrow> (\<exists>x \<in> set (parse_tags rt (SQLiteProduct.tags p)). unprintable x)"
proof (cases "printed_tags rt (parse_tags rt (SQLiteProduct.tags p))")
  case None
  with transformProduct_throws [OF None] show ?thesis by (simp add: printed_tags_None)
next
  case (Some texts)
  from transformProduct_returns [OF Some] have "\<not> (\<exists>e. transformProduct rt p = Inl e)" by auto
  moreover from Some have "\<not> (\<exists>x \<in> set (parse_tags rt (SQLiteProduct.tags p)). unprintable x)"
    using printed_tags_None [of rt "parse_tags rt (SQLiteProduct.tags p)"] by simp
  ultimately show ?thesis by simp
qed

lemma transformProduct_Inl_TypeError: "transformProduct rt p = Inl e \<Longrightarrow> e = TypeError"
  by (cases "printed_tags rt (parse_tags rt (SQLiteProduct.tags p))")
     (auto dest: transformProduct_throws transformProduct_returns)

lemma exportToJson_written:
  assumes "env_set (GOOGLE_API_KEY env)" and "sqlite_rows env = Inr rows" and "rows \<noteq> []"
    and "map_throwing (transformProduct rt) rows = Inr ps"
    and "model_fault env = None" and "write_fault env = None"
  shows "file_writes (snd (exportToJson rt env w))
       = file_writes w @ [map2 attach ps (embed_all env (map embedding_text ps) (embed_calls w))]"
proof -
  let ?st0 = "(\<lparr>productsWithEmbeddings = [], successCount = 0, failCount = 0\<rparr>,
                 log (Transformed (length ps)) w)"
  let ?st = "export_batches env ps 0 ?st0"
  have p: "productsWithEmbeddings (fst ?st)
         = map2 attach ps (embed_all env (map embedding_text ps) (embed_calls w))"
    by (simp add: export_batches_products log_keeps)
  have f: "file_writes (snd ?st) = file_writes w"
    by (simp add: export_batches_writes log_keeps)
  from assms show ?thesis
    by (cases "stat_fault env") (simp_all add: exportToJson_def Let_def log_keeps p f)
qed

text \<open>
  Claim C10, as stated, fails: when the tags field of the only extracted row is
  \<^verbatim>\<open>[{"toString": 1}]\<close>, the transformation throws, the run logs the failure and
  rejects with the \<^verbatim>\<open>TypeError\<close>, and no file is written: the output has no entry
  for the extracted row.
\<close>

theorem export_fails_on_unprintable_tag:
  "sqlite_rows unprintable_env = Inr [unprintable_row]
   \<and> exportToJson literal_runtime unprintable_env (initial_world [] [])
       = (Inl TypeError, log ExportFailed (initial_world [] []))
   \<and> file_writes (snd (exportToJson literal_runtime unprintable_env (initial_world [] []))) = []"
proof -
  have h: "env_set (GOOGLE_API_KEY unprintable_env)"
    "sqlite_rows unprintable_env = Inr [unprintable_row]"
    by (simp_all add: unprintable_env_def scenario_env_def env_set_def js_def)
  have t: "map_throwing (transformProduct literal_runtime) [unprintable_row] = Inl TypeError"
    by (simp add: unprintable_row_throws)
  have "exportToJson literal_runtime unprintable_env (initial_world [] [])
       = (Inl TypeError, log ExportFailed (initial_world [] []))"
    by (rule exportToJson_throws [OF h _ t]) simp
  with h show ?thesis by (simp add: log_keeps initial_world_def)
qed

text \<open>
  Claim C10, amended. Take a run of the export with the key set, at least one extracted
  row, a model that can be created and a write that succeeds. When every row can be
  transformed, which is when no row has an unprintable tag, the sequence written to the
  file has one entry per extracted row, in the order of extraction; the entry of a row is
  the transformed row, with the embedding added when the embedding call of that row
  succeeded and as the transformer left it (without embedding) when the call failed.
  When some row has an unprintable tag, the run rejects with a \<^verbatim>\<open>TypeError\<close> after
  logging the failure, without any call to the provider and without writing a file.
\<close>

theorem export_output_sequence:
  assumes "env_set (GOOGLE_API_KEY env)" and "sqlite_rows env = Inr rows" and "rows \<noteq> []"
    and "model_fault env = None" and "write_fault env = None"
  shows "(\<forall>ps. map_throwing (transformProduct rt) rows = Inr ps \<longrightarrow>
            file_writes (snd (exportToJson rt env w))
              = file_writes w
                @ [map2 attach ps (embed_all env (map embedding_text ps) (embed_calls w))]
          \<and> length (map2 attach ps (embed_all env (map embedding_text ps) (embed_calls w)))
              = length rows
          \<and> (\<forall>i < length rows.
                transformProduct rt (rows ! i) = Inr (ps ! i)
              \<and> map2 attach ps (embed_all env (map embedding_text ps) (embed_calls w)) ! i
                = (case embed_all env (map embedding_text ps) (embed_calls w) ! i of
                     Inr emb \<Rightarrow> (ps ! i)\<lparr>embedding := Some emb\<rparr>
                   | Inl e \<Rightarrow> ps ! i)))
       \<and> (\<forall>e. map_throwing (transformProduct rt) rows = Inl e \<longrightarrow>
            e = TypeError
          \<and> exportToJson rt env w = (Inl e, log ExportFailed w)
          \<and> file_writes (snd (exportToJson rt env w)) = file_writes w
          \<and> embed_calls (snd (exportToJson rt env w)) = embed_calls w)
       \<and> ((\<exists>e. map_throwing (transformProduct rt) rows = Inl e)
            \<longleftrightarrow> (\<exists>r \<in> set rows. \<exists>x \<in> set (parse_tags rt (SQLiteProduct.tags r)). unprintable x))
       \<and> ((\<exists>ps. map_throwing (transformProduct rt) rows = Inr ps)
            \<longleftrightarrow> \<not> (\<exists>r \<in> set rows. \<exists>x \<in> set (parse_tags rt (SQLiteProduct.tags r)). unprintable x))"
proof -
  have 1: "file_writes (snd (exportToJson rt env w))
              = file_writes w
                @ [map2 attach ps (embed_all env (map embedding_text ps) (embed_calls w))]
          \<and> length (map2 attach ps (embed_all env (map embedding_text ps) (embed_calls w)))
              = length rows
          \<and> (\<forall>i < length rows.
                transformProduct rt (rows ! i) = Inr (ps ! i)
              \<and> map2 attach ps (embed_all env (map embedding_text ps) (embed_calls w)) ! i
                = (case embed_all env (map embedding_text ps) (embed_calls w) ! i of
                     Inr emb \<Rightarrow> (ps ! i)\<lparr>embedding := Some emb\<rparr>
                   | Inl e \<Rightarrow> ps ! i))"
    if t: "map_throwing (transformProduct rt) rows = Inr ps" for ps
  proof -
    let ?rs = "embed_all env (map embedding_text ps) (embed_calls w)"
    from map_throwing_Inr [OF t]
    have l: "length ps = length rows"
      and n: "\<forall>i < length rows. transformProduct rt (rows ! i) = Inr (ps ! i)" by simp_all
    have a: "file_writes (snd (exportToJson rt env w)) = file_writes w @ [map2 attach ps ?rs]"
      by (rule exportToJson_written [OF assms(1-3) t assms(4,5)])
    have b: "length (map2 attach ps ?rs) = length rows"
      by (simp add: length_embed_all l)
    have c: "\<forall>i < length rows. map2 attach ps ?rs ! i
              = (case ?rs ! i of Inr emb \<Rightarrow> (ps ! i)\<lparr>embedding := Some emb\<rparr> | Inl e \<Rightarrow> ps ! i)"
      by (simp add: length_embed_all l attach_def)
    from a b c n show ?thesis by blast
  qed
  have 2: "e = TypeError \<and> exportToJson rt env w = (Inl e, log ExportFailed w)
          \<and> file_writes (snd (exportToJson rt env w)) = file_writes w
          \<and> embed_calls (snd (exportToJson rt env w)) = embed_calls w"
    if t: "map_throwing (transformProduct rt) rows = Inl e" for e
  proof -
    from map_throwing_Inl_from [OF t] have "e = TypeError"
      by (auto dest: transformProduct_Inl_TypeError)
    with exportToJson_throws [OF assms(1-3) t, of w] show ?thesis by (simp add: log_keeps)
  qed
  have 3: "(\<exists>e. map_throwing (transformProduct rt) rows = Inl e)
            \<longleftrightarrow> (\<exists>r \<in> set rows. \<exists>x \<in> set (parse_tags rt (SQLiteProduct.tags r)). unprintable x)"
    by (simp only: map_throwing_Inl transformProduct_Inl)
  have 4: "(\<exists>ps. map_throwing (transformProduct rt) rows = Inr ps)
            \<longleftrightarrow> \<not> (\<exists>e. map_throwing (transformProduct rt) rows = Inl e)"
    by (cases "map_throwing (transformProduct rt) rows") simp_all
  from 1 2 3 4 show ?thesis by blast
qed

lemma transform_rows:
  "map_throwing (transformProduct literal_runtime) three_rows
     = Inr [doc ''A'' ''Mug'', doc ''B'' ''Cup'', doc ''C'' ''Jar'']"
  by (simp add: three_rows_def transformProduct_def parse_tags_def generateEmbeddingText_def
        row_def doc_def literal_runtime_def or_empty_def trim_def js_whitespace_def js_def)

lemma scenario_results:
  "embed_all scenario_env (map embedding_text [doc ''A'' ''Mug'', doc ''B'' ''Cup'', doc ''C'' ''Jar'']) 0
     = [Inr unit_vector, Inl (Thrown bad_request), Inr unit_vector]"
  by (simp add: doc_def scenario_env_def retryWithBackoff_def retry_loop.simps bad_request_def js_def)

lemma scenario_hyps:
  "env_set (GOOGLE_API_KEY scenario_env)" "sqlite_rows scenario_env = Inr three_rows"
  "three_rows \<noteq> []" "model_fault scenario_env = None" "write_fault scenario_env = None"
  "stat_fault scenario_env = None"
  "env_set (MONGODB_ATLAS_URI scenario_env)"
  by (simp_all add: scenario_env_def env_set_def three_rows_def js_def)

lemma unprintable_hyps:
  "env_set (GOOGLE_API_KEY unprintable_env)" "sqlite_rows unprintable_env = Inr [unprintable_row]"
  "[unprintable_row] \<noteq> []" "model_fault unprintable_env = None"
  "write_fault unprintable_env = None"
  by (simp_all add: unprintable_env_def scenario_env_def env_set_def js_def)

theorem export_output_sequence_witness:
  "env_set (GOOGLE_API_KEY scenario_env) \<and> sqlite_rows scenario_env = Inr three_rows
   \<and> three_rows \<noteq> [] \<and> model_fault scenario_env = None \<and> write_fault scenario_env = None
   \<and> file_writes (snd (exportToJson literal_runtime scenario_env (initial_world [] [])))
       = [[(doc ''A'' ''Mug'')\<lparr>embedding := Some unit_vector\<rparr>, doc ''B'' ''Cup'',
           (doc ''C'' ''Jar'')\<lparr>embedding := Some unit_vector\<rparr>]]
   \<and> env_set (GOOGLE_API_KEY unprintable_env)
   \<and> sqlite_rows unprintable_env = Inr [unprintable_row]
   \<and> model_fault unprintable_env = None \<and> write_fault unprintable_env = None
   \<and> (\<exists>r \<in> set [unprintable_row].
         \<exists>x \<in> set (parse_tags literal_runtime (SQLiteProduct.tags r)). unprintable x)
   \<and> fst (exportToJson literal_runtime unprintable_env (initial_world [] [])) = Inl TypeError
   \<and> file_writes (snd (exportToJson literal_runtime unprintable_env (initial_world [] []))) = []"
proof -
  have z: "embed_calls (initial_world [] [] :: js_string world) = 0"
          "file_writes (initial_world [] [] :: js_string world) = []"
    by (simp_all add: initial_world_def)
  note s = export_output_sequence [OF scenario_hyps(1-5), of literal_runtime "initial_world [] []"]
  note u = export_output_sequence [OF unprintable_hyps, of literal_runtime "initial_world [] []"]
  from s [THEN conjunct1, rule_format, OF transform_rows, THEN conjunct1]
  have "file_writes (snd (exportToJson literal_runtime scenario_env (initial_world [] [])))
       = [map2 attach [doc ''A'' ''Mug'', doc ''B'' ''Cup'', doc ''C'' ''Jar'']
            [Inr unit_vector, Inl (Thrown bad_request), Inr unit_vector]]"
    by (simp only: z scenario_results append_Nil)
  then have 1: "file_writes (snd (exportToJson literal_runtime scenario_env (initial_world [] [])))
       = [[(doc ''A'' ''Mug'')\<lparr>embedding := Some unit_vector\<rparr>, doc ''B'' ''Cup'',
           (doc ''C'' ''Jar'')\<lparr>embedding := Some unit_vector\<rparr>]]"
    by (simp add: attach_def)
  have 2: "\<exists>r \<in> set [unprintable_row].
         \<exists>x \<in> set (parse_tags literal_runtime (SQLiteProduct.tags r)). unprintable x"
    by (simp add: unprintable_row_tags)
  with u [THEN conjunct2, THEN conjunct2, THEN conjunct1]
  obtain e where e: "map_throwing (transformProduct literal_runtime) [unprintable_row] = Inl e"
    by blast
  note f = u [THEN conjunct2, THEN conjunct1, rule_format, OF e]
  from f [THEN conjunct1] f [THEN conjunct2, THEN conjunct1]
  have 3: "fst (exportToJson literal_runtime unprintable_env (initial_world [] [])) = Inl TypeError"
    by simp
  from f [THEN conjunct2, THEN conjunct2, THEN conjunct1]
  have 4: "file_writes (snd (exportToJson literal_runtime unprintable_env (initial_world [] []))) = []"
    by (simp only: z)
  from 1 2 3 4 scenario_hyps(1-5) unprintable_hyps show ?thesis by blast
qed

text \<open>
  Claim C7, as stated, fails: a run that extracts no row ends successfully after the one
  line \<^verbatim>\<open>No products found. Exiting.\<close>, without any summary.
\<close>

theorem empty_export_prints_no_summary:
  "fst (exportToJson literal_runtime empty_env (initial_world [] [])) = Inr ()
   \<and> console (snd (exportToJson literal_runtime empty_env (initial_world [] []))) = [NoProductsFound]"
  by (simp add: exportToJson_def empty_env_def scenario_env_def env_set_def initial_world_def log_def
        js_def)

text \<open>
  Claim C7, amended. When the export extracts at least one row, transforms every row,
  creates the model, writes the file and reads its size, the run succeeds and its last
  console line is the summary: the number of rows whose embedding call succeeded and the
  number of rows whose call failed. The two numbers add up to the number of extracted
  rows. When the outcomes of three rows are success, failure, success, the summary is
  2 and 1.
\<close>

theorem export_summary_counts:
  assumes "env_set (GOOGLE_API_KEY env)" and "sqlite_rows env = Inr rows" and "rows \<noteq> []"
    and "map_throwing (transformProduct rt) rows = Inr ps"
    and "model_fault env = None" and "write_fault env = None" and "stat_fault env = None"
  shows "fst (exportToJson rt env w) = Inr ()
       \<and> last (console (snd (exportToJson rt env w)))
           = ExportSummary
               (length (filter succeeded (embed_all env (map embedding_text ps) (embed_calls w))))
               (length (filter (\<lambda>r. \<not> succeeded r)
                  (embed_all env (map embedding_text ps) (embed_calls w))))
       \<and> length (filter succeeded (embed_all env (map embedding_text ps) (embed_calls w)))
         + length (filter (\<lambda>r. \<not> succeeded r)
                  (embed_all env (map embedding_text ps) (embed_calls w)))
         = length rows
       \<and> (\<forall>u e v. embed_all env (map embedding_text ps) (embed_calls w)
                     = [Inr u, Inl e, Inr v] \<longrightarrow>
            last (console (snd (exportToJson rt env w))) = ExportSummary 2 1)"
proof -
  let ?rs = "embed_all env (map embedding_text ps) (embed_calls w)"
  let ?st0 = "(\<lparr>productsWithEmbeddings = [], successCount = 0, failCount = 0\<rparr>,
                 log (Transformed (length ps)) w)"
  let ?st = "export_batches env ps 0 ?st0"
  have l: "length ps = length rows" using map_throwing_Inr [OF assms(4)] by simp
  have s: "successCount (fst ?st) = length (filter succeeded ?rs)"
    by (simp add: export_batches_success log_keeps)
  have f: "failCount (fst ?st) = length (filter (\<lambda>r. \<not> succeeded r) ?rs)"
    by (simp add: export_batches_fail log_keeps)
  have 1: "fst (exportToJson rt env w) = Inr ()"
    by (simp add: exportToJson_run [OF assms] Let_def)
  have 2: "last (console (snd (exportToJson rt env w)))
         = ExportSummary (length (filter succeeded ?rs)) (length (filter (\<lambda>r. \<not> succeeded r) ?rs))"
    by (simp add: exportToJson_run [OF assms] Let_def log_keeps s f)
  have "length (filter succeeded ?rs) + length (filter (\<lambda>r. \<not> succeeded r) ?rs) = length ?rs"
    by (rule sum_length_filter_compl)
  then have 3: "length (filter succeeded ?rs) + length (filter (\<lambda>r. \<not> succeeded r) ?rs) = length rows"
    by (simp add: length_embed_all l)
  have 4: "\<forall>u e v. ?rs = [Inr u, Inl e, Inr v] \<longrightarrow>
            last (console (snd (exportToJson rt env w))) = ExportSummary 2 1"
    using 2 by (auto simp: succeeded_def)
  from 1 2 3 4 show ?thesis by blast
qed

theorem export_summary_counts_witness:
  "env_set (GOOGLE_API_KEY scenario_env) \<and> sqlite_rows scenario_env = Inr three_rows
   \<and> three_rows \<noteq> []
   \<and> map_throwing (transformProduct literal_runtime) three_rows
       = Inr [doc ''A'' ''Mug'', doc ''B'' ''Cup'', doc ''C'' ''Jar'']
   \<and> model_fault scenario_env = None \<and> write_fault scenario_env = None
   \<and> stat_fault scenario_env = None
   \<and> embed_all scenario_env (map embedding_text [doc ''A'' ''Mug'', doc ''B'' ''Cup'', doc ''C'' ''Jar'']) 0
       = [Inr unit_vector, Inl (Thrown bad_request), Inr unit_vector]
   \<and> fst (exportToJson literal_runtime scenario_env (initial_world [] [])) = Inr ()
   \<and> last (console (snd (exportToJson literal_runtime scenario_env (initial_world [] []))))
       = ExportSummary 2 1"
proof -
  have z: "embed_calls (initial_world [] [] :: js_string world) = 0"
    by (simp add: initial_world_def)
  have r: "embed_all scenario_env (map embedding_text [doc ''A'' ''Mug'', doc ''B'' ''Cup'', doc ''C'' ''Jar''])
             (embed_calls (initial_world [] [] :: js_string world))
       = [Inr unit_vector, Inl (Thrown bad_request), Inr unit_vector]"
    by (simp only: z scenario_results)
  note t = export_summary_counts [OF scenario_hyps(1-3) transform_rows scenario_hyps(4-6),
      of "initial_world [] []"]
  from t r
  have "last (console (snd (exportToJson literal_runtime scenario_env (initial_world [] []))))
       = ExportSummary 2 1" by blast
  moreover from t have "fst (exportToJson literal_runtime scenario_env (initial_world [] [])) = Inr ()"
    by blast
  ultimately show ?thesis using r z scenario_hyps(1-6) transform_rows by simp
qed

text \<open>
  Claim C8. When the extraction gives no row, both scripts log that no products were
  found and end successfully at once: no call to the embedding provider is made, nothing
  is written to the output file, and the collection is left as it was.
\<close>

theorem empty_extraction_stops_run:
  assumes "sqlite_rows env = Inr []"
  shows "(env_set (GOOGLE_API_KEY env) \<longrightarrow>
            exportToJson rt env w = (Inr (), log NoProductsFound w)
          \<and> embed_calls (snd (exportToJson rt env w)) = embed_calls w
          \<and> file_writes (snd (exportToJson rt env w)) = file_writes w)
       \<and> (env_set (MONGODB_ATLAS_URI env) \<and> env_set (GOOGLE_API_KEY env) \<longrightarrow>
            migrate rt env w = (Inr (), log NoProductsFound w)
          \<and> embed_calls (snd (migrate rt env w)) = embed_calls w
          \<and> file_writes (snd (migrate rt env w)) = file_writes w
          \<and> items (snd (migrate rt env w)) = items w)"
  using assms by (simp add: exportToJson_def migrate_def log_keeps)

theorem empty_extraction_stops_run_witness:
  "sqlite_rows empty_env = Inr [] \<and> env_set (GOOGLE_API_KEY empty_env)
   \<and> env_set (MONGODB_ATLAS_URI empty_env)
   \<and> exportToJson literal_runtime empty_env (initial_world [] []) = (Inr (), log NoProductsFound (initial_world [] []))
   \<and> embed_calls (snd (exportToJson literal_runtime empty_env (initial_world [] []))) = 0
   \<and> file_writes (snd (exportToJson literal_runtime empty_env (initial_world [] []))) = []
   \<and> migrate literal_runtime empty_env (initial_world [] []) = (Inr (), log NoProductsFound (initial_world [] []))
   \<and> embed_calls (snd (migrate literal_runtime empty_env (initial_world [] []))) = 0"
proof -
  have h: "sqlite_rows empty_env = Inr []" "env_set (GOOGLE_API_KEY empty_env)"
    "env_set (MONGODB_ATLAS_URI empty_env)"
    by (simp_all add: empty_env_def scenario_env_def env_set_def js_def)
  have z: "embed_calls (initial_world [] [] :: js_string world) = 0"
          "file_writes (initial_world [] [] :: js_string world) = []"
    by (simp_all add: initial_world_def)
  from empty_extraction_stops_run [OF h(1), of literal_runtime "initial_world [] []"] h z show ?thesis
    by (simp add: log_keeps)
qed

section \<open>Properties of the migration script\<close>

lemma length_insert_faults: "length (insert_faults env ps k held) = length ps"
  by (induction ps arbitrary: k held) (auto split: option.splits)

lemma fold_insert_calls:
  "insert_calls (snd (foldl (insert_step env) st ps)) = insert_calls (snd st) + length ps"
proof (induction ps arbitrary: st)
  case Nil
  show ?case by simp
next
  case (Cons p ps)
  obtain res w where st: "st = (res, w)" by (cases st)
  have "insert_calls (snd (insert_step env (res, w) p)) = Suc (insert_calls w)"
    by (simp add: insert_step_def log_def split: option.splits)
  with Cons.IH [of "insert_step env (res, w) p"] st show ?case by simp
qed

lemma insert_step_accept:
  "insert_fault env (insert_calls w) (items w) p = None \<Longrightarrow>
   insert_step env (res, w) p =
     (res\<lparr>success := success res + 1\<rparr>,
      log (Inserted (sku p)) (w\<lparr>items := items w @ [p], insert_calls := insert_calls w + 1\<rparr>))"
  by (simp add: insert_step_def)

lemma insert_step_refuse:
  "insert_fault env (insert_calls w) (items w) p = Some e \<Longrightarrow>
   insert_step env (res, w) p =
     (res\<lparr>failed := failed res + 1\<rparr>,
      log (insert_line p (Some e)) (w\<lparr>insert_calls := insert_calls w + 1\<rparr>))"
  by (simp add: insert_step_def insert_line_def)

lemma fold_insert_all:
  "foldl (insert_step env) (res, w) ps = (res', w') \<Longrightarrow>
   success res' = success res
        + length (filter (\<lambda>f. f = None) (insert_faults env ps (insert_calls w) (items w)))
   \<and> failed res' = failed res
        + length (filter (\<lambda>f. f \<noteq> None) (insert_faults env ps (insert_calls w) (items w)))
   \<and> console w' = console w @ map2 insert_line ps (insert_faults env ps (insert_calls w) (items w))
   \<and> items w' = items w @ accepted ps (insert_faults env ps (insert_calls w) (items w))
   \<and> embed_calls w' = embed_calls w \<and> file_writes w' = file_writes w \<and> timers w' = timers w"
proof (induction ps arbitrary: res w)
  case Nil
  then show ?case by (simp add: accepted_def)
next
  case (Cons p ps)
  show ?case
  proof (cases "insert_fault env (insert_calls w) (items w) p")
    case None
    let ?w1 = "log (Inserted (sku p)) (w\<lparr>items := items w @ [p], insert_calls := insert_calls w + 1\<rparr>)"
    from Cons.prems None have
      "foldl (insert_step env) (res\<lparr>success := success res + 1\<rparr>, ?w1) ps = (res', w')"
      by (simp add: insert_step_accept)
    from Cons.IH [OF this] None show ?thesis
      by (simp add: log_def accepted_def insert_line_def)
  next
    case (Some e)
    let ?w1 = "log (insert_line p (Some e)) (w\<lparr>insert_calls := insert_calls w + 1\<rparr>)"
    from Cons.prems Some have
      "foldl (insert_step env) (res\<lparr>failed := failed res + 1\<rparr>, ?w1) ps = (res', w')"
      by (simp add: insert_step_refuse)
    from Cons.IH [OF this] Some show ?thesis
      by (simp add: log_def accepted_def)
  qed
qed

lemma duplicate_or_hard:
  "length (filter (\<lambda>f. f \<noteq> None) fs)
     = length (filter is_duplicate fs) + length (filter is_hard_failure fs)"
  by (induction fs) (auto simp: is_duplicate_def is_hard_failure_def split: option.splits)

lemma unique_sku_faults:
  "insert_faults unique_sku_env two_mugs_and_a_jar 0 [] = [None, Some duplicate_key, None]"
  by (simp add: unique_sku_env_def scenario_env_def two_mugs_and_a_jar_def doc_def js_def)

lemma flaky_store_faults:
  "insert_faults flaky_store_env two_mugs_and_a_jar 0 [] = [None, Some connection_reset, None]"
  by (simp add: flaky_store_env_def scenario_env_def two_mugs_and_a_jar_def)

text \<open>
  Claim C2, as stated, fails: a duplicate-key failure is counted in \<^verbatim>\<open>failed\<close>, the
  only failure counter there is. Three documents are inserted, the second of which is
  refused; whether it is refused as a duplicate (code 11000) or for another reason, the
  counts returned are the same, 2 and 1.
\<close>

theorem duplicate_counted_as_failed:
  "insert_faults unique_sku_env two_mugs_and_a_jar 0 [] = [None, Some duplicate_key, None]
   \<and> code duplicate_key = Some 11000
   \<and> fst (insertProductsToMongo unique_sku_env two_mugs_and_a_jar (initial_world [] []))
       = \<lparr>success = 2, failed = 1\<rparr>
   \<and> insert_faults flaky_store_env two_mugs_and_a_jar 0 [] = [None, Some connection_reset, None]
   \<and> code connection_reset \<noteq> Some 11000
   \<and> fst (insertProductsToMongo flaky_store_env two_mugs_and_a_jar (initial_world [] []))
       = \<lparr>success = 2, failed = 1\<rparr>"
proof -
  have 1: "fst (insertProductsToMongo unique_sku_env two_mugs_and_a_jar (initial_world [] []))
       = \<lparr>success = 2, failed = 1\<rparr>"
    by (simp add: insertProductsToMongo_def insert_step_def unique_sku_env_def scenario_env_def
          two_mugs_and_a_jar_def doc_def initial_world_def log_def duplicate_key_def js_def)
  have 2: "fst (insertProductsToMongo flaky_store_env two_mugs_and_a_jar (initial_world [] []))
       = \<lparr>success = 2, failed = 1\<rparr>"
    by (simp add: insertProductsToMongo_def insert_step_def flaky_store_env_def scenario_env_def
          two_mugs_and_a_jar_def initial_world_def log_def connection_reset_def)
  have 3: "code duplicate_key = Some 11000" "code connection_reset \<noteq> Some 11000"
    by (simp_all add: duplicate_key_def connection_reset_def)
  from 1 2 3 unique_sku_faults flaky_store_faults show ?thesis by blast
qed

text \<open>
  Claim C2, amended. \<^verbatim>\<open>insertProductsToMongo\<close> makes one \<^verbatim>\<open>insertOne\<close> per document,
  whatever fails: the two counts add up to the number of documents. \<^verbatim>\<open>success\<close> counts
  the accepted documents; \<^verbatim>\<open>failed\<close> counts the duplicates and the hard failures
  together. The two are told apart on the console only: a duplicate is logged as skipped,
  a hard failure as failed with its message. The collection gains the accepted documents,
  in order.
\<close>

theorem insert_failures_share_counter:
  "length (insert_faults env ps (insert_calls w) (items w)) = length ps
   \<and> insert_calls (snd (insertProductsToMongo env ps w)) = insert_calls w + length ps
   \<and> success (fst (insertProductsToMongo env ps w))
       = length (filter (\<lambda>f. f = None) (insert_faults env ps (insert_calls w) (items w)))
   \<and> failed (fst (insertProductsToMongo env ps w))
       = length (filter is_duplicate (insert_faults env ps (insert_calls w) (items w)))
         + length (filter is_hard_failure (insert_faults env ps (insert_calls w) (items w)))
   \<and> success (fst (insertProductsToMongo env ps w)) + failed (fst (insertProductsToMongo env ps w))
       = length ps
   \<and> console (snd (insertProductsToMongo env ps w))
       = console w @ map2 insert_line ps (insert_faults env ps (insert_calls w) (items w))
   \<and> items (snd (insertProductsToMongo env ps w))
       = items w @ accepted ps (insert_faults env ps (insert_calls w) (items w))"
proof -
  let ?fs = "insert_faults env ps (insert_calls w) (items w)"
  obtain res' w' where run: "foldl (insert_step env) (\<lparr>success = 0, failed = 0\<rparr>, w) ps = (res', w')"
    by (cases "foldl (insert_step env) (\<lparr>success = 0, failed = 0\<rparr>, w) ps")
  then have r: "insertProductsToMongo env ps w = (res', w')"
    by (simp add: insertProductsToMongo_def)
  note all = fold_insert_all [OF run]
  have 1: "length ?fs = length ps" by (rule length_insert_faults)
  have 2: "insert_calls (snd (insertProductsToMongo env ps w)) = insert_calls w + length ps"
    by (simp add: insertProductsToMongo_def fold_insert_calls)
  have 3: "success res' = length (filter (\<lambda>f. f = None) ?fs)" using all by simp
  have 4: "failed res' = length (filter is_duplicate ?fs) + length (filter is_hard_failure ?fs)"
    using all duplicate_or_hard [of ?fs] by simp
  have "length (filter (\<lambda>f. f = None) ?fs) + length (filter (\<lambda>f. f \<noteq> None) ?fs) = length ?fs"
    by (rule sum_length_filter_compl)
  with all 1 have 5: "success res' + failed res' = length ps" by simp
  have 6: "console w' = console w @ map2 insert_line ps ?fs" using all by simp
  have 7: "items w' = items w @ accepted ps ?fs" using all by simp
  from 1 2 3 4 5 6 7 show ?thesis by (simp add: r)
qed

theorem insert_failures_share_counter_witness:
  "insert_faults unique_sku_env two_mugs_and_a_jar 0 [] = [None, Some duplicate_key, None]
   \<and> failed (fst (insertProductsToMongo unique_sku_env two_mugs_and_a_jar (initial_world [] []))) = 1
   \<and> success (fst (insertProductsToMongo unique_sku_env two_mugs_and_a_jar (initial_world [] []))) = 2
   \<and> console (snd (insertProductsToMongo unique_sku_env two_mugs_and_a_jar (initial_world [] [])))
       = [Inserted (js ''A''), DuplicateSkipped (js ''A''), Inserted (js ''C'')]
   \<and> items (snd (insertProductsToMongo unique_sku_env two_mugs_and_a_jar (initial_world [] [])))
       = [doc ''A'' ''Mug'', doc ''C'' ''Jar'']"
proof -
  have z: "insert_calls (initial_world [] [] :: js_string world) = 0"
    "items (initial_world [] [] :: js_string world) = []"
    "console (initial_world [] [] :: js_string world) = []"
    by (simp_all add: initial_world_def)
  note t = insert_failures_share_counter [of unique_sku_env two_mugs_and_a_jar "initial_world [] []"]
  have f: "insert_faults unique_sku_env two_mugs_and_a_jar
             (insert_calls (initial_world [] [] :: js_string world))
             (items (initial_world [] [] :: js_string world)) = [None, Some duplicate_key, None]"
    by (simp only: z unique_sku_faults)
  have d: "is_duplicate (Some duplicate_key)" "\<not> is_hard_failure (Some duplicate_key)"
    "\<not> is_duplicate None" "\<not> is_hard_failure None"
    by (simp_all add: is_duplicate_def is_hard_failure_def duplicate_key_def)
  have l: "map2 insert_line two_mugs_and_a_jar [None, Some duplicate_key, None]
         = [Inserted (js ''A''), DuplicateSkipped (js ''A''), Inserted (js ''C'')]"
    by (simp add: two_mugs_and_a_jar_def insert_line_def doc_def duplicate_key_def js_def)
  have a: "accepted two_mugs_and_a_jar [None, Some duplicate_key, None]
         = [doc ''A'' ''Mug'', doc ''C'' ''Jar'']"
    by (simp add: two_mugs_and_a_jar_def accepted_def)
  from t show ?thesis
    unfolding f by (simp add: d l a z unique_sku_faults)
qed

lemma embedded_Cons:
  "embedded (p # ps) (r # rs)
     = (case r of Inr emb \<Rightarrow> [p\<lparr>embedding := Some emb\<rparr>] | Inl e \<Rightarrow> []) @ embedded ps rs"
  by (simp add: embedded_def)

lemma fold_embed_all:
  "foldl (embed_step env) (acc, w) ps = (acc', w') \<Longrightarrow>
   acc' = acc @ embedded ps (embed_all env (map embedding_text ps) (embed_calls w))
   \<and> embed_calls w' = calls_after env (map embedding_text ps) (embed_calls w)
   \<and> items w' = items w \<and> insert_calls w' = insert_calls w \<and> file_writes w' = file_writes w"
proof (induction ps arbitrary: acc w)
  case Nil
  then show ?case by (simp add: embedded_def)
next
  case (Cons p ps)
  obtain r n ws where one: "retryWithBackoff (\<lambda>k. embedQuery env k (embedding_text p)) 3 (embed_calls w) = (r, n, ws)"
    by (cases "retryWithBackoff (\<lambda>k. embedQuery env k (embedding_text p)) 3 (embed_calls w)")
  obtain acc1 w1 where step: "embed_step env (acc, w) p = (acc1, w1)"
    by (cases "embed_step env (acc, w) p")
  from step one have
    a1: "acc1 = acc @ (case r of Inr emb \<Rightarrow> [p\<lparr>embedding := Some emb\<rparr>] | Inl e \<Rightarrow> [])"
    and w1: "embed_calls w1 = n" "items w1 = items w" "insert_calls w1 = insert_calls w"
      "file_writes w1 = file_writes w"
    by (auto simp: embed_step_def embed_with_retry_def log_def split: sum.splits)
  from Cons.prems step have "foldl (embed_step env) (acc1, w1) ps = (acc', w')" by simp
  from Cons.IH [OF this] a1 w1 one show ?case
    by (simp add: embedded_Cons)
qed

lemma embedded_from_run: "d \<in> set (embedded ps rs) \<Longrightarrow> from_run ps d"
proof (induction ps arbitrary: rs)
  case Nil
  then show ?case by (simp add: embedded_def)
next
  case (Cons p ps)
  show ?case
  proof (cases rs)
    case Nil
    with Cons.prems show ?thesis by (simp add: embedded_def)
  next
    case (Cons r rs')
    with Cons.prems have "d \<in> set (case r of Inr emb \<Rightarrow> [p\<lparr>embedding := Some emb\<rparr>] | Inl e \<Rightarrow> [])
        \<or> d \<in> set (embedded ps rs')"
      by (simp add: embedded_Cons)
    then show ?thesis
    proof
      assume "d \<in> set (case r of Inr emb \<Rightarrow> [p\<lparr>embedding := Some emb\<rparr>] | Inl e \<Rightarrow> [])"
      then show ?thesis by (auto simp: from_run_def split: sum.splits)
    next
      assume "d \<in> set (embedded ps rs')"
      from Cons.IH [OF this] show ?thesis by (auto simp: from_run_def)
    qed
  qed
qed

lemma accepted_subset: "set (accepted ps fs) \<subseteq> set ps"
  by (auto simp: accepted_def dest: set_zip_leftD)

lemma length_accepted:
  "length fs = length ps \<Longrightarrow> length (accepted ps fs) = length (filter (\<lambda>f. f = None) fs)"
proof (induction ps arbitrary: fs)
  case Nil
  then show ?case by (simp add: accepted_def)
next
  case (Cons p ps)
  then obtain f fs' where fs: "fs = f # fs'" by (cases fs) auto
  with Cons.prems have "length fs' = length ps" by simp
  from Cons.IH [OF this] fs show ?case by (simp add: accepted_def)
qed

lemma from_run_mono: "set qs \<subseteq> set ps \<Longrightarrow> from_run qs d \<Longrightarrow> from_run ps d"
  by (auto simp: from_run_def)

lemma migrate_pause_keeps:
  "embed_calls (migrate_pause i n w) = embed_calls w"
  "insert_calls (migrate_pause i n w) = insert_calls w"
  "items (migrate_pause i n w) = items w"
  "file_writes (migrate_pause i n w) = file_writes w"
  by (simp_all add: migrate_pause_def setTimeout_def log_def)

lemma migrate_batch_char:
  assumes "migrate_batch env ps i (vars, w) = (vars', w')"
  defines "batch \<equiv> take migrate_BATCH_SIZE (drop i ps)"
  defines "docs \<equiv> embedded batch (embed_all env (map embedding_text batch) (embed_calls w))"
  defines "fs \<equiv> insert_faults env docs (insert_calls w) (items w)"
  shows "items w' = items w @ accepted docs fs"
    and "embed_calls w' = calls_after env (map embedding_text batch) (embed_calls w)"
    and "insert_calls w' = insert_calls w + length docs"
    and "totalSuccess vars' = totalSuccess vars + length (accepted docs fs)"
    and "totalFailed vars' = totalFailed vars + length (filter (\<lambda>f. f \<noteq> None) fs)"
proof -
  obtain acc w1 where g: "foldl (embed_step env) ([], w) batch = (acc, w1)"
    by (cases "foldl (embed_step env) ([], w) batch")
  note e = fold_embed_all [OF g]
  from e have acc: "acc = docs" by (simp add: docs_def)
  obtain res w2 where ins: "foldl (insert_step env) (\<lparr>success = 0, failed = 0\<rparr>, w1) docs = (res, w2)"
    by (cases "foldl (insert_step env) (\<lparr>success = 0, failed = 0\<rparr>, w1) docs")
  note f = fold_insert_all [OF ins]
  have fs1: "insert_faults env docs (insert_calls w1) (items w1) = fs"
    using e by (simp add: fs_def)
  have len: "length fs = length docs" by (simp add: fs_def length_insert_faults)
  from assms(1) g ins acc have v: "vars' = vars\<lparr>totalSuccess := totalSuccess vars + success res,
        totalFailed := totalFailed vars + failed res\<rparr>"
    and w': "w' = migrate_pause i (length ps) w2"
    by (simp_all add: migrate_batch_def Let_def generateEmbeddingsForBatch_def
          insertProductsToMongo_def batch_def)
  show "items w' = items w @ accepted docs fs"
    using f e fs1 by (simp add: w' migrate_pause_keeps)
  show "embed_calls w' = calls_after env (map embedding_text batch) (embed_calls w)"
    using f e by (simp add: w' migrate_pause_keeps)
  show "insert_calls w' = insert_calls w + length docs"
    using fold_insert_calls [of env "(\<lparr>success = 0, failed = 0\<rparr>, w1)" docs] ins e
    by (simp add: w' migrate_pause_keeps)
  show "totalSuccess vars' = totalSuccess vars + length (accepted docs fs)"
    using f fs1 length_accepted [OF len] by (simp add: v)
  show "totalFailed vars' = totalFailed vars + length (filter (\<lambda>f. f \<noteq> None) fs)"
    using f fs1 by (simp add: v)
qed

lemma migrate_batches_more:
  "i < length ps \<Longrightarrow>
   migrate_batches env ps i st = migrate_batches env ps (i + migrate_BATCH_SIZE) (migrate_batch env ps i st)"
  by (subst migrate_batches.simps) simp

lemma migrate_batches_done: "\<not> i < length ps \<Longrightarrow> migrate_batches env ps i st = st"
  by (subst migrate_batches.simps) simp

lemma migrate_batch_from_run:
  assumes "\<forall>d \<in> set (items (snd st)). from_run ps d"
  shows "\<forall>d \<in> set (items (snd (migrate_batch env ps i st))). from_run ps d"
proof -
  obtain vars w where st: "st = (vars, w)" by (cases st)
  obtain vars' w' where b: "migrate_batch env ps i (vars, w) = (vars', w')"
    by (cases "migrate_batch env ps i (vars, w)")
  let ?batch = "take migrate_BATCH_SIZE (drop i ps)"
  let ?docs = "embedded ?batch (embed_all env (map embedding_text ?batch) (embed_calls w))"
  let ?fs = "insert_faults env ?docs (insert_calls w) (items w)"
  have items: "items w' = items w @ accepted ?docs ?fs" by (rule migrate_batch_char(1) [OF b])
  have sub: "set ?batch \<subseteq> set ps"
    by (meson set_take_subset set_drop_subset subset_trans)
  have "\<forall>d \<in> set (accepted ?docs ?fs). from_run ps d"
  proof
    fix d assume "d \<in> set (accepted ?docs ?fs)"
    with accepted_subset have "d \<in> set ?docs" by blast
    then have "from_run ?batch d" by (rule embedded_from_run)
    with sub show "from_run ps d" by (rule from_run_mono)
  qed
  with assms st items b show ?thesis by auto
qed

lemma migrate_batches_from_run:
  "\<forall>d \<in> set (items (snd st)). from_run ps d \<Longrightarrow>
   \<forall>d \<in> set (items (snd (migrate_batches env ps i st))). from_run ps d"
proof (induction env ps i st rule: migrate_batches.induct)
  case (1 env ps i st)
  show ?case
  proof (cases "i < length ps")
    case False
    with "1.prems" show ?thesis by (simp add: migrate_batches_done)
  next
    case True
    from "1.IH" [OF True migrate_batch_from_run [OF "1.prems"]] True
    show ?thesis by (simp add: migrate_batches_more)
  qed
qed

lemma migrate_batch_count:
  "totalSuccess (fst (migrate_batch env ps i st)) + length (items (snd st))
     = totalSuccess (fst st) + length (items (snd (migrate_batch env ps i st)))"
proof -
  obtain vars w where st: "st = (vars, w)" by (cases st)
  obtain vars' w' where b: "migrate_batch env ps i (vars, w) = (vars', w')"
    by (cases "migrate_batch env ps i (vars, w)")
  from migrate_batch_char(1) [OF b] migrate_batch_char(4) [OF b] st b show ?thesis by simp
qed

lemma migrate_batches_count:
  "totalSuccess (fst (migrate_batches env ps i st)) + length (items (snd st))
     = totalSuccess (fst st) + length (items (snd (migrate_batches env ps i st)))"
proof (induction env ps i st rule: migrate_batches.induct)
  case (1 env ps i st)
  show ?case
  proof (cases "i < length ps")
    case False
    then show ?thesis by (simp add: migrate_batches_done)
  next
    case True
    from "1.IH" [OF True] migrate_batch_count [of env ps i st] True
    show ?thesis by (simp add: migrate_batches_more)
  qed
qed

lemma migrate_batch_agree:
  assumes "agree (snd st) (snd st')"
  shows "agree (snd (migrate_batch env ps i st)) (snd (migrate_batch env ps i st'))"
proof -
  obtain vars w where st: "st = (vars, w)" by (cases st)
  obtain vars2 w2 where st': "st' = (vars2, w2)" by (cases st')
  obtain v1 w1 where b: "migrate_batch env ps i (vars, w) = (v1, w1)"
    by (cases "migrate_batch env ps i (vars, w)")
  obtain v3 w3 where b': "migrate_batch env ps i (vars2, w2) = (v3, w3)"
    by (cases "migrate_batch env ps i (vars2, w2)")
  from assms st st' have a: "embed_calls w = embed_calls w2" "insert_calls w = insert_calls w2"
    "items w = items w2" by (simp_all add: agree_def)
  from migrate_batch_char(1-3) [OF b] migrate_batch_char(1-3) [OF b'] a
  have "agree w1 w3" by (simp add: agree_def)
  with st st' b b' show ?thesis by simp
qed

lemma migrate_batches_agree:
  "agree (snd st) (snd st') \<Longrightarrow>
   agree (snd (migrate_batches env ps i st)) (snd (migrate_batches env ps i st'))"
proof (induction env ps i st arbitrary: st' rule: migrate_batches.induct)
  case (1 env ps i st)
  show ?case
  proof (cases "i < length ps")
    case False
    with "1.prems" show ?thesis by (simp add: migrate_batches_done)
  next
    case True
    from "1.IH" [OF True migrate_batch_agree [OF "1.prems"]] True
    show ?thesis by (simp add: migrate_batches_more)
  qed
qed

lemma ensure_index_keeps:
  "embed_calls (ensureVectorSearchIndex env w) = embed_calls w"
  "insert_calls (ensureVectorSearchIndex env w) = insert_calls w"
  "items (ensureVectorSearchIndex env w) = items w"
  by (simp_all add: ensureVectorSearchIndex_def log_def split: option.splits)

lemma purged_core:
  "items (purged env n w) = []"
  "embed_calls (purged env n w) = embed_calls w"
  "insert_calls (purged env n w) = insert_calls w"
  by (simp_all add: purged_def Let_def log_def ensure_index_keeps)

lemma migrate_run:
  assumes "env_set (MONGODB_ATLAS_URI env)" and "env_set (GOOGLE_API_KEY env)"
    and "sqlite_rows env = Inr rows" and "rows \<noteq> []"
    and "map_throwing (transformProductToMongoSchema rt) rows = Inr ps"
    and "client_fault env = None" and "connect_fault env = None" and "delete_fault env = None"
    and "model_fault env = None" and "verify_fault env = None" and "close_fault env = None"
  shows "migrate rt env w =
    (let st = migrate_batches env ps 0
                (\<lparr>totalSuccess = 0, totalFailed = 0\<rparr>, purged env (length ps) w)
     in (Inr (),
         log ConnectionClosed
           (log (MigrationSummary (totalSuccess (fst st)) (totalFailed (fst st)))
              (log (Verification (length (items (snd st)))
                      (length (filter (\<lambda>d. embedding d \<noteq> None) (items (snd st)))))
                 (snd st)))))"
  using assms by (simp add: migrate_def Let_def verifyMigration_def purged_def closing_def)

lemma migrate_ok:
  assumes "fst (migrate rt env w) = Inr ()" and "sqlite_rows env = Inr rows" and "rows \<noteq> []"
  shows "env_set (MONGODB_ATLAS_URI env) \<and> env_set (GOOGLE_API_KEY env)
       \<and> (\<exists>ps. map_throwing (transformProductToMongoSchema rt) rows = Inr ps)
       \<and> client_fault env = None \<and> connect_fault env = None \<and> delete_fault env = None
       \<and> model_fault env = None \<and> verify_fault env = None \<and> close_fault env = None"
  using assms
  by (auto simp: migrate_def Let_def verifyMigration_def closing_def
      split: if_splits option.splits sum.splits)

lemma last_but_one: "last (butlast (xs @ [a, b, c])) = b"
  by (simp add: butlast_append)

text \<open>
  Claim C3, as stated, fails: when the extraction gives no row, \<^verbatim>\<open>migrate\<close> returns
  before the \<^verbatim>\<open>deleteMany\<close>; the run ends successfully and the document of the earlier
  run is still in the collection.
\<close>

theorem empty_migration_keeps_old_documents:
  "fst (migrate literal_runtime empty_env (initial_world [stale] [])) = Inr ()
   \<and> items (snd (migrate literal_runtime empty_env (initial_world [stale] []))) = [stale]"
  by (simp add: migrate_def empty_env_def scenario_env_def env_set_def initial_world_def log_def
        js_def)

text \<open>
  Claim C3, amended. When the extraction gives at least one row and the run ends
  successfully, the collection was emptied before the first insert: every document it
  holds at the end is a transformed row of this run with its embedding, the number of
  documents is the number of successful inserts the summary reports, and the final
  content is the same whatever the collection held before the run.
\<close>

theorem purge_gives_full_replace:
  assumes "sqlite_rows env = Inr rows" and "rows \<noteq> []" and "fst (migrate rt env w) = Inr ()"
  shows "(\<exists>ps. map_throwing (transformProductToMongoSchema rt) rows = Inr ps
            \<and> (\<forall>d \<in> set (items (snd (migrate rt env w))). from_run ps d))
       \<and> (\<exists>f. last (butlast (console (snd (migrate rt env w))))
                = MigrationSummary (length (items (snd (migrate rt env w)))) f)
       \<and> (\<forall>prior. fst (migrate rt env (w\<lparr>items := prior\<rparr>)) = Inr ()
            \<and> items (snd (migrate rt env (w\<lparr>items := prior\<rparr>))) = items (snd (migrate rt env w)))"
proof -
  from migrate_ok [OF assms(3) assms(1) assms(2)]
  obtain ps where t: "map_throwing (transformProductToMongoSchema rt) rows = Inr ps"
    and c: "env_set (MONGODB_ATLAS_URI env)" "env_set (GOOGLE_API_KEY env)"
    "client_fault env = None" "connect_fault env = None" "delete_fault env = None"
    "model_fault env = None" "verify_fault env = None" "close_fault env = None"
    by blast
  let ?v0 = "\<lparr>totalSuccess = 0, totalFailed = 0\<rparr>"
  let ?st = "migrate_batches env ps 0 (?v0, purged env (length ps) w)"
  note run = migrate_run [OF c(1) c(2) assms(1) assms(2) t c(3-8)]
  have items: "items (snd (migrate rt env w)) = items (snd ?st)"
    by (simp add: run Let_def log_keeps)
  have "\<forall>d \<in> set (items (snd (?v0, purged env (length ps) w))). from_run ps d"
    by (simp add: purged_core)
  from migrate_batches_from_run [OF this]
  have "\<forall>d \<in> set (items (snd (migrate rt env w))). from_run ps d"
    by (simp only: items)
  with t have 1: "\<exists>ps. map_throwing (transformProductToMongoSchema rt) rows = Inr ps
            \<and> (\<forall>d \<in> set (items (snd (migrate rt env w))). from_run ps d)" by blast
  have "totalSuccess (fst ?st) = length (items (snd ?st))"
    using migrate_batches_count [of env ps 0 "(?v0, purged env (length ps) w)"]
    by (simp add: purged_core)
  then have "last (butlast (console (snd (migrate rt env w))))
       = MigrationSummary (length (items (snd (migrate rt env w)))) (totalFailed (fst ?st))"
    by (simp add: run Let_def log_def last_but_one)
  then have 2: "\<exists>f. last (butlast (console (snd (migrate rt env w))))
                = MigrationSummary (length (items (snd (migrate rt env w)))) f" by blast
  have 3: "\<forall>prior. fst (migrate rt env (w\<lparr>items := prior\<rparr>)) = Inr ()
            \<and> items (snd (migrate rt env (w\<lparr>items := prior\<rparr>))) = items (snd (migrate rt env w))"
  proof
    fix prior
    let ?st' = "migrate_batches env ps 0 (?v0, purged env (length ps) (w\<lparr>items := prior\<rparr>))"
    have "agree (snd (?v0, purged env (length ps) w))
                (snd (?v0, purged env (length ps) (w\<lparr>items := prior\<rparr>)))"
      by (simp add: agree_def purged_core)
    from migrate_batches_agree [OF this] have "items (snd ?st) = items (snd ?st')"
      by (simp add: agree_def)
    then show "fst (migrate rt env (w\<lparr>items := prior\<rparr>)) = Inr ()
            \<and> items (snd (migrate rt env (w\<lparr>items := prior\<rparr>))) = items (snd (migrate rt env w))"
      by (simp add: run Let_def log_keeps)
  qed
  from 1 2 3 show ?thesis by blast
qed

lemma scenario_batch:
  "take migrate_BATCH_SIZE (drop 0 [doc ''A'' ''Mug'', doc ''B'' ''Cup'', doc ''C'' ''Jar''])
     = [doc ''A'' ''Mug'', doc ''B'' ''Cup'', doc ''C'' ''Jar'']"
  by (simp add: migrate_BATCH_SIZE_def)

lemma scenario_embedded:
  "embedded [doc ''A'' ''Mug'', doc ''B'' ''Cup'', doc ''C'' ''Jar'']
     [Inr unit_vector, Inl (Thrown bad_request), Inr unit_vector]
   = [(doc ''A'' ''Mug'')\<lparr>embedding := Some unit_vector\<rparr>,
      (doc ''C'' ''Jar'')\<lparr>embedding := Some unit_vector\<rparr>]"
  by (simp add: embedded_def)

lemma scenario_generate:
  "embed_calls w = 0 \<Longrightarrow>
   fst (generateEmbeddingsForBatch scenario_env [doc ''A'' ''Mug'', doc ''B'' ''Cup'', doc ''C'' ''Jar''] w)
   = [(doc ''A'' ''Mug'')\<lparr>embedding := Some unit_vector\<rparr>,
      (doc ''C'' ''Jar'')\<lparr>embedding := Some unit_vector\<rparr>]"
proof -
  assume z: "embed_calls w = 0"
  obtain acc w1 where g: "foldl (embed_step scenario_env) ([], w)
      [doc ''A'' ''Mug'', doc ''B'' ''Cup'', doc ''C'' ''Jar''] = (acc, w1)"
    by (cases "foldl (embed_step scenario_env) ([], w) [doc ''A'' ''Mug'', doc ''B'' ''Cup'', doc ''C'' ''Jar'']")
  from fold_embed_all [OF g] have "acc = embedded [doc ''A'' ''Mug'', doc ''B'' ''Cup'', doc ''C'' ''Jar'']
      (embed_all scenario_env (map embedding_text [doc ''A'' ''Mug'', doc ''B'' ''Cup'', doc ''C'' ''Jar'']) 0)"
    by (simp only: z append_Nil)
  then have "acc = [(doc ''A'' ''Mug'')\<lparr>embedding := Some unit_vector\<rparr>,
      (doc ''C'' ''Jar'')\<lparr>embedding := Some unit_vector\<rparr>]"
    by (simp only: scenario_results scenario_embedded)
  with g show ?thesis by (simp add: generateEmbeddingsForBatch_def)
qed

lemma scenario_migrate_hyps:
  "client_fault scenario_env = None" "connect_fault scenario_env = None"
  "delete_fault scenario_env = None" "model_fault scenario_env = None"
  "verify_fault scenario_env = None" "close_fault scenario_env = None"
  by (simp_all add: scenario_env_def)

lemma transform_rows_mongo:
  "map_throwing (transformProductToMongoSchema literal_runtime) three_rows
     = Inr [doc ''A'' ''Mug'', doc ''B'' ''Cup'', doc ''C'' ''Jar'']"
proof -
  have "transformProductToMongoSchema literal_runtime = transformProduct literal_runtime"
    by (rule ext) (rule transform_same)
  with transform_rows show ?thesis by (simp only:)
qed

lemma scenario_batches:
  fixes w :: "js_string world"
  assumes "embed_calls w = 0" and "insert_calls w = 0" and "items w = []"
  shows "items (snd (migrate_batches scenario_env [doc ''A'' ''Mug'', doc ''B'' ''Cup'', doc ''C'' ''Jar''] 0
                  (\<lparr>totalSuccess = 0, totalFailed = 0\<rparr>, w)))
         = [(doc ''A'' ''Mug'')\<lparr>embedding := Some unit_vector\<rparr>,
            (doc ''C'' ''Jar'')\<lparr>embedding := Some unit_vector\<rparr>]"
    and "totalSuccess (fst (migrate_batches scenario_env [doc ''A'' ''Mug'', doc ''B'' ''Cup'', doc ''C'' ''Jar''] 0
                  (\<lparr>totalSuccess = 0, totalFailed = 0\<rparr>, w))) = 2"
    and "totalFailed (fst (migrate_batches scenario_env [doc ''A'' ''Mug'', doc ''B'' ''Cup'', doc ''C'' ''Jar''] 0
                  (\<lparr>totalSuccess = 0, totalFailed = 0\<rparr>, w))) = 0"
proof -
  let ?ps = "[doc ''A'' ''Mug'', doc ''B'' ''Cup'', doc ''C'' ''Jar'']"
  let ?D = "[(doc ''A'' ''Mug'')\<lparr>embedding := Some unit_vector\<rparr>,
            (doc ''C'' ''Jar'')\<lparr>embedding := Some unit_vector\<rparr>]"
  let ?st0 = "(\<lparr>totalSuccess = 0, totalFailed = 0\<rparr>, w)"
  obtain v1 w1 where b: "migrate_batch scenario_env ?ps 0 ?st0 = (v1, w1)"
    by (cases "migrate_batch scenario_env ?ps 0 ?st0")
  have "migrate_batches scenario_env ?ps 0 ?st0
      = migrate_batches scenario_env ?ps (0 + migrate_BATCH_SIZE) (v1, w1)"
    using migrate_batches_more [of 0 ?ps scenario_env ?st0] b by simp
  also have "\<dots> = (v1, w1)"
    by (rule migrate_batches_done) (simp add: migrate_BATCH_SIZE_def)
  finally have all: "migrate_batches scenario_env ?ps 0 ?st0 = (v1, w1)" .
  have docs: "embedded (take migrate_BATCH_SIZE (drop 0 ?ps))
      (embed_all scenario_env (map embedding_text (take migrate_BATCH_SIZE (drop 0 ?ps))) 0)
      = ?D"
    by (simp only: scenario_batch scenario_results scenario_embedded)
  have fs: "insert_faults scenario_env ?D 0 [] = [None, None]"
    by (simp add: scenario_env_def)
  have acc: "accepted ?D [None, None] = ?D" by (simp add: accepted_def)
  from migrate_batch_char(1) [OF b] have "items w1 = ?D"
    by (simp only: assms docs fs acc append_Nil)
  with all show "items (snd (migrate_batches scenario_env ?ps 0 ?st0)) = ?D" by simp
  from migrate_batch_char(4) [OF b] have "totalSuccess v1 = 2"
    by (simp only: assms docs fs acc) simp
  with all show "totalSuccess (fst (migrate_batches scenario_env ?ps 0 ?st0)) = 2" by simp
  from migrate_batch_char(5) [OF b] have "totalFailed v1 = 0"
    by (simp only: assms docs fs) simp
  with all show "totalFailed (fst (migrate_batches scenario_env ?ps 0 ?st0)) = 0" by simp
qed

lemma scenario_migrate:
  "fst (migrate literal_runtime scenario_env (initial_world prior [])) = Inr ()"
  "items (snd (migrate literal_runtime scenario_env (initial_world prior [])))
     = [(doc ''A'' ''Mug'')\<lparr>embedding := Some unit_vector\<rparr>,
        (doc ''C'' ''Jar'')\<lparr>embedding := Some unit_vector\<rparr>]"
  "last (butlast (console (snd (migrate literal_runtime scenario_env (initial_world prior [])))))
     = MigrationSummary 2 0"
proof -
  let ?w = "initial_world prior [] :: js_string world"
  let ?ps = "[doc ''A'' ''Mug'', doc ''B'' ''Cup'', doc ''C'' ''Jar'']"
  have p: "embed_calls (purged scenario_env (length ?ps) ?w) = 0"
    "insert_calls (purged scenario_env (length ?ps) ?w) = 0"
    "items (purged scenario_env (length ?ps) ?w) = []"
    by (simp_all add: purged_core initial_world_def)
  note run = migrate_run [OF scenario_hyps(7) scenario_hyps(1) scenario_hyps(2) scenario_hyps(3)
      transform_rows_mongo scenario_migrate_hyps, of ?w]
  note b = scenario_batches [OF p]
  show "fst (migrate literal_runtime scenario_env ?w) = Inr ()"
    by (simp add: run Let_def)
  show "items (snd (migrate literal_runtime scenario_env ?w))
     = [(doc ''A'' ''Mug'')\<lparr>embedding := Some unit_vector\<rparr>,
        (doc ''C'' ''Jar'')\<lparr>embedding := Some unit_vector\<rparr>]"
    using b(1) by (simp add: run Let_def log_keeps)
  show "last (butlast (console (snd (migrate literal_runtime scenario_env ?w))))
     = MigrationSummary 2 0"
    using b(2,3) by (simp add: run Let_def log_def last_but_one)
qed

theorem purge_gives_full_replace_witness:
  "sqlite_rows scenario_env = Inr three_rows \<and> three_rows \<noteq> []
   \<and> fst (migrate literal_runtime scenario_env (initial_world [stale] [])) = Inr ()
   \<and> items (snd (migrate literal_runtime scenario_env (initial_world [stale] [])))
       = [(doc ''A'' ''Mug'')\<lparr>embedding := Some unit_vector\<rparr>,
          (doc ''C'' ''Jar'')\<lparr>embedding := Some unit_vector\<rparr>]
   \<and> map_throwing (transformProductToMongoSchema literal_runtime) three_rows
       = Inr [doc ''A'' ''Mug'', doc ''B'' ''Cup'', doc ''C'' ''Jar'']
   \<and> from_run [doc ''A'' ''Mug'', doc ''B'' ''Cup'', doc ''C'' ''Jar'']
        ((doc ''A'' ''Mug'')\<lparr>embedding := Some unit_vector\<rparr>)
   \<and> items (snd (migrate literal_runtime scenario_env ((initial_world [stale] [])\<lparr>items := []\<rparr>)))
       = items (snd (migrate literal_runtime scenario_env (initial_world [stale] [])))"
proof -
  note h = scenario_hyps(2) scenario_hyps(3) scenario_migrate(1) [of "[stale]"]
  note t = purge_gives_full_replace [OF h]
  from t [THEN conjunct1] transform_rows_mongo
  have "\<forall>d \<in> set (items (snd (migrate literal_runtime scenario_env (initial_world [stale] [])))).
          from_run [doc ''A'' ''Mug'', doc ''B'' ''Cup'', doc ''C'' ''Jar''] d"
    by auto
  with scenario_migrate(2) [of "[stale]"]
  have 1: "from_run [doc ''A'' ''Mug'', doc ''B'' ''Cup'', doc ''C'' ''Jar'']
        ((doc ''A'' ''Mug'')\<lparr>embedding := Some unit_vector\<rparr>)" by simp
  from t have 2: "items (snd (migrate literal_runtime scenario_env ((initial_world [stale] [])\<lparr>items := []\<rparr>)))
       = items (snd (migrate literal_runtime scenario_env (initial_world [stale] [])))" by blast
  from 1 2 h scenario_migrate(2) [of "[stale]"] transform_rows_mongo show ?thesis by simp
qed

text \<open>
  Claim C1 on the migration script, at the input of the claim: three rows, the embedding
  call of the second always fails. \<^verbatim>\<open>generateEmbeddingsForBatch\<close> returns two
  products, not three; the run ends successfully with two documents in the collection
  and the summary 2 migrated, 0 failed. The row whose embedding failed is neither
  delivered nor counted, whereas the export script keeps it and counts it.
\<close>

theorem migrate_drops_failed_embedding:
  "sqlite_rows scenario_env = Inr three_rows
   \<and> map_throwing (transformProductToMongoSchema literal_runtime) three_rows
       = Inr [doc ''A'' ''Mug'', doc ''B'' ''Cup'', doc ''C'' ''Jar'']
   \<and> embed_all scenario_env
       (map embedding_text [doc ''A'' ''Mug'', doc ''B'' ''Cup'', doc ''C'' ''Jar'']) 0
       = [Inr unit_vector, Inl (Thrown bad_request), Inr unit_vector]
   \<and> fst (generateEmbeddingsForBatch scenario_env
            [doc ''A'' ''Mug'', doc ''B'' ''Cup'', doc ''C'' ''Jar''] (initial_world [] []))
       = [(doc ''A'' ''Mug'')\<lparr>embedding := Some unit_vector\<rparr>,
          (doc ''C'' ''Jar'')\<lparr>embedding := Some unit_vector\<rparr>]
   \<and> fst (migrate literal_runtime scenario_env (initial_world [] [])) = Inr ()
   \<and> items (snd (migrate literal_runtime scenario_env (initial_world [] [])))
       = [(doc ''A'' ''Mug'')\<lparr>embedding := Some unit_vector\<rparr>,
          (doc ''C'' ''Jar'')\<lparr>embedding := Some unit_vector\<rparr>]
   \<and> last (butlast (console (snd (migrate literal_runtime scenario_env (initial_world [] [])))))
       = MigrationSummary 2 0"
proof -
  have z: "embed_calls (initial_world [] [] :: js_string world) = 0"
    by (simp add: initial_world_def)
  from transform_rows_mongo scenario_results scenario_generate [OF z] scenario_hyps(2)
    scenario_migrate [of "[]"]
  show ?thesis by blast
qed

end
